(* ===== verification/Prelude.thy ===== *)
theory Prelude
  imports Main "HOL-Library.Word" "HOL-Library.AList"
begin

unbundle bit_operations_syntax

text \<open>
  Shared ground of the development: the byte and word types of the Go sources, slices,
  big-endian and little-endian fields, error values with their \<open>fmt.Errorf\<close> contexts,
  buffered channels, and generic lemmas on them. Nothing here is specific to one component.

  The collections: \<open>be_simps\<close> evaluates endian fields, \<open>chan_simps\<close> unfolds channel
  operations.
\<close>

named_theorems be_simps
named_theorems chan_simps

type_synonym byte = "8 word"
type_synonym u16 = "16 word"
type_synonym u32 = "32 word"
type_synonym u64 = "64 word"
type_synonym bytes = "byte list"

section \<open>Strings as bytes\<close>

text \<open>A Go string is a byte sequence; \<open>[]byte(s)\<close> and \<open>string(b)\<close> convert.\<close>

definition byte_of_char :: "char \<Rightarrow> byte" where
  "byte_of_char c = word_of_nat (of_char c)"

definition str :: "string \<Rightarrow> bytes" where
  "str s = map byte_of_char s"

lemma str_simps [simp]:
  "str [] = []" "str (c # s) = byte_of_char c # str s"
  by (simp_all add: str_def)

lemma str_append [simp]: "str (s @ t) = str s @ str t"
  by (simp add: str_def)

lemma length_str [simp]: "length (str s) = length s"
  by (simp add: str_def)

section \<open>Slices\<close>

definition slice :: "nat \<Rightarrow> nat \<Rightarrow> 'a list \<Rightarrow> 'a list" where
  "slice i j xs = take (j - i) (drop i xs)"

lemma length_slice: "length (slice i j xs) = min (j - i) (length xs - i)"
  by (simp add: slice_def)

lemma slice_append_left:
  "j \<le> length xs \<Longrightarrow> slice i j (xs @ ys) = slice i j xs"
  by (cases "i \<le> j") (simp_all add: slice_def)

lemma slice_split: "i \<le> j \<Longrightarrow> slice i j xs @ drop j xs = drop i xs"
  by (metis append_take_drop_id drop_drop le_add_diff_inverse2 slice_def)

section \<open>Endian fields\<close>

definition be16 :: "u16 \<Rightarrow> bytes" where
  "be16 w = [ucast (drop_bit 8 w), ucast w]"

definition be32 :: "u32 \<Rightarrow> bytes" where
  "be32 w = [ucast (drop_bit 24 w), ucast (drop_bit 16 w), ucast (drop_bit 8 w), ucast w]"

definition le16 :: "u16 \<Rightarrow> bytes" where
  "le16 w = [ucast w, ucast (drop_bit 8 w)]"

definition le32 :: "u32 \<Rightarrow> bytes" where
  "le32 w = [ucast w, ucast (drop_bit 8 w), ucast (drop_bit 16 w), ucast (drop_bit 24 w)]"

definition le64 :: "u64 \<Rightarrow> bytes" where
  "le64 w = map (\<lambda>i. ucast (drop_bit (8 * i) w)) [0, 1, 2, 3, 4, 5, 6, 7]"

text \<open>\<open>binary.BigEndian.Uint16\<close> and \<open>Uint32\<close> at offset \<open>i\<close>; the sources read them only
  behind a length check, which the callers here keep.\<close>

definition get_be16 :: "nat \<Rightarrow> bytes \<Rightarrow> u16" where
  "get_be16 i xs = push_bit 8 (ucast (xs ! i)) OR ucast (xs ! (i + 1))"

definition get_be32 :: "nat \<Rightarrow> bytes \<Rightarrow> u32" where
  "get_be32 i xs =
     push_bit 24 (ucast (xs ! i)) OR push_bit 16 (ucast (xs ! (i + 1)))
     OR push_bit 8 (ucast (xs ! (i + 2))) OR ucast (xs ! (i + 3))"

lemma length_endian [simp]:
  "length (be16 w) = 2" "length (be32 v) = 4"
  "length (le16 w) = 2" "length (le32 v) = 4" "length (le64 u) = 8"
  by (simp_all add: be16_def be32_def le16_def le32_def le64_def)

lemma join16:
  "push_bit 8 (ucast (ucast (drop_bit 8 w) :: byte)) OR ucast (ucast w :: byte) = (w :: u16)"
  by (rule bit_word_eqI) (auto simp: bit_simps)

lemma join32:
  "push_bit 24 (ucast (ucast (drop_bit 24 w) :: byte)) OR push_bit 16 (ucast (ucast (drop_bit 16 w) :: byte))
   OR push_bit 8 (ucast (ucast (drop_bit 8 w) :: byte)) OR ucast (ucast w :: byte) = (w :: u32)"
proof (rule bit_word_eqI)
  fix n assume "n < LENGTH(32)"
  then consider "n < 8" | "8 \<le> n" "n < 16" | "16 \<le> n" "n < 24" | "24 \<le> n" "n < 32"
    by fastforce
  then show "bit (push_bit 24 (ucast (ucast (drop_bit 24 w) :: byte))
      OR push_bit 16 (ucast (ucast (drop_bit 16 w) :: byte))
      OR push_bit 8 (ucast (ucast (drop_bit 8 w) :: byte)) OR ucast (ucast w :: byte) :: u32) n = bit w n"
    by cases (auto simp: bit_simps)
qed

lemma get_be16_be16 [be_simps]:
  "length pre = i \<Longrightarrow> get_be16 i (pre @ be16 w @ rest) = w"
  using join16 [of w] by (simp add: get_be16_def be16_def nth_append)

lemma get_be32_be32 [be_simps]:
  "length pre = i \<Longrightarrow> get_be32 i (pre @ be32 w @ rest) = w"
  using join32 [of w] by (simp add: get_be32_def be32_def nth_append)

lemma be16_inject: "be16 v = be16 w \<longleftrightarrow> v = w"
  by (metis append_Nil get_be16_be16 list.size(3))

lemma be32_inject: "be32 v = be32 w \<longleftrightarrow> v = w"
  by (metis append_Nil get_be32_be32 list.size(3))

section \<open>Error values\<close>

text \<open>
  A sentinel error \<open>Base e\<close>; an error wrapped by \<open>fmt.Errorf("context: %w", err)\<close> (\<open>Ctx\<close>) or by
  \<open>fmt.Errorf("%w suffix", err)\<close> (\<open>Detail\<close>); two errors wrapped by \<open>fmt.Errorf("%w: %w", a, b)\<close>
  (\<open>Join\<close>). \<open>errors.Is\<close> looks through the wrapping; \<open>err_root\<close> is the first sentinel wrapped.
\<close>

datatype 'e err = Base 'e | Ctx string "'e err" | Detail "'e err" string | Join "'e err" "'e err"

primrec err_root :: "'e err \<Rightarrow> 'e" where
  "err_root (Base e) = e"
| "err_root (Ctx _ e) = err_root e"
| "err_root (Detail e _) = err_root e"
| "err_root (Join a _) = err_root a"

primrec errors_Is :: "'e err \<Rightarrow> 'e \<Rightarrow> bool" where
  "errors_Is (Base e) t \<longleftrightarrow> e = t"
| "errors_Is (Ctx _ e) t \<longleftrightarrow> errors_Is e t"
| "errors_Is (Detail e _) t \<longleftrightarrow> errors_Is e t"
| "errors_Is (Join a b) t \<longleftrightarrow> errors_Is a t \<or> errors_Is b t"

lemma errors_Is_root: "errors_Is e (err_root e)"
  by (induction e) simp_all

definition wrap :: "string \<Rightarrow> ('e err + 'a) \<Rightarrow> ('e err + 'a)" where
  "wrap c r = (case r of Inl e \<Rightarrow> Inl (Ctx c e) | Inr x \<Rightarrow> Inr x)"

lemma wrap_simps [simp]:
  "wrap c (Inl e) = Inl (Ctx c e)" "wrap c (Inr x) = Inr x"
  by (simp_all add: wrap_def)

lemma wrap_Inr_iff [simp]: "wrap c r = Inr x \<longleftrightarrow> r = Inr x"
  by (cases r) simp_all

section \<open>Buffered channels\<close>

text \<open>
  A buffered Go channel is its queue and its capacity. \<open>chan_send\<close> is \<open>None\<close> when the send
  would block; \<open>chan_offer\<close> is a send in a \<open>select\<close> with an empty \<open>default\<close>, which drops.
\<close>

definition chan_send :: "nat \<Rightarrow> 'a \<Rightarrow> 'a list \<Rightarrow> 'a list option" where
  "chan_send n x q = (if length q < n then Some (q @ [x]) else None)"

definition chan_offer :: "nat \<Rightarrow> 'a \<Rightarrow> 'a list \<Rightarrow> 'a list" where
  "chan_offer n x q = (case chan_send n x q of Some q' \<Rightarrow> q' | None \<Rightarrow> q)"

definition chan_recv :: "'a list \<Rightarrow> ('a \<times> 'a list) option" where
  "chan_recv q = (case q of [] \<Rightarrow> None | x # q' \<Rightarrow> Some (x, q'))"

lemma chan_send_Some [chan_simps]:
  "chan_send n x q = Some q' \<longleftrightarrow> length q < n \<and> q' = q @ [x]"
  by (auto simp: chan_send_def)

lemma chan_send_None [chan_simps]: "chan_send n x q = None \<longleftrightarrow> n \<le> length q"
  by (auto simp: chan_send_def)

lemma chan_offer_if [chan_simps]: "chan_offer n x q = (if length q < n then q @ [x] else q)"
  by (simp add: chan_offer_def chan_send_def)

lemma chan_recv_simps [simp]: "chan_recv [] = None" "chan_recv (x # q) = Some (x, q)"
  by (simp_all add: chan_recv_def)

lemma chan_recv_Some [chan_simps]: "chan_recv q = Some (x, q') \<longleftrightarrow> q = x # q'"
  by (auto simp: chan_recv_def split: list.splits)

lemma chan_offer_bound: "length q \<le> n \<Longrightarrow> length (chan_offer n x q) \<le> n"
  by (simp add: chan_offer_if)

section \<open>Go maps as association lists\<close>

text \<open>A Go map is kept as an association list with distinct keys, so that \<open>len(m)\<close> is its
  length and everything evaluates.\<close>

lemma map_of_AList_update [simp]:
  "map_of (AList.update k v al) k' = (if k' = k then Some v else map_of al k')"
  by (simp add: update_conv')

lemma map_of_AList_delete [simp]:
  "map_of (AList.delete k al) k' = (if k' = k then None else map_of al k')"
  by (simp add: delete_conv')

section \<open>Lists\<close>

lemma prefix_take_map: "take n (map f xs) = map f (take n xs)"
  by (simp add: take_map)

end
