(* ===== verification/Interfaces.thy ===== *)
theory Interfaces
  imports Prelude
begin

text \<open>
  The interfaces between components, as locales: what a provider promises (\<open>assumes\<close>) and
  what follows for its clients. Each is interpreted on the model's own definitions in the
  theory of the component that provides it.
\<close>

section \<open>An encoding with its decoder\<close>

locale byte_codec =
  fixes enc :: "'a \<Rightarrow> 'b"
    and dec :: "'b \<Rightarrow> 'a option"
    and ok :: "'a \<Rightarrow> bool"
  assumes dec_enc: "ok x \<Longrightarrow> dec (enc x) = Some x"
begin

lemma enc_inject: "ok x \<Longrightarrow> ok y \<Longrightarrow> enc x = enc y \<longleftrightarrow> x = y"
  by (metis dec_enc option.inject)

lemma inj_on_enc: "inj_on enc {x. ok x}"
  by (rule inj_onI) (simp add: enc_inject)

lemma dec_map_enc: "\<forall>x\<in>set xs. ok x \<Longrightarrow> map (dec \<circ> enc) xs = map Some xs"
  by (induction xs) (simp_all add: dec_enc)

lemma distinct_enc: "\<forall>x\<in>set xs. ok x \<Longrightarrow> distinct xs \<Longrightarrow> distinct (map enc xs)"
  by (simp add: distinct_map inj_on_def enc_inject)

end

section \<open>A bounded queue whose sender drops when it is full\<close>

locale lossy_queue =
  fixes put :: "'a \<Rightarrow> 's \<Rightarrow> 's"
    and items :: "'s \<Rightarrow> 'a list"
    and cap :: "'s \<Rightarrow> nat"
    and live :: "'s \<Rightarrow> bool"
  assumes put_room: "live s \<Longrightarrow> length (items s) < cap s \<Longrightarrow> items (put x s) = items s @ [x]"
    and put_full: "live s \<Longrightarrow> cap s \<le> length (items s) \<Longrightarrow> put x s = s"
    and put_live: "live s \<Longrightarrow> live (put x s)"
    and put_cap: "live s \<Longrightarrow> cap (put x s) = cap s"
begin

lemma items_fold_put:
  "live s \<Longrightarrow> items (fold put xs s) = items s @ take (cap s - length (items s)) xs"
proof (induction xs arbitrary: s)
  case Nil
  then show ?case by simp
next
  case (Cons x xs)
  show ?case
  proof (cases "length (items s) < cap s")
    case True
    with Cons.prems have "items (put x s) = items s @ [x]" by (rule put_room)
    with Cons True show ?thesis
      by (simp add: put_live put_cap) (metis Suc_diff_Suc take_Suc_Cons)
  next
    case False
    with Cons show ?thesis by (simp add: put_full)
  qed
qed

lemma bound_fold_put:
  "live s \<Longrightarrow> length (items s) \<le> cap s \<Longrightarrow> length (items (fold put xs s)) \<le> cap s"
  by (simp add: items_fold_put)

lemma never_reorders:
  "live s \<Longrightarrow> \<exists>ys. items (fold put xs s) = items s @ ys \<and> ys = take (length ys) xs"
  by (simp add: items_fold_put min_def)

end

section \<open>The closing contract of a transport\<close>

text \<open>
  What \<open>link.Link\<close> and \<open>transport.Transport\<close> clients rely on: once closed, an endpoint stays
  closed, refuses to send, and reports that it cannot send.
\<close>

locale closable =
  fixes is_closed :: "'s \<Rightarrow> bool"
    and close :: "'s \<Rightarrow> 's"
    and can_send :: "'s \<Rightarrow> bool"
    and refuses :: "bytes \<Rightarrow> 's \<Rightarrow> bool"
  assumes close_closes: "is_closed (close s)"
    and close_again: "is_closed s \<Longrightarrow> close s = s"
    and closed_no_send: "is_closed s \<Longrightarrow> \<not> can_send s"
    and closed_refuses: "is_closed s \<Longrightarrow> refuses data s"
begin

lemma close_idem: "close (close s) = close s"
  by (rule close_again) (rule close_closes)

lemma close_funpow: "0 < n \<Longrightarrow> (close ^^ n) s = close s"
proof (induction n)
  case (Suc n)
  then show ?case by (cases n) (simp_all add: close_idem)
qed simp

lemma after_close: "\<not> can_send (close s)" "refuses data (close s)"
  by (simp_all add: closed_no_send closed_refuses close_closes)

end

section \<open>A registry of named factories\<close>

locale registry =
  fixes register :: "'k \<Rightarrow> 'f \<Rightarrow> 'r \<Rightarrow> 'r"
    and find :: "'k \<Rightarrow> 'r \<Rightarrow> 'f option"
    and available :: "'r \<Rightarrow> 'k list"
    and wf :: "'r \<Rightarrow> bool"
  assumes find_register: "find k' (register k f r) = (if k' = k then Some f else find k' r)"
    and wf_register: "wf r \<Longrightarrow> wf (register k f r)"
    and available_find: "wf r \<Longrightarrow> k \<in> set (available r) \<longleftrightarrow> find k r \<noteq> None"
    and available_distinct: "wf r \<Longrightarrow> distinct (available r)"
begin

lemma find_after_register: "find k (register k f r) = Some f"
  by (simp add: find_register)

lemma available_register:
  "wf r \<Longrightarrow> set (available (register k f r)) = insert k (set (available r))"
  by (auto simp: available_find wf_register find_register split: if_splits)

lemma last_registration_wins: "find k (register k f (register k g r)) = Some f"
  by (simp add: find_register)

lemma register_other: "k' \<noteq> k \<Longrightarrow> find k' (register k f r) = find k' r"
  by (simp add: find_register)

lemma register_all:
  "distinct (map fst kfs) \<Longrightarrow> (k, f) \<in> set kfs \<Longrightarrow>
    find k (fold (\<lambda>(k, f). register k f) kfs r) = Some f"
proof (induction kfs arbitrary: r rule: rev_induct)
  case Nil
  then show ?case by simp
next
  case (snoc kf kfs)
  then show ?case by (cases kf) (force simp: find_register)
qed

end

section \<open>A message-preserving channel\<close>

text \<open>
  What \<open>muxconn\<close> relies on (its package comment): each \<open>Send\<close> produces exactly one \<open>OnData\<close> on
  the peer, in order. \<open>delivered\<close> is the list of messages the far end has been handed.
\<close>

locale message_channel =
  fixes send :: "bytes \<Rightarrow> 's \<Rightarrow> 's"
    and delivered :: "'s \<Rightarrow> bytes list"
    and wf :: "'s \<Rightarrow> bool"
    and ok :: "bytes \<Rightarrow> bool"
  assumes send_delivers: "wf s \<Longrightarrow> ok m \<Longrightarrow> delivered (send m s) = delivered s @ [m]"
    and send_wf: "wf s \<Longrightarrow> ok m \<Longrightarrow> wf (send m s)"
begin

lemma send_all:
  "wf s \<Longrightarrow> \<forall>m\<in>set ms. ok m \<Longrightarrow> delivered (fold send ms s) = delivered s @ ms"
  by (induction ms arbitrary: s) (simp_all add: send_delivers send_wf)

end

end
