(* ===== verification/Layers.thy ===== *)
theory Layers
  imports Interfaces
begin

text \<open>
  The layers between the tunnel and a provider, and the wiring between them: the interfaces
  \<open>provider.Provider\<close>, \<open>carrier.ByteStream\<close>, \<open>carrier.VideoTrack\<close>, \<open>transport.Transport\<close> and
  \<open>link.Link\<close> as records of operations over a state, the three registries, the adapters of
  \<open>carrier/builtin\<close>, the datachannel transport and the direct link.

  An operation that returns an \<open>error\<close> gives \<open>None\<close> for \<open>nil\<close>. A callback is a function on the
  world \<open>'u\<close> of the layer that installs it; \<open>'d\<close> is the data channel handed to a provider's
  reconnect callback, \<open>'t\<close> a local track, \<open>'h\<close> a track handler.
\<close>

type_synonym go_error = "string err"

text \<open>A sentinel is identified by its text: sentinels of different packages that share a text are
  one value here, which no \<open>errors.Is\<close> of the repository tells apart. \<open>Error\<close> is the text of an
  error.\<close>

primrec Error :: "go_error \<Rightarrow> string" where
  "Error (Base s) = s"
| "Error (Ctx c e) = c @ '': '' @ Error e"
| "Error (Detail e s) = Error e @ s"
| "Error (Join a b) = Error a @ '': '' @ Error b"

text \<open>The \<open>%v\<close> of a slice of strings.\<close>

definition fmt_strings :: "string list \<Rightarrow> string" where
  "fmt_strings xs =
     ''['' @ (case xs of [] \<Rightarrow> [] | x # ys \<Rightarrow> x @ concat (map (\<lambda>y. '' '' @ y) ys)) @ '']''"

definition wrap_err :: "string \<Rightarrow> go_error option \<Rightarrow> go_error option" where
  "wrap_err c e = map_option (Ctx c) e"

definition wrap_op :: "string \<Rightarrow> ('s \<Rightarrow> go_error option \<times> 's) \<Rightarrow> 's \<Rightarrow> go_error option \<times> 's" where
  "wrap_op c f s = (case f s of (e, s') \<Rightarrow> (wrap_err c e, s'))"

lemma wrap_op_simps [simp]:
  "fst (wrap_op c f s) = map_option (Ctx c) (fst (f s))" "snd (wrap_op c f s) = snd (f s)"
  by (simp_all add: wrap_op_def wrap_err_def split: prod.splits)

section \<open>Interfaces\<close>

record ('s, 't, 'h) video_capable =
  vc_AddVideoTrack :: "'t \<Rightarrow> 's \<Rightarrow> go_error option \<times> 's"
  vc_SetVideoTrackHandler :: "'h \<Rightarrow> 's \<Rightarrow> 's"

record ('s, 'u, 'd, 't, 'h) provider =
  p_Connect :: "'s \<Rightarrow> go_error option \<times> 's"
  p_Send :: "bytes \<Rightarrow> 's \<Rightarrow> go_error option \<times> 's"
  p_Close :: "'s \<Rightarrow> go_error option \<times> 's"
  p_SetReconnectCallback :: "('d \<Rightarrow> 'u \<Rightarrow> 'u) option \<Rightarrow> 's \<Rightarrow> 's"
  p_SetShouldReconnect :: "('u \<Rightarrow> bool) option \<Rightarrow> 's \<Rightarrow> 's"
  p_SetEndedCallback :: "(string \<Rightarrow> 'u \<Rightarrow> 'u) option \<Rightarrow> 's \<Rightarrow> 's"
  p_WatchConnection :: "'s \<Rightarrow> 's"
  p_CanSend :: "'s \<Rightarrow> bool"
  p_GetSendQueue :: "'s \<Rightarrow> bytes list"
  p_GetBufferedAmount :: "'s \<Rightarrow> u64"
  p_video :: "('s, 't, 'h) video_capable option"

record ('s, 'u) byte_stream =
  bs_Connect :: "'s \<Rightarrow> go_error option \<times> 's"
  bs_Send :: "bytes \<Rightarrow> 's \<Rightarrow> go_error option \<times> 's"
  bs_Close :: "'s \<Rightarrow> go_error option \<times> 's"
  bs_SetReconnectCallback :: "('u \<Rightarrow> 'u) option \<Rightarrow> 's \<Rightarrow> 's"
  bs_SetShouldReconnect :: "('u \<Rightarrow> bool) option \<Rightarrow> 's \<Rightarrow> 's"
  bs_SetEndedCallback :: "(string \<Rightarrow> 'u \<Rightarrow> 'u) option \<Rightarrow> 's \<Rightarrow> 's"
  bs_WatchConnection :: "'s \<Rightarrow> 's"
  bs_CanSend :: "'s \<Rightarrow> bool"

record ('s, 'u, 't, 'h) video_track =
  vt_Connect :: "'s \<Rightarrow> go_error option \<times> 's"
  vt_Close :: "'s \<Rightarrow> go_error option \<times> 's"
  vt_SetReconnectCallback :: "('u \<Rightarrow> 'u) option \<Rightarrow> 's \<Rightarrow> 's"
  vt_SetShouldReconnect :: "('u \<Rightarrow> bool) option \<Rightarrow> 's \<Rightarrow> 's"
  vt_SetEndedCallback :: "(string \<Rightarrow> 'u \<Rightarrow> 'u) option \<Rightarrow> 's \<Rightarrow> 's"
  vt_WatchConnection :: "'s \<Rightarrow> 's"
  vt_CanSend :: "'s \<Rightarrow> bool"
  vt_AddTrack :: "'t \<Rightarrow> 's \<Rightarrow> go_error option \<times> 's"
  vt_SetTrackHandler :: "'h \<Rightarrow> 's \<Rightarrow> 's"

record features =
  Reliable :: bool
  Ordered :: bool
  MessageOriented :: bool
  MaxPayloadSize :: int

record ('s, 'u) transport =
  tr_Connect :: "'s \<Rightarrow> go_error option \<times> 's"
  tr_Send :: "bytes \<Rightarrow> 's \<Rightarrow> go_error option \<times> 's"
  tr_Close :: "'s \<Rightarrow> go_error option \<times> 's"
  tr_SetReconnectCallback :: "('u \<Rightarrow> 'u) option \<Rightarrow> 's \<Rightarrow> 's"
  tr_SetShouldReconnect :: "('u \<Rightarrow> bool) option \<Rightarrow> 's \<Rightarrow> 's"
  tr_SetEndedCallback :: "(string \<Rightarrow> 'u \<Rightarrow> 'u) option \<Rightarrow> 's \<Rightarrow> 's"
  tr_WatchConnection :: "'s \<Rightarrow> 's"
  tr_CanSend :: "'s \<Rightarrow> bool"
  tr_Features :: "'s \<Rightarrow> features"

record ('s, 'u) link =
  ln_Connect :: "'s \<Rightarrow> go_error option \<times> 's"
  ln_Send :: "bytes \<Rightarrow> 's \<Rightarrow> go_error option \<times> 's"
  ln_Close :: "'s \<Rightarrow> go_error option \<times> 's"
  ln_SetReconnectCallback :: "('u \<Rightarrow> 'u) option \<Rightarrow> 's \<Rightarrow> 's"
  ln_SetShouldReconnect :: "('u \<Rightarrow> bool) option \<Rightarrow> 's \<Rightarrow> 's"
  ln_SetEndedCallback :: "(string \<Rightarrow> 'u \<Rightarrow> 'u) option \<Rightarrow> 's \<Rightarrow> 's"
  ln_WatchConnection :: "'s \<Rightarrow> 's"
  ln_CanSend :: "'s \<Rightarrow> bool"

section \<open>Configurations\<close>

record 'o carrier_config =
  cc_RoomURL :: string
  cc_Name :: string
  cc_OnData :: "'o option"
  cc_DNSServer :: string
  cc_ProxyAddr :: string
  cc_ProxyPort :: int

record 'o provider_config =
  pc_RoomURL :: string
  pc_Name :: string
  pc_OnData :: "'o option"
  pc_DNSServer :: string
  pc_ProxyAddr :: string
  pc_ProxyPort :: int

record 'o transport_config =
  tc_Carrier :: string
  tc_RoomURL :: string
  tc_ClientID :: string
  tc_Name :: string
  tc_OnData :: "'o option"
  tc_DNSServer :: string
  tc_ProxyAddr :: string
  tc_ProxyPort :: int
  tc_VideoWidth :: int
  tc_VideoHeight :: int
  tc_VideoFPS :: int
  tc_VideoBitrate :: string
  tc_VideoHW :: string
  tc_VideoQRSize :: int
  tc_VideoQRRecovery :: string
  tc_VideoCodec :: string
  tc_VideoTileModule :: int
  tc_VideoTileRS :: int
  tc_VP8FPS :: int
  tc_VP8BatchSize :: int
  tc_SEIFPS :: int
  tc_SEIBatchSize :: int
  tc_SEIFragmentSize :: int
  tc_SEIAckTimeoutMS :: int

record 'o link_config =
  lc_Transport :: string
  lc_Carrier :: string
  lc_RoomURL :: string
  lc_ClientID :: string
  lc_Name :: string
  lc_OnData :: "'o option"
  lc_DNSServer :: string
  lc_ProxyAddr :: string
  lc_ProxyPort :: int
  lc_VideoWidth :: int
  lc_VideoHeight :: int
  lc_VideoFPS :: int
  lc_VideoBitrate :: string
  lc_VideoHW :: string
  lc_VideoQRSize :: int
  lc_VideoQRRecovery :: string
  lc_VideoCodec :: string
  lc_VideoTileModule :: int
  lc_VideoTileRS :: int
  lc_VP8FPS :: int
  lc_VP8BatchSize :: int
  lc_SEIFPS :: int
  lc_SEIBatchSize :: int
  lc_SEIFragmentSize :: int
  lc_SEIAckTimeoutMS :: int

section \<open>Registries\<close>

definition ErrCarrierNotFound :: go_error where "ErrCarrierNotFound = Base ''carrier not found''"
definition ErrByteStreamUnsupported :: go_error where
  "ErrByteStreamUnsupported = Base ''carrier does not support byte stream''"
definition ErrCarrierVideoTrackUnsupported :: go_error where
  "ErrCarrierVideoTrackUnsupported = Base ''carrier does not support video tracks''"
definition ErrTransportNotFound :: go_error where "ErrTransportNotFound = Base ''transport not found''"
definition ErrLinkNotFound :: go_error where "ErrLinkNotFound = Base ''link not found''"

type_synonym ('c, 'x) factory = "'c \<Rightarrow> go_error + 'x"
type_synonym ('c, 'x) registry_map = "(string \<times> ('c, 'x) factory) list"

definition carrier_Register :: "string \<Rightarrow> ('c, 'x) factory \<Rightarrow> ('c, 'x) registry_map \<Rightarrow> ('c, 'x) registry_map" where
  "carrier_Register name factory reg = AList.update name factory reg"

definition carrier_New :: "('c, 'x) registry_map \<Rightarrow> string \<Rightarrow> 'c \<Rightarrow> go_error + 'x" where
  "carrier_New reg name cfg =
     (case map_of reg name of None \<Rightarrow> Inl ErrCarrierNotFound | Some factory \<Rightarrow> factory cfg)"

definition carrier_Available :: "('c, 'x) registry_map \<Rightarrow> string list" where
  "carrier_Available reg = map fst reg"

definition transport_Register :: "string \<Rightarrow> ('c, 'x) factory \<Rightarrow> ('c, 'x) registry_map \<Rightarrow> ('c, 'x) registry_map" where
  "transport_Register name factory reg = AList.update name factory reg"

definition transport_New :: "('c, 'x) registry_map \<Rightarrow> string \<Rightarrow> 'c \<Rightarrow> go_error + 'x" where
  "transport_New reg name cfg =
     (case map_of reg name of None \<Rightarrow> Inl ErrTransportNotFound | Some factory \<Rightarrow> factory cfg)"

definition transport_Available :: "('c, 'x) registry_map \<Rightarrow> string list" where
  "transport_Available reg = map fst reg"

definition link_Register :: "string \<Rightarrow> ('c, 'x) factory \<Rightarrow> ('c, 'x) registry_map \<Rightarrow> ('c, 'x) registry_map" where
  "link_Register name factory reg = AList.update name factory reg"

definition link_New :: "('c, 'x) registry_map \<Rightarrow> string \<Rightarrow> 'c \<Rightarrow> go_error + 'x" where
  "link_New reg name cfg =
     (case map_of reg name of None \<Rightarrow> Inl ErrLinkNotFound | Some factory \<Rightarrow> factory cfg)"

definition link_Available :: "('c, 'x) registry_map \<Rightarrow> string list" where
  "link_Available reg = map fst reg"

definition registry_wf :: "('c, 'x) registry_map \<Rightarrow> bool" where
  "registry_wf r \<longleftrightarrow> distinct (map fst r)"

lemma registry_laws:
  "registry (AList.update :: _ \<Rightarrow> _ \<Rightarrow> ('c, 'x) registry_map \<Rightarrow> _) (\<lambda>k r. map_of r k) (map fst) registry_wf"
  by unfold_locales
     (auto simp: registry_wf_def distinct_update map_of_eq_None_iff)

interpretation carriers: registry carrier_Register "\<lambda>k r. map_of r k" carrier_Available registry_wf
  using registry_laws by (simp add: carrier_Register_def [abs_def] carrier_Available_def [abs_def])

interpretation transports: registry transport_Register "\<lambda>k r. map_of r k" transport_Available registry_wf
  using registry_laws by (simp add: transport_Register_def [abs_def] transport_Available_def [abs_def])

interpretation links: registry link_Register "\<lambda>k r. map_of r k" link_Available registry_wf
  using registry_laws by (simp add: link_Register_def [abs_def] link_Available_def [abs_def])

section \<open>Carrier sessions over a provider\<close>

record capabilities =
  ByteStream :: bool
  VideoTrack :: bool

text \<open>A session; \<open>None\<close> for an interface the session does not implement.\<close>

record ('s, 'u, 't, 'h) carrier_session =
  cs_Capabilities :: capabilities
  cs_OpenByteStream :: "(go_error + ('s, 'u) byte_stream) option"
  cs_OpenVideoTrack :: "(go_error + ('s, 'u, 't, 'h) video_track) option"

text \<open>The adapted reconnect callback is installed whether or not \<open>cb\<close> is nil, and ignores the
  data channel.\<close>

definition adapt_reconnect :: "('u \<Rightarrow> 'u) option \<Rightarrow> ('d \<Rightarrow> 'u \<Rightarrow> 'u) option" where
  "adapt_reconnect cb = Some (\<lambda>_ u. case cb of None \<Rightarrow> u | Some f \<Rightarrow> f u)"

definition providerByteStream :: "('s, 'u, 'd, 't, 'h) provider \<Rightarrow> ('s, 'u) byte_stream" where
  "providerByteStream p =
     \<lparr>bs_Connect = wrap_op ''connect'' (p_Connect p),
      bs_Send = (\<lambda>data. wrap_op ''send'' (p_Send p data)),
      bs_Close = wrap_op ''close'' (p_Close p),
      bs_SetReconnectCallback = (\<lambda>cb. p_SetReconnectCallback p (adapt_reconnect cb)),
      bs_SetShouldReconnect = p_SetShouldReconnect p,
      bs_SetEndedCallback = p_SetEndedCallback p,
      bs_WatchConnection = p_WatchConnection p,
      bs_CanSend = p_CanSend p\<rparr>"

definition providerVideoTrack ::
    "('s, 'u, 'd, 't, 'h) provider \<Rightarrow> ('s, 't, 'h) video_capable \<Rightarrow> ('s, 'u, 't, 'h) video_track" where
  "providerVideoTrack p v =
     \<lparr>vt_Connect = wrap_op ''connect'' (p_Connect p),
      vt_Close = wrap_op ''close'' (p_Close p),
      vt_SetReconnectCallback = (\<lambda>cb. p_SetReconnectCallback p (adapt_reconnect cb)),
      vt_SetShouldReconnect = p_SetShouldReconnect p,
      vt_SetEndedCallback = p_SetEndedCallback p,
      vt_WatchConnection = p_WatchConnection p,
      vt_CanSend = p_CanSend p,
      vt_AddTrack = (\<lambda>track. wrap_op ''add track'' (vc_AddVideoTrack v track)),
      vt_SetTrackHandler = vc_SetVideoTrackHandler v\<rparr>"

definition Capabilities :: "('s, 'u, 'd, 't, 'h) provider \<Rightarrow> capabilities" where
  "Capabilities p = \<lparr>ByteStream = True, VideoTrack = (p_video p \<noteq> None)\<rparr>"

definition OpenByteStream :: "('s, 'u, 'd, 't, 'h) provider \<Rightarrow> go_error + ('s, 'u) byte_stream" where
  "OpenByteStream p = Inr (providerByteStream p)"

definition OpenVideoTrack ::
    "('s, 'u, 'd, 't, 'h) provider \<Rightarrow> go_error + ('s, 'u, 't, 'h) video_track" where
  "OpenVideoTrack p =
     (case p_video p of
        None \<Rightarrow> Inl ErrCarrierVideoTrackUnsupported
      | Some v \<Rightarrow> Inr (providerVideoTrack p v))"

definition providerSession :: "('s, 'u, 'd, 't, 'h) provider \<Rightarrow> ('s, 'u, 't, 'h) carrier_session" where
  "providerSession p =
     \<lparr>cs_Capabilities = Capabilities p,
      cs_OpenByteStream = Some (OpenByteStream p),
      cs_OpenVideoTrack = Some (OpenVideoTrack p)\<rparr>"

definition provider_config_of :: "'o carrier_config \<Rightarrow> 'o provider_config" where
  "provider_config_of cfg =
     \<lparr>pc_RoomURL = cc_RoomURL cfg, pc_Name = cc_Name cfg, pc_OnData = cc_OnData cfg,
      pc_DNSServer = cc_DNSServer cfg, pc_ProxyAddr = cc_ProxyAddr cfg,
      pc_ProxyPort = cc_ProxyPort cfg\<rparr>"

definition registerProvider ::
    "string \<Rightarrow> ('o provider_config \<Rightarrow> go_error + ('s, 'u, 'd, 't, 'h) provider) \<Rightarrow>
     ('o carrier_config, ('s, 'u, 't, 'h) carrier_session) registry_map \<Rightarrow>
     ('o carrier_config, ('s, 'u, 't, 'h) carrier_session) registry_map" where
  "registerProvider name factory =
     carrier_Register name
       (\<lambda>cfg. case factory (provider_config_of cfg) of
                Inl err \<Rightarrow> Inl err
              | Inr prov \<Rightarrow> Inr (providerSession prov))"

type_synonym ('o, 's, 'u, 'd, 't, 'h) provider_factory =
  "'o provider_config \<Rightarrow> go_error + ('s, 'u, 'd, 't, 'h) provider"

definition builtin_Register ::
    "('o, 's, 'u, 'd, 't, 'h) provider_factory \<Rightarrow> ('o, 's, 'u, 'd, 't, 'h) provider_factory \<Rightarrow>
     ('o, 's, 'u, 'd, 't, 'h) provider_factory \<Rightarrow>
     ('o carrier_config, ('s, 'u, 't, 'h) carrier_session) registry_map \<Rightarrow>
     ('o carrier_config, ('s, 'u, 't, 'h) carrier_session) registry_map" where
  "builtin_Register jazz telemost wbstream =
     registerProvider ''wbstream'' wbstream \<circ> registerProvider ''telemost'' telemost
     \<circ> registerProvider ''jazz'' jazz"

section \<open>Providers over their peers\<close>

text \<open>
  Each provider's \<open>provider.go\<close> builds its peer and delegates every method to it; the three types have
  the same methods with the same bodies. The peer's methods are given as the record of operations
  \<open>peer\<close>.
\<close>

definition peerProvider ::
    "('s, 'u, 'd, 't, 'h) provider \<Rightarrow> ('s, 't, 'h) video_capable \<Rightarrow> ('s, 'u, 'd, 't, 'h) provider" where
  "peerProvider peer v =
     \<lparr>p_Connect = (\<lambda>s. p_Connect peer s),
      p_Send = (\<lambda>data s. p_Send peer data s),
      p_Close = (\<lambda>s. p_Close peer s),
      p_SetReconnectCallback = (\<lambda>cb. p_SetReconnectCallback peer cb),
      p_SetShouldReconnect = (\<lambda>fn. p_SetShouldReconnect peer fn),
      p_SetEndedCallback = (\<lambda>cb. p_SetEndedCallback peer cb),
      p_WatchConnection = (\<lambda>s. p_WatchConnection peer s),
      p_CanSend = (\<lambda>s. p_CanSend peer s),
      p_GetSendQueue = (\<lambda>s. p_GetSendQueue peer s),
      p_GetBufferedAmount = (\<lambda>s. p_GetBufferedAmount peer s),
      p_video = Some \<lparr>vc_AddVideoTrack = (\<lambda>t. vc_AddVideoTrack v t),
                      vc_SetVideoTrackHandler = (\<lambda>h. vc_SetVideoTrackHandler v h)\<rparr>\<rparr>"

definition jazzProvider ::
    "('s, 'u, 'd, 't, 'h) provider \<Rightarrow> ('s, 't, 'h) video_capable \<Rightarrow> ('s, 'u, 'd, 't, 'h) provider" where
  "jazzProvider = peerProvider"

definition telemostProvider ::
    "('s, 'u, 'd, 't, 'h) provider \<Rightarrow> ('s, 't, 'h) video_capable \<Rightarrow> ('s, 'u, 'd, 't, 'h) provider" where
  "telemostProvider = peerProvider"

definition wbStreamProvider ::
    "('s, 'u, 'd, 't, 'h) provider \<Rightarrow> ('s, 't, 'h) video_capable \<Rightarrow> ('s, 'u, 'd, 't, 'h) provider" where
  "wbStreamProvider = peerProvider"

type_synonym ('o, 's, 'u, 'd, 't, 'h) new_peer =
  "string \<Rightarrow> string \<Rightarrow> 'o option \<Rightarrow>
   go_error + ('s, 'u, 'd, 't, 'h) provider \<times> ('s, 't, 'h) video_capable"

definition jazz_New ::
    "('o, 's, 'u, 'd, 't, 'h) new_peer \<Rightarrow> 'o provider_config \<Rightarrow> go_error + ('s, 'u, 'd, 't, 'h) provider" where
  "jazz_New newPeer cfg =
     (case newPeer (pc_RoomURL cfg) (pc_Name cfg) (pc_OnData cfg) of
        Inl err \<Rightarrow> Inl (Ctx ''create jazz peer'' err)
      | Inr (peer, v) \<Rightarrow> Inr (jazzProvider peer v))"

definition telemost_New ::
    "('o, 's, 'u, 'd, 't, 'h) new_peer \<Rightarrow> 'o provider_config \<Rightarrow> go_error + ('s, 'u, 'd, 't, 'h) provider" where
  "telemost_New newPeer cfg =
     (case newPeer (pc_RoomURL cfg) (pc_Name cfg) (pc_OnData cfg) of
        Inl err \<Rightarrow> Inl (Ctx ''create telemost peer'' err)
      | Inr (peer, v) \<Rightarrow> Inr (telemostProvider peer v))"

definition wbstream_New ::
    "('o, 's, 'u, 'd, 't, 'h) new_peer \<Rightarrow> 'o provider_config \<Rightarrow> go_error + ('s, 'u, 'd, 't, 'h) provider" where
  "wbstream_New newPeer cfg =
     (case newPeer (pc_RoomURL cfg) (pc_Name cfg) (pc_OnData cfg) of
        Inl err \<Rightarrow> Inl (Ctx ''create wbstream peer'' err)
      | Inr (peer, v) \<Rightarrow> Inr (wbStreamProvider peer v))"

end
