(* ===== verification/Stack.thy ===== *)
theory Stack
  imports Layers
begin

text \<open>
  The datachannel transport (\<open>transport/datachannel\<close>) and the direct link (\<open>link/direct\<close>) on
  top of a carrier session, and the registration of the built-in components
  (\<open>session.RegisterDefaults\<close>). The lemmas show that the three wrapping layers change neither
  the provider's state nor the root of its errors, and that a link built through the default
  registries hands every configuration field to the provider.
\<close>

section \<open>datachannel\<close>

definition carrier_config_of :: "'o transport_config \<Rightarrow> 'o carrier_config" where
  "carrier_config_of cfg =
     \<lparr>cc_RoomURL = tc_RoomURL cfg, cc_Name = tc_Name cfg, cc_OnData = tc_OnData cfg,
      cc_DNSServer = tc_DNSServer cfg, cc_ProxyAddr = tc_ProxyAddr cfg,
      cc_ProxyPort = tc_ProxyPort cfg\<rparr>"

definition defaultMaxPayloadSize :: int where "defaultMaxPayloadSize = 12 * 1024"

definition streamTransport :: "('s, 'u) byte_stream \<Rightarrow> ('s, 'u) transport" where
  "streamTransport p =
     \<lparr>tr_Connect = wrap_op ''stream connect'' (bs_Connect p),
      tr_Send = (\<lambda>data. wrap_op ''stream send'' (bs_Send p data)),
      tr_Close = wrap_op ''stream close'' (bs_Close p),
      tr_SetReconnectCallback = bs_SetReconnectCallback p,
      tr_SetShouldReconnect = bs_SetShouldReconnect p,
      tr_SetEndedCallback = bs_SetEndedCallback p,
      tr_WatchConnection = bs_WatchConnection p,
      tr_CanSend = bs_CanSend p,
      tr_Features = (\<lambda>_. \<lparr>Reliable = True, Ordered = True, MessageOriented = True,
                          MaxPayloadSize = defaultMaxPayloadSize\<rparr>)\<rparr>"

definition datachannel_New ::
    "('o carrier_config, ('s, 'u, 't, 'h) carrier_session) registry_map \<Rightarrow>
     'o transport_config \<Rightarrow> go_error + ('s, 'u) transport" where
  "datachannel_New carrier_reg cfg =
     (case carrier_New carrier_reg (tc_Carrier cfg) (carrier_config_of cfg) of
        Inl err \<Rightarrow> Inl (Ctx ''create carrier transport'' err)
      | Inr session \<Rightarrow>
          (case cs_OpenByteStream session of
             None \<Rightarrow> Inl ErrByteStreamUnsupported
           | Some (Inl err) \<Rightarrow> Inl (Ctx ''open byte stream'' err)
           | Some (Inr stream) \<Rightarrow> Inr (streamTransport stream)))"

section \<open>The direct link\<close>

definition transport_config_of :: "'o link_config \<Rightarrow> 'o transport_config" where
  "transport_config_of cfg =
     \<lparr>tc_Carrier = lc_Carrier cfg, tc_RoomURL = lc_RoomURL cfg, tc_ClientID = lc_ClientID cfg,
      tc_Name = lc_Name cfg, tc_OnData = lc_OnData cfg, tc_DNSServer = lc_DNSServer cfg,
      tc_ProxyAddr = lc_ProxyAddr cfg, tc_ProxyPort = lc_ProxyPort cfg,
      tc_VideoWidth = lc_VideoWidth cfg, tc_VideoHeight = lc_VideoHeight cfg,
      tc_VideoFPS = lc_VideoFPS cfg, tc_VideoBitrate = lc_VideoBitrate cfg,
      tc_VideoHW = lc_VideoHW cfg, tc_VideoQRSize = lc_VideoQRSize cfg,
      tc_VideoQRRecovery = lc_VideoQRRecovery cfg, tc_VideoCodec = lc_VideoCodec cfg,
      tc_VideoTileModule = lc_VideoTileModule cfg, tc_VideoTileRS = lc_VideoTileRS cfg,
      tc_VP8FPS = lc_VP8FPS cfg, tc_VP8BatchSize = lc_VP8BatchSize cfg,
      tc_SEIFPS = lc_SEIFPS cfg, tc_SEIBatchSize = lc_SEIBatchSize cfg,
      tc_SEIFragmentSize = lc_SEIFragmentSize cfg, tc_SEIAckTimeoutMS = lc_SEIAckTimeoutMS cfg\<rparr>"

definition directLink :: "('s, 'u) transport \<Rightarrow> ('s, 'u) link" where
  "directLink d =
     \<lparr>ln_Connect = wrap_op ''transport connect'' (tr_Connect d),
      ln_Send = (\<lambda>data. wrap_op ''transport send'' (tr_Send d data)),
      ln_Close = wrap_op ''transport close'' (tr_Close d),
      ln_SetReconnectCallback = tr_SetReconnectCallback d,
      ln_SetShouldReconnect = tr_SetShouldReconnect d,
      ln_SetEndedCallback = tr_SetEndedCallback d,
      ln_WatchConnection = tr_WatchConnection d,
      ln_CanSend = tr_CanSend d\<rparr>"

definition direct_New ::
    "('o transport_config, ('s, 'u) transport) registry_map \<Rightarrow>
     'o link_config \<Rightarrow> go_error + ('s, 'u) link" where
  "direct_New transport_reg cfg =
     (case transport_New transport_reg (lc_Transport cfg) (transport_config_of cfg) of
        Inl err \<Rightarrow> Inl (Ctx ''create transport for direct link'' err)
      | Inr tr \<Rightarrow> Inr (directLink tr))"

section \<open>RegisterDefaults\<close>

text \<open>
  The registries are package variables, so a factory looks its lower layer up in the registry
  of the moment it runs: the whole record of registries \<open>r\<close> is an argument of the factories.
  The three video transports are given, as their states differ.
\<close>

record ('o, 's, 'u, 't, 'h) registries =
  carrier_registry :: "('o carrier_config, ('s, 'u, 't, 'h) carrier_session) registry_map"
  transport_registry :: "('o transport_config, ('s, 'u) transport) registry_map"
  link_registry :: "('o link_config, ('s, 'u) link) registry_map"

definition RegisterDefaults where
  "RegisterDefaults jazz telemost wbstream videochannel seichannel vp8channel r =
    (let c = builtin_Register jazz telemost wbstream (carrier_registry r);
         t = (transport_Register ''vp8channel'' vp8channel
              \<circ> transport_Register ''seichannel'' seichannel
              \<circ> transport_Register ''videochannel'' videochannel
              \<circ> transport_Register ''datachannel'' (datachannel_New c)) (transport_registry r);
         l = link_Register ''direct'' (direct_New t) (link_registry r)
     in \<lparr>carrier_registry = c, transport_registry = t, link_registry = l\<rparr>)"

section \<open>Lemmas\<close>

lemmas stack_defs =
  directLink_def streamTransport_def providerByteStream_def adapt_reconnect_def

lemmas config_defs =
  transport_config_of_def carrier_config_of_def provider_config_of_def

definition provider_stack :: "('s, 'u, 'd, 't, 'h) provider \<Rightarrow> ('s, 'u) link" where
  "provider_stack p = directLink (streamTransport (providerByteStream p))"

definition stack_error :: "string \<Rightarrow> go_error option \<Rightarrow> go_error option" where
  "stack_error op e =
     map_option (\<lambda>e. Ctx (''transport '' @ op) (Ctx (''stream '' @ op) (Ctx op e))) e"

lemma stack_error_None [simp]: "stack_error op e = None \<longleftrightarrow> e = None"
  by (simp add: stack_error_def)

lemma stack_error_root:
  "map_option err_root (stack_error op e) = map_option err_root e"
  by (cases e) (simp_all add: stack_error_def)

lemma stack_Connect:
  "ln_Connect (provider_stack p) s =
     (stack_error ''connect'' (fst (p_Connect p s)), snd (p_Connect p s))"
  by (cases "p_Connect p s")
     (simp add: provider_stack_def stack_defs stack_error_def wrap_op_def wrap_err_def
        option.map_comp comp_def)

lemma stack_Send:
  "ln_Send (provider_stack p) data s =
     (stack_error ''send'' (fst (p_Send p data s)), snd (p_Send p data s))"
  by (cases "p_Send p data s")
     (simp add: provider_stack_def stack_defs stack_error_def wrap_op_def wrap_err_def
        option.map_comp comp_def)

lemma stack_Close:
  "ln_Close (provider_stack p) s =
     (stack_error ''close'' (fst (p_Close p s)), snd (p_Close p s))"
  by (cases "p_Close p s")
     (simp add: provider_stack_def stack_defs stack_error_def wrap_op_def wrap_err_def
        option.map_comp comp_def)

lemma registerProvider_lookup [simp]:
  "map_of (registerProvider name factory r) name' =
     (if name' = name
      then Some (\<lambda>cfg. case factory (provider_config_of cfg) of
                         Inl err \<Rightarrow> Inl err | Inr prov \<Rightarrow> Inr (providerSession prov))
      else map_of r name')"
  by (simp add: registerProvider_def carrier_Register_def)

lemma default_carrier:
  "map_of (carrier_registry (RegisterDefaults jazz telemost wbstream vc sc vp r)) name =
    map_of (builtin_Register jazz telemost wbstream (carrier_registry r)) name"
  by (simp add: RegisterDefaults_def Let_def)

lemma default_transport:
  "map_of (transport_registry (RegisterDefaults jazz telemost wbstream vc sc vp r)) name =
    (if name = ''vp8channel'' then Some vp
     else if name = ''seichannel'' then Some sc
     else if name = ''videochannel'' then Some vc
     else if name = ''datachannel''
       then Some (datachannel_New (carrier_registry (RegisterDefaults jazz telemost wbstream vc sc vp r)))
     else map_of (transport_registry r) name)"
  by (simp only: RegisterDefaults_def transport_Register_def Let_def o_apply registries.simps
      map_of_AList_update)

lemma default_link:
  "map_of (link_registry (RegisterDefaults jazz telemost wbstream vc sc vp r)) name =
    (if name = ''direct''
       then Some (direct_New (transport_registry (RegisterDefaults jazz telemost wbstream vc sc vp r)))
     else map_of (link_registry r) name)"
  by (simp only: RegisterDefaults_def link_Register_def Let_def o_apply registries.simps
      map_of_AList_update)

lemma builtin_lookup:
  "map_of (builtin_Register jazz telemost wbstream r) name =
     map_of (if name = ''wbstream'' then registerProvider ''wbstream'' wbstream r
             else if name = ''telemost'' then registerProvider ''telemost'' telemost r
             else if name = ''jazz'' then registerProvider ''jazz'' jazz r
             else r) name"
  by (simp add: builtin_Register_def)

section \<open>Properties\<close>

text \<open>C27: a direct link over the datachannel transport over a provider adds nothing but
  context: \<open>Connect\<close>, \<open>Send\<close> and \<open>Close\<close> act on the provider's state exactly as the provider
  does, return nil exactly when it does, and an error keeps the sentinel \<open>errors.Is\<close> looks for;
  \<open>CanSend\<close> is the provider's, and a reconnect callback is always installed, ignores the data
  channel and runs the link's callback when there is one.\<close>

theorem stack_transparent:
  "snd (ln_Connect (provider_stack p) s) = snd (p_Connect p s)
     \<and> map_option err_root (fst (ln_Connect (provider_stack p) s)) = map_option err_root (fst (p_Connect p s))
     \<and> snd (ln_Send (provider_stack p) data s) = snd (p_Send p data s)
     \<and> map_option err_root (fst (ln_Send (provider_stack p) data s)) = map_option err_root (fst (p_Send p data s))
     \<and> snd (ln_Close (provider_stack p) s) = snd (p_Close p s)
     \<and> map_option err_root (fst (ln_Close (provider_stack p) s)) = map_option err_root (fst (p_Close p s))
     \<and> ln_CanSend (provider_stack p) s = p_CanSend p s
     \<and> ln_SetReconnectCallback (provider_stack p) cb s
         = p_SetReconnectCallback p (Some (\<lambda>_ u. case cb of None \<Rightarrow> u | Some f \<Rightarrow> f u)) s"
  unfolding stack_Connect stack_Send stack_Close
  by (simp_all add: stack_error_root) (simp add: provider_stack_def stack_defs)

end
