(* ===== verification/Go_Std.thy ===== *)
theory Go_Std
  imports Prelude
begin

text \<open>
  The parts of Go's standard library that the sources compute with, written out:
  \<open>hash/crc32\<close> (IEEE), \<open>hash/fnv\<close> (32-bit FNV-1a), the varints of \<open>encoding/binary\<close>,
  \<open>encoding/hex\<close>, \<open>io.ReadFull\<close> over a byte source, \<open>strconv.Itoa\<close>, \<open>net.JoinHostPort\<close>,
  the dotted form of an IPv4 address, and the \<open>strings\<close> functions in use.
\<close>

section \<open>hash/crc32 and hash/fnv\<close>

definition crc32_bit :: "u32 \<Rightarrow> u32" where
  "crc32_bit c = (if bit c 0 then drop_bit 1 c XOR 0xEDB88320 else drop_bit 1 c)"

definition crc32_table :: "byte \<Rightarrow> u32" where
  "crc32_table b = (crc32_bit ^^ 8) (ucast b)"

definition crc32_update :: "u32 \<Rightarrow> bytes \<Rightarrow> u32" where
  "crc32_update c p = NOT (fold (\<lambda>v c. crc32_table (ucast c XOR v) XOR drop_bit 8 c) p (NOT c))"

definition ChecksumIEEE :: "bytes \<Rightarrow> u32" where
  "ChecksumIEEE p = crc32_update 0 p"

definition fnv32a :: "bytes \<Rightarrow> u32" where
  "fnv32a p = fold (\<lambda>c h. (h XOR ucast c) * 16777619) p 2166136261"

section \<open>encoding/binary varints\<close>

text \<open>\<open>PutUvarint\<close>: seven bits at a time, low group first, high bit set on all but the last.\<close>

lemma drop7_less: "0x80 \<le> (x :: u64) \<Longrightarrow> unat (drop_bit 7 x) < unat x"
  by (simp only: unat_drop_bit_eq word_le_nat_alt) (simp add: drop_bit_eq_div)

function PutUvarint :: "u64 \<Rightarrow> bytes" where
  "PutUvarint x = (if 0x80 \<le> x then (ucast x OR 0x80) # PutUvarint (drop_bit 7 x) else [ucast x])"
  by pat_completeness auto
termination
  by (relation "measure unat") (simp_all add: drop7_less)

declare PutUvarint.simps [simp del]

text \<open>\<open>ReadUvarint\<close> over the unread bytes: the value and the rest, or the rest alone when the
  input ends or the varint overflows 64 bits. \<open>i\<close> counts the bytes read, at most ten.\<close>

fun ReadUvarint_loop :: "nat \<Rightarrow> u64 \<Rightarrow> bytes \<Rightarrow> (u64 option \<times> bytes)" where
  "ReadUvarint_loop i x [] = (None, [])"
| "ReadUvarint_loop i x (b # r) =
     (if b < 0x80
      then (if i = 9 \<and> 1 < b then (None, r)
            else (Some (x OR push_bit (7 * i) (ucast b)), r))
      else if i = 9 then (None, r)
      else ReadUvarint_loop (Suc i) (x OR push_bit (7 * i) (ucast (b AND 0x7f))) r)"

definition ReadUvarint :: "bytes \<Rightarrow> (u64 option \<times> bytes)" where
  "ReadUvarint r = ReadUvarint_loop 0 0 r"

lemma ReadUvarint_loop_shorter:
  "ReadUvarint_loop i x r = (v, r') \<Longrightarrow> length r' \<le> length r \<and> (r \<noteq> [] \<longrightarrow> length r' < length r)"
  by (induction i x r rule: ReadUvarint_loop.induct)
     (fastforce split: if_splits)+

lemma ReadUvarint_Some_shorter: "ReadUvarint r = (Some v, r') \<Longrightarrow> length r' < length r"
  using ReadUvarint_loop_shorter [of 0 0 r "Some v" r'] by (cases r) (auto simp: ReadUvarint_def)

lemma ReadUvarint_le: "ReadUvarint r = (v, r') \<Longrightarrow> length r' \<le> length r"
  using ReadUvarint_loop_shorter by (auto simp: ReadUvarint_def)

lemma ReadUvarint_suffix_aux:
  "ReadUvarint_loop i x r = (v, r') \<Longrightarrow> \<exists>p. r = p @ r'"
  by (induction i x r rule: ReadUvarint_loop.induct) (fastforce split: if_splits)+

lemma ReadUvarint_suffix: "ReadUvarint r = (v, r') \<Longrightarrow> \<exists>p. r = p @ r'"
  using ReadUvarint_suffix_aux by (simp add: ReadUvarint_def)

lemma ucast_OR_128:
  "\<not> (ucast (x :: u64) OR 0x80 :: byte) < 0x80" "(ucast x OR 0x80 :: byte) AND 0x7f = ucast x AND 0x7f"
proof -
  have "bit (ucast x OR 0x80 :: byte) 7" by (simp add: bit_simps)
  then have "push_bit 7 (1 :: byte) AND (ucast x OR 0x80) = push_bit 7 1"
    by (auto intro!: bit_word_eqI simp: bit_simps)
  moreover have "push_bit 7 (1 :: byte) = 0x80" by simp
  ultimately show "\<not> (ucast x OR 0x80 :: byte) < 0x80"
    by (metis leD word_and_le1)
  have e: "(0x80 :: byte) AND 0x7f = 0" by simp
  show "(ucast x OR 0x80 :: byte) AND 0x7f = ucast x AND 0x7f"
    by (simp only: word_ao_dist e) simp
qed

lemma mask7: "(0x7f :: byte) = mask 7" "(0x7f :: u64) = mask 7"
  by (simp_all add: mask_eq_exp_minus_1)

lemma and7: "(b :: byte) AND 0x7f = take_bit 7 b"
  by (simp only: mask7 take_bit_eq_mask)

lemma split7: "x = ucast (ucast x AND 0x7f :: byte) OR push_bit 7 (drop_bit 7 (x :: u64))"
proof (rule bit_word_eqI)
  fix n assume n: "n < LENGTH(64)"
  show "bit x n = bit (ucast (ucast x AND 0x7f :: byte) OR push_bit 7 (drop_bit 7 x)) n"
    unfolding and7 using n by (cases "n < 7") (auto simp: bit_simps)
qed

text \<open>The varint round trip, with the accumulator \<open>acc\<close> of the groups already read.\<close>

lemma ReadUvarint_loop_Put:
  assumes "unat x < 2 ^ (64 - 7 * i)" and "i \<le> 9"
  shows "ReadUvarint_loop i acc (PutUvarint x @ r) = (Some (acc OR push_bit (7 * i) x), r)"
  using assms
proof (induction x arbitrary: i acc rule: PutUvarint.induct)
  case (1 x)
  show ?case
  proof (cases "0x80 \<le> x")
    case True
    have i: "i < 9"
    proof (rule ccontr)
      assume "\<not> i < 9"
      with "1.prems" have "unat x < 2" by simp
      with True show False by (simp add: word_le_nat_alt)
    qed
    have "64 - 7 * i = (64 - 7 * Suc i) + 7" using i by simp
    then have "(2 :: nat) ^ (64 - 7 * i) = 2 ^ (64 - 7 * Suc i) * 128"
      by (simp only: power_add) simp
    then have "unat (drop_bit 7 x) < 2 ^ (64 - 7 * Suc i)"
      using "1.prems"(1) by (simp only: unat_drop_bit_eq) (simp add: drop_bit_eq_div less_mult_imp_div_less)
    from "1.IH" [OF True this, of "acc OR push_bit (7 * i) (ucast (ucast x AND 0x7f :: byte))"] i
    have "ReadUvarint_loop (Suc i) (acc OR push_bit (7 * i) (ucast (ucast x AND 0x7f :: byte)))
        (PutUvarint (drop_bit 7 x) @ r)
      = (Some (acc OR push_bit (7 * i) (ucast (ucast x AND 0x7f :: byte) OR push_bit 7 (drop_bit 7 x))), r)"
      by (simp add: push_bit_or add.commute or.assoc)
    then show ?thesis
      using True i ucast_OR_128 [of x] split7 [of x] by (simp add: PutUvarint.simps [of x])
  next
    case False
    then have b: "unat x < 128" by (simp add: word_le_nat_alt)
    then have u: "unat (ucast x :: byte) = unat x"
      by (simp only: unsigned_ucast_eq unsigned_take_bit_eq) (simp add: take_bit_nat_eq_self)
    then have lt: "(ucast x :: byte) < 0x80" using b by (simp add: word_less_nat_alt)
    have uu: "ucast (ucast x :: byte) = x"
      by (rule word_unat_eq_iff [THEN iffD2]) (simp only: unsigned_ucast_eq unsigned_take_bit_eq u, use b in \<open>simp add: take_bit_nat_eq_self\<close>)
    have "\<not> (i = 9 \<and> 1 < (ucast x :: byte))"
      using "1.prems"(1) u by (auto simp: word_less_nat_alt)
    with False lt uu show ?thesis
      by (auto simp: PutUvarint.simps [of x])
  qed
qed

lemma ReadUvarint_PutUvarint [simp]: "ReadUvarint (PutUvarint x @ r) = (Some x, r)"
  using ReadUvarint_loop_Put [of x 0 0 r] unsigned_less [of x] by (simp add: ReadUvarint_def)

lemma PutUvarint_nonempty [simp]: "PutUvarint x \<noteq> []"
  by (subst PutUvarint.simps) simp

section \<open>Decimal text\<close>

text \<open>\<open>strconv.Itoa\<close>, and the \<open>%d\<close> verb.\<close>

fun dec_digits :: "nat \<Rightarrow> string" where
  "dec_digits n =
     (if n < 10 then [char_of (48 + n)] else dec_digits (n div 10) @ [char_of (48 + n mod 10)])"

declare dec_digits.simps [simp del]

definition Itoa :: "int \<Rightarrow> string" where
  "Itoa i = (if i < 0 then ''-'' @ dec_digits (nat (- i)) else dec_digits (nat i))"

definition is_digit :: "char \<Rightarrow> bool" where
  "is_digit c \<longleftrightarrow> 48 \<le> (of_char c :: nat) \<and> (of_char c :: nat) \<le> 57"

definition dec_value :: "string \<Rightarrow> nat" where
  "dec_value s = foldl (\<lambda>a c. 10 * a + (of_char c - 48)) 0 s"

lemma dec_value_append: "dec_value (s @ [c]) = 10 * dec_value s + (of_char c - 48)"
  by (simp add: dec_value_def)

lemma dec_value_digits [simp]: "dec_value (dec_digits n) = n"
proof (induction n rule: dec_digits.induct)
  case (1 n)
  show ?case
  proof (cases "n < 10")
    case True
    then show ?thesis by (simp add: dec_digits.simps [of n] dec_value_def)
  next
    case False
    with 1 show ?thesis
      by (simp add: dec_digits.simps [of n] dec_value_append)
  qed
qed

lemma dec_digits_nonempty [simp]: "dec_digits n \<noteq> []"
  by (subst dec_digits.simps) simp

lemma dec_digits_digit: "c \<in> set (dec_digits n) \<Longrightarrow> is_digit c"
proof (induction n rule: dec_digits.induct)
  case (1 n)
  have "n < 10 \<or> \<not> n < 10" by blast
  with 1 show ?case
    by (auto simp: dec_digits.simps [of n] is_digit_def split: if_splits)
qed

lemma dec_digits_inject: "dec_digits m = dec_digits n \<longleftrightarrow> m = n"
  by (metis dec_value_digits)

section \<open>Package strings\<close>

text \<open>On the ASCII range; the sources use these functions on identifiers, addresses and
  protocol words.\<close>

definition char_lower :: "char \<Rightarrow> char" where
  "char_lower c = (let n = of_char c :: nat in if 65 \<le> n \<and> n \<le> 90 then char_of (n + 32) else c)"

definition ToLower :: "string \<Rightarrow> string" where
  "ToLower s = map char_lower s"

definition HasPrefix :: "string \<Rightarrow> string \<Rightarrow> bool" where
  "HasPrefix s pre \<longleftrightarrow> take (length pre) s = pre"

definition HasSuffix :: "string \<Rightarrow> string \<Rightarrow> bool" where
  "HasSuffix s suf \<longleftrightarrow> length suf \<le> length s \<and> drop (length s - length suf) s = suf"

definition TrimPrefix :: "string \<Rightarrow> string \<Rightarrow> string" where
  "TrimPrefix s pre = (if HasPrefix s pre then drop (length pre) s else s)"

fun Contains :: "string \<Rightarrow> string \<Rightarrow> bool" where
  "Contains [] sub \<longleftrightarrow> sub = []"
| "Contains (c # s) sub \<longleftrightarrow> HasPrefix (c # s) sub \<or> Contains s sub"

definition is_space :: "char \<Rightarrow> bool" where
  "is_space c \<longleftrightarrow> (of_char c :: nat) \<in> {9, 10, 11, 12, 13, 32}"

definition TrimSpace :: "string \<Rightarrow> string" where
  "TrimSpace s = rev (dropWhile is_space (rev (dropWhile is_space s)))"

definition EqualFold :: "string \<Rightarrow> string \<Rightarrow> bool" where
  "EqualFold s t \<longleftrightarrow> ToLower s = ToLower t"

lemma HasPrefix_append [simp]: "HasPrefix (pre @ s) pre"
  by (simp add: HasPrefix_def)

lemma TrimPrefix_append [simp]: "TrimPrefix (pre @ s) pre = s"
  by (simp add: TrimPrefix_def)

lemma char_lower_idem [simp]: "char_lower (char_lower c) = char_lower c"
  by (simp add: char_lower_def Let_def)

lemma ToLower_idem [simp]: "ToLower (ToLower s) = ToLower s"
  by (simp add: ToLower_def)

lemma dropWhile_hd: "dropWhile P xs \<noteq> [] \<Longrightarrow> \<not> P (hd (dropWhile P xs))"
  by (rule hd_dropWhile)

lemma TrimSpace_ends:
  "TrimSpace s \<noteq> [] \<Longrightarrow> \<not> is_space (hd (TrimSpace s)) \<and> \<not> is_space (last (TrimSpace s))"
proof -
  assume ne: "TrimSpace s \<noteq> []"
  let ?l = "dropWhile is_space s"
  have l: "?l \<noteq> []" using ne unfolding TrimSpace_def by (metis dropWhile.simps(1) rev.simps(1))
  obtain pre where pre: "?l = TrimSpace s @ pre"
    using takeWhile_dropWhile_id [of is_space "rev ?l"] unfolding TrimSpace_def
    by (metis rev_append rev_rev_ident)
  have "hd (TrimSpace s) = hd ?l" using ne by (simp add: pre)
  moreover have "last (TrimSpace s) = hd (dropWhile is_space (rev ?l))"
    using ne by (simp add: TrimSpace_def last_rev)
  moreover have "dropWhile is_space (rev ?l) \<noteq> []" using ne by (simp add: TrimSpace_def)
  ultimately show ?thesis using hd_dropWhile l by metis
qed

section \<open>Package encoding/hex\<close>

definition hex_val :: "char \<Rightarrow> nat option" where
  "hex_val c = (let n = of_char c :: nat in
     if 48 \<le> n \<and> n \<le> 57 then Some (n - 48)
     else if 97 \<le> n \<and> n \<le> 102 then Some (n - 87)
     else if 65 \<le> n \<and> n \<le> 70 then Some (n - 55)
     else None)"

datatype hex_error = InvalidByteError char | ErrLength

fun hex_DecodeString :: "string \<Rightarrow> hex_error + bytes" where
  "hex_DecodeString [] = Inr []"
| "hex_DecodeString [a] = Inl (case hex_val a of None \<Rightarrow> InvalidByteError a | Some _ \<Rightarrow> ErrLength)"
| "hex_DecodeString (a # b # s) =
     (case hex_val a of
        None \<Rightarrow> Inl (InvalidByteError a)
      | Some x \<Rightarrow>
          (case hex_val b of
             None \<Rightarrow> Inl (InvalidByteError b)
           | Some y \<Rightarrow>
               (case hex_DecodeString s of
                  Inl e \<Rightarrow> Inl e
                | Inr bs \<Rightarrow> Inr (word_of_nat (16 * x + y) # bs))))"

definition hex_digit :: "nat \<Rightarrow> char" where
  "hex_digit n = (if n < 10 then char_of (48 + n) else char_of (87 + n))"

definition hex_EncodeToString :: "bytes \<Rightarrow> string" where
  "hex_EncodeToString bs = concat (map (\<lambda>b. [hex_digit (unat b div 16), hex_digit (unat b mod 16)]) bs)"

lemma hex_val_digit [simp]: "n < 16 \<Longrightarrow> hex_val (hex_digit n) = Some n"
  by (auto simp: hex_val_def hex_digit_def Let_def)

lemma hex_decode_encode [simp]: "hex_DecodeString (hex_EncodeToString bs) = Inr bs"
proof (induction bs)
  case Nil
  then show ?case by (simp add: hex_EncodeToString_def)
next
  case (Cons b bs)
  have "unat b < 256" using unsigned_less [of b] by simp
  then have "unat b div 16 < 16" "unat b mod 16 < 16" by auto
  moreover have "word_of_nat (16 * (unat b div 16) + unat b mod 16) = b"
    by (simp only: mult_div_mod_eq) simp
  ultimately show ?case using Cons by (simp add: hex_EncodeToString_def)
qed

lemma hex_decode_length: "hex_DecodeString s = Inr bs \<Longrightarrow> length s = 2 * length bs"
  by (induction s arbitrary: bs rule: hex_DecodeString.induct) (auto split: option.splits sum.splits)

section \<open>Integers and durations\<close>

text \<open>Go's \<open>int\<close> has 64 bits and wraps; a \<open>time.Duration\<close> is one, in nanoseconds.\<close>

definition wrap64 :: "int \<Rightarrow> int" where
  "wrap64 i = sint (word_of_int i :: 64 word)"

lemma wrap64_id: "- (2 ^ 63) \<le> i \<Longrightarrow> i < 2 ^ 63 \<Longrightarrow> wrap64 i = i"
  by (simp add: wrap64_def sint_sbintrunc' signed_take_bit_int_eq_self)

definition millisecond :: int where "millisecond = 1000000"
definition second :: int where "second = 1000000000"

end
