(* ===== verification/Session.thy ===== *)
theory Session
  imports Stack Go_Std
begin

text \<open>
  \<open>internal/app/session\<close>: the runtime configuration, its validation against the registries,
  the dispatch to the server or the client, and room generation with retries. The lemmas
  characterise exactly the configurations \<open>Validate\<close> accepts, and the retry loop by the number
  of calls it makes.

  The media settings shared by the session, server and client parameter lists
  are a record of their own, which the session's configuration extends.
\<close>

section \<open>Configuration\<close>

record media =
  VideoWidth :: int
  VideoHeight :: int
  VideoFPS :: int
  VideoBitrate :: string
  VideoHW :: string
  VideoQRSize :: int
  VideoQRRecovery :: string
  VideoCodec :: string
  VideoTileModule :: int
  VideoTileRS :: int
  VP8FPS :: int
  VP8BatchSize :: int
  SEIFPS :: int
  SEIBatchSize :: int
  SEIFragmentSize :: int
  SEIAckTimeoutMS :: int

record session_config = media +
  s_Mode :: string
  s_Link :: string
  s_Transport :: string
  s_Carrier :: string
  s_RoomID :: string
  s_ClientID :: string
  s_KeyHex :: string
  s_SOCKSHost :: string
  s_SOCKSPort :: int
  s_SOCKSUser :: string
  s_SOCKSPass :: string
  s_DNSServer :: string
  s_SOCKSProxyAddr :: string
  s_SOCKSProxyPort :: int
  s_Amount :: int

section \<open>Errors\<close>

definition ErrRoomIDRequired :: go_error where
  "ErrRoomIDRequired = Base ''room ID required (use -id <id>)''"
definition ErrModeRequired :: go_error where
  "ErrModeRequired = Base ''mode required (use -mode srv, -mode cnc or -mode gen)''"
definition ErrAmountRequired :: go_error where
  "ErrAmountRequired = Base ''amount required for gen mode (use -amount <n>)''"
definition ErrCarrierRequired :: go_error where
  "ErrCarrierRequired =
     Base ''carrier required (use -carrier telemost, -carrier jazz or -carrier wbstream)''"
definition ErrUnsupportedCarrier :: go_error where
  "ErrUnsupportedCarrier = Base ''unsupported carrier''"
definition ErrUnsupportedLink :: go_error where
  "ErrUnsupportedLink = Base ''unsupported link''"
definition ErrUnsupportedTransport :: go_error where
  "ErrUnsupportedTransport = Base ''unsupported transport''"
definition ErrLinkRequired :: go_error where
  "ErrLinkRequired = Base ''link required (use -link direct)''"
definition ErrTransportRequired :: go_error where
  "ErrTransportRequired =
     Base ''transport required (use -transport datachannel, -transport videochannel, -transport seichannel or -transport vp8channel)''"
definition ErrKeyRequired :: go_error where
  "ErrKeyRequired = Base ''key required (use -key <hex>)''"
definition ErrDNSServerRequired :: go_error where
  "ErrDNSServerRequired = Base ''dns server required (use -dns 1.1.1.1:53)''"
definition ErrVideoWidthRequired :: go_error where
  "ErrVideoWidthRequired = Base ''video width required for videochannel (use -video-w)''"
definition ErrVideoHeightRequired :: go_error where
  "ErrVideoHeightRequired = Base ''video height required for videochannel (use -video-h)''"
definition ErrVideoFPSRequired :: go_error where
  "ErrVideoFPSRequired = Base ''video fps required for videochannel (use -video-fps)''"
definition ErrVideoBitrateRequired :: go_error where
  "ErrVideoBitrateRequired = Base ''video bitrate required for videochannel (use -video-bitrate)''"
definition ErrVideoHWRequired :: go_error where
  "ErrVideoHWRequired =
     Base ''video hardware acceleration required for videochannel (use -video-hw none/nvenc)''"
definition ErrVideoCodecInvalid :: go_error where
  "ErrVideoCodecInvalid =
     Base ''invalid video codec for videochannel (use -video-codec qrcode or -video-codec tile)''"
definition ErrTileCodecDimensions :: go_error where
  "ErrTileCodecDimensions = Base ''tile codec requires -video-w 1080 -video-h 1080''"
definition ErrVP8FPSRequired :: go_error where
  "ErrVP8FPSRequired = Base ''vp8 fps required for vp8channel (use -vp8-fps)''"
definition ErrVP8BatchSizeRequired :: go_error where
  "ErrVP8BatchSizeRequired = Base ''vp8 batch size required for vp8channel (use -vp8-batch)''"
definition ErrSEIFPSRequired :: go_error where
  "ErrSEIFPSRequired = Base ''fps required for seichannel (use -fps)''"
definition ErrSEIBatchSizeRequired :: go_error where
  "ErrSEIBatchSizeRequired = Base ''batch size required for seichannel (use -batch)''"
definition ErrSEIFragmentSizeRequired :: go_error where
  "ErrSEIFragmentSizeRequired = Base ''fragment size required for seichannel (use -frag)''"
definition ErrSEIAckTimeoutRequired :: go_error where
  "ErrSEIAckTimeoutRequired = Base ''ack timeout required for seichannel (use -ack-ms)''"
definition ErrSOCKSHostRequired :: go_error where
  "ErrSOCKSHostRequired = Base ''socks host required for cnc mode (use -socks-host)''"
definition ErrSOCKSPortRequired :: go_error where
  "ErrSOCKSPortRequired = Base ''socks port required for cnc mode (use -socks-port)''"
definition ErrClientIDRequired :: go_error where
  "ErrClientIDRequired = Base ''client ID required (use -client-id <id>)''"

lemmas session_errors =
  ErrRoomIDRequired_def
  ErrModeRequired_def
  ErrAmountRequired_def
  ErrCarrierRequired_def
  ErrUnsupportedCarrier_def
  ErrUnsupportedLink_def
  ErrUnsupportedTransport_def
  ErrLinkRequired_def
  ErrTransportRequired_def
  ErrKeyRequired_def
  ErrDNSServerRequired_def
  ErrVideoWidthRequired_def
  ErrVideoHeightRequired_def
  ErrVideoFPSRequired_def
  ErrVideoBitrateRequired_def
  ErrVideoHWRequired_def
  ErrVideoCodecInvalid_def
  ErrTileCodecDimensions_def
  ErrVP8FPSRequired_def
  ErrVP8BatchSizeRequired_def
  ErrSEIFPSRequired_def
  ErrSEIBatchSizeRequired_def
  ErrSEIFragmentSizeRequired_def
  ErrSEIAckTimeoutRequired_def
  ErrSOCKSHostRequired_def
  ErrSOCKSPortRequired_def
  ErrClientIDRequired_def

section \<open>Validation\<close>

text \<open>\<open>if err := f(cfg); err != nil { return err }\<close> followed by the rest.\<close>

definition orelse_err :: "go_error option \<Rightarrow> go_error option \<Rightarrow> go_error option" where
  "orelse_err a b = (case a of None \<Rightarrow> b | Some e \<Rightarrow> Some e)"

lemma orelse_err_simps [simp]:
  "orelse_err None b = b" "orelse_err (Some e) b = Some e"
  "orelse_err a b = None \<longleftrightarrow> a = None \<and> b = None"
  by (cases a; simp add: orelse_err_def)+

text \<open>\<open>fmt.Errorf("%w: %s (available: %v)", err, name, available)\<close>.\<close>

definition unsupported :: "go_error \<Rightarrow> string \<Rightarrow> string list \<Rightarrow> go_error" where
  "unsupported err name available = Detail err ('': '' @ name @ '' (available: '' @ fmt_strings available @ '')'')"

definition validateMode :: "session_config \<Rightarrow> go_error option" where
  "validateMode cfg =
     (if s_Mode cfg \<in> {''srv'', ''cnc'', ''gen''} then None else Some ErrModeRequired)"

definition validateCarrier :: "string list \<Rightarrow> session_config \<Rightarrow> go_error option" where
  "validateCarrier available cfg =
     (if s_Carrier cfg = [] then Some ErrCarrierRequired
      else if s_Carrier cfg \<notin> set available
        then Some (unsupported ErrUnsupportedCarrier (s_Carrier cfg) available)
      else None)"

definition validateLink :: "string list \<Rightarrow> session_config \<Rightarrow> go_error option" where
  "validateLink available cfg =
     (if s_Link cfg = [] then Some ErrLinkRequired
      else if s_Link cfg \<notin> set available then Some (unsupported ErrUnsupportedLink (s_Link cfg) available)
      else None)"

definition validateTransportRegistration :: "string list \<Rightarrow> session_config \<Rightarrow> go_error option" where
  "validateTransportRegistration available cfg =
     (if s_Transport cfg = [] then Some ErrTransportRequired
      else if s_Transport cfg \<notin> set available
        then Some (unsupported ErrUnsupportedTransport (s_Transport cfg) available)
      else None)"

definition validateCommon :: "session_config \<Rightarrow> go_error option" where
  "validateCommon cfg =
     (if s_RoomID cfg = [] \<and> s_Carrier cfg \<noteq> ''jazz'' then Some ErrRoomIDRequired
      else if s_ClientID cfg = [] then Some ErrClientIDRequired
      else if s_KeyHex cfg = [] then Some ErrKeyRequired
      else if s_DNSServer cfg = [] then Some ErrDNSServerRequired
      else None)"

definition validateVideoCodec :: "session_config \<Rightarrow> go_error option" where
  "validateVideoCodec cfg =
     (if VideoCodec cfg \<noteq> [] \<and> VideoCodec cfg \<noteq> ''qrcode'' \<and> VideoCodec cfg \<noteq> ''tile''
        then Some ErrVideoCodecInvalid
      else if VideoCodec cfg = ''tile'' \<and> (VideoWidth cfg \<noteq> 1080 \<or> VideoHeight cfg \<noteq> 1080)
        then Some ErrTileCodecDimensions
      else None)"

definition validateVideoChannel :: "session_config \<Rightarrow> go_error option" where
  "validateVideoChannel cfg =
     (if VideoWidth cfg = 0 then Some ErrVideoWidthRequired
      else if VideoHeight cfg = 0 then Some ErrVideoHeightRequired
      else if VideoFPS cfg = 0 then Some ErrVideoFPSRequired
      else if VideoBitrate cfg = [] then Some ErrVideoBitrateRequired
      else if VideoHW cfg = [] then Some ErrVideoHWRequired
      else validateVideoCodec cfg)"

definition validateVP8Channel :: "session_config \<Rightarrow> go_error option" where
  "validateVP8Channel cfg =
     (if VP8FPS cfg = 0 then Some ErrVP8FPSRequired
      else if VP8BatchSize cfg = 0 then Some ErrVP8BatchSizeRequired
      else None)"

definition validateSEIChannel :: "session_config \<Rightarrow> go_error option" where
  "validateSEIChannel cfg =
     (if SEIFPS cfg = 0 then Some ErrSEIFPSRequired
      else if SEIBatchSize cfg = 0 then Some ErrSEIBatchSizeRequired
      else if SEIFragmentSize cfg = 0 then Some ErrSEIFragmentSizeRequired
      else if SEIAckTimeoutMS cfg = 0 then Some ErrSEIAckTimeoutRequired
      else None)"

definition validateTransportConfig :: "session_config \<Rightarrow> go_error option" where
  "validateTransportConfig cfg =
     (if s_Transport cfg = ''videochannel'' then validateVideoChannel cfg
      else if s_Transport cfg = ''vp8channel'' then validateVP8Channel cfg
      else if s_Transport cfg = ''seichannel'' then validateSEIChannel cfg
      else None)"

definition validateModeConfig :: "session_config \<Rightarrow> go_error option" where
  "validateModeConfig cfg =
     (if s_Mode cfg \<noteq> ''cnc'' then None
      else if s_SOCKSHost cfg = [] then Some ErrSOCKSHostRequired
      else if s_SOCKSPort cfg = 0 then Some ErrSOCKSPortRequired
      else None)"

definition Validate :: "('o, 's, 'u, 't, 'h) registries \<Rightarrow> session_config \<Rightarrow> go_error option" where
  "Validate r cfg =
     orelse_err (validateMode cfg)
     (orelse_err (validateCarrier (carrier_Available (carrier_registry r)) cfg)
     (orelse_err (validateLink (link_Available (link_registry r)) cfg)
     (orelse_err (validateTransportRegistration (transport_Available (transport_registry r)) cfg)
     (orelse_err (validateCommon cfg)
     (orelse_err (validateTransportConfig cfg)
     (validateModeConfig cfg))))))"

definition ValidateGen :: "('o, 's, 'u, 't, 'h) registries \<Rightarrow> session_config \<Rightarrow> go_error option" where
  "ValidateGen r cfg =
     (if s_Carrier cfg = [] then Some ErrCarrierRequired
      else if s_Carrier cfg \<notin> set (carrier_Available (carrier_registry r))
        then Some (unsupported ErrUnsupportedCarrier (s_Carrier cfg)
          (carrier_Available (carrier_registry r)))
      else if s_DNSServer cfg = [] then Some ErrDNSServerRequired
      else if s_Amount cfg < 1 then Some ErrAmountRequired
      else None)"

section \<open>Run\<close>

definition buildRoomURL :: "string \<Rightarrow> string \<Rightarrow> string" where
  "buildRoomURL carrierName roomID =
     (if carrierName = ''telemost'' then ''https://telemost.yandex.ru/j/'' @ roomID
      else if carrierName = ''jazz'' then (if roomID = [] then ''any'' else roomID)
      else if carrierName = ''wbstream'' then roomID
      else roomID)"

text \<open>The parameters of \<open>server.Run\<close> and \<open>client.Run\<close>, in their order.\<close>

record server_args = media +
  sa_linkName :: string
  sa_transportName :: string
  sa_carrierName :: string
  sa_roomURL :: string
  sa_keyHex :: string
  sa_clientID :: string
  sa_dnsServer :: string
  sa_socksProxyAddr :: string
  sa_socksProxyPort :: int

record client_args = media +
  ca_linkName :: string
  ca_transportName :: string
  ca_carrierName :: string
  ca_roomURL :: string
  ca_keyHex :: string
  ca_clientID :: string
  ca_localAddr :: string
  ca_dnsServer :: string
  ca_socksUser :: string
  ca_socksPass :: string

definition server_args_of :: "session_config \<Rightarrow> server_args" where
  "server_args_of cfg =
     media.extend (media.truncate cfg)
       (server_args.fields (s_Link cfg) (s_Transport cfg) (s_Carrier cfg)
          (buildRoomURL (s_Carrier cfg) (s_RoomID cfg)) (s_KeyHex cfg) (s_ClientID cfg)
          (s_DNSServer cfg) (s_SOCKSProxyAddr cfg) (s_SOCKSProxyPort cfg))"

definition client_args_of :: "session_config \<Rightarrow> client_args" where
  "client_args_of cfg =
     media.extend (media.truncate cfg)
       (client_args.fields (s_Link cfg) (s_Transport cfg) (s_Carrier cfg)
          (buildRoomURL (s_Carrier cfg) (s_RoomID cfg)) (s_KeyHex cfg) (s_ClientID cfg)
          (s_SOCKSHost cfg @ '':'' @ Itoa (s_SOCKSPort cfg)) (s_DNSServer cfg)
          (s_SOCKSUser cfg) (s_SOCKSPass cfg))"

definition Run ::
    "(server_args \<Rightarrow> 'w \<Rightarrow> go_error option \<times> 'w) \<Rightarrow>
     (client_args \<Rightarrow> 'w \<Rightarrow> go_error option \<times> 'w) \<Rightarrow>
     session_config \<Rightarrow> 'w \<Rightarrow> go_error option \<times> 'w" where
  "Run server_Run client_Run cfg w =
     (if s_Mode cfg = ''srv'' then wrap_op ''server'' (server_Run (server_args_of cfg)) w
      else if s_Mode cfg = ''cnc'' then wrap_op ''client'' (client_Run (client_args_of cfg)) w
      else (Some ErrModeRequired, w))"

section \<open>Room generation\<close>

text \<open>
  \<open>fn\<close> acts on a world. \<open>cancelled n\<close> says that the \<open>select\<close> after attempt \<open>n\<close> (from 0) takes
  \<open>ctx.Done()\<close> rather than the delay.
\<close>

definition genMaxAttempts :: nat where "genMaxAttempts = 5"

definition ErrContextCanceled :: go_error where "ErrContextCanceled = Base ''context canceled''"

fun genRetry_loop ::
    "('w \<Rightarrow> go_error option \<times> 'w) \<Rightarrow> (nat \<Rightarrow> bool) \<Rightarrow> nat list \<Rightarrow> go_error option \<Rightarrow> 'w \<Rightarrow>
     go_error option \<times> 'w" where
  "genRetry_loop fn cancelled [] lastErr w = (lastErr, w)"
| "genRetry_loop fn cancelled (attempt # as) lastErr w =
     (case fn w of
        (None, w') \<Rightarrow> (None, w')
      | (Some e, w') \<Rightarrow>
          if attempt < genMaxAttempts - 1 \<and> cancelled attempt
          then (Some (Ctx ''context canceled'' ErrContextCanceled), w')
          else genRetry_loop fn cancelled as (Some e) w')"

definition genRetry ::
    "('w \<Rightarrow> go_error option \<times> 'w) \<Rightarrow> (nat \<Rightarrow> bool) \<Rightarrow> 'w \<Rightarrow> go_error option \<times> 'w" where
  "genRetry fn cancelled w = genRetry_loop fn cancelled [0..<genMaxAttempts] None w"

text \<open>
  One room: \<open>CreateRoom\<close> gives the room id and password, and the closure leaves
  \<open>roomID\<close> in the variable it captures, the second component of the world.
\<close>

definition gen_attempt ::
    "('w \<Rightarrow> (go_error + string \<times> string) \<times> 'w) \<Rightarrow> 'w \<times> string \<Rightarrow> go_error option \<times> 'w \<times> string" where
  "gen_attempt CreateRoom = (\<lambda>(w, roomID).
     case CreateRoom w of
       (Inl err, w') \<Rightarrow> (Some (Ctx ''jazz.CreateRoom'' err), w', roomID)
     | (Inr (rid, pw), w') \<Rightarrow> (None, w', rid @ '':'' @ pw))"

text \<open>The loop over \<open>range cfg.Amount\<close>; the result keeps the ids handed to \<open>out\<close>, in order.\<close>

fun Gen_loop ::
    "('w \<Rightarrow> (go_error + string \<times> string) \<times> 'w) \<Rightarrow> (nat \<Rightarrow> nat \<Rightarrow> bool) \<Rightarrow> nat list \<Rightarrow> 'w \<Rightarrow>
     go_error option \<times> string list \<times> 'w" where
  "Gen_loop CreateRoom cancelled [] w = (None, [], w)"
| "Gen_loop CreateRoom cancelled (i # is) w =
     (case genRetry (gen_attempt CreateRoom) (cancelled i) (w, []) of
        (Some err, w', _) \<Rightarrow> (Some (Ctx (''gen jazz room '' @ Itoa (int i + 1)) err), [], w')
      | (None, w', roomID) \<Rightarrow>
          (case Gen_loop CreateRoom cancelled is w' of (e, outs, w'') \<Rightarrow> (e, roomID # outs, w'')))"

definition Gen ::
    "('w \<Rightarrow> (go_error + string \<times> string) \<times> 'w) \<Rightarrow> (nat \<Rightarrow> nat \<Rightarrow> bool) \<Rightarrow>
     session_config \<Rightarrow> 'w \<Rightarrow> go_error option \<times> string list \<times> 'w" where
  "Gen CreateRoom cancelled cfg w =
     (if s_Carrier cfg = ''jazz'' then Gen_loop CreateRoom cancelled [0..<nat (s_Amount cfg)] w
      else (Some (Detail ErrUnsupportedCarrier ('': '' @ s_Carrier cfg @ '' does not support room generation'')),
        [], w))"

section \<open>What validation accepts\<close>

text \<open>The requirements of the flags' documentation, as one predicate per part.\<close>

definition transport_settings_ok :: "session_config \<Rightarrow> bool" where
  "transport_settings_ok cfg \<longleftrightarrow>
     (s_Transport cfg = ''videochannel'' \<longrightarrow>
        VideoWidth cfg \<noteq> 0 \<and> VideoHeight cfg \<noteq> 0 \<and> VideoFPS cfg \<noteq> 0 \<and> VideoBitrate cfg \<noteq> []
        \<and> VideoHW cfg \<noteq> [] \<and> VideoCodec cfg \<in> {[], ''qrcode'', ''tile''}
        \<and> (VideoCodec cfg = ''tile'' \<longrightarrow> VideoWidth cfg = 1080 \<and> VideoHeight cfg = 1080)) \<and>
     (s_Transport cfg = ''vp8channel'' \<longrightarrow> VP8FPS cfg \<noteq> 0 \<and> VP8BatchSize cfg \<noteq> 0) \<and>
     (s_Transport cfg = ''seichannel'' \<longrightarrow>
        SEIFPS cfg \<noteq> 0 \<and> SEIBatchSize cfg \<noteq> 0 \<and> SEIFragmentSize cfg \<noteq> 0 \<and> SEIAckTimeoutMS cfg \<noteq> 0)"

lemma validateTransportConfig_None:
  "validateTransportConfig cfg = None \<longleftrightarrow> transport_settings_ok cfg"
  by (auto simp: validateTransportConfig_def transport_settings_ok_def validateVideoChannel_def
      validateVideoCodec_def validateVP8Channel_def validateSEIChannel_def split: if_splits)

lemma validateMode_None: "validateMode cfg = None \<longleftrightarrow> s_Mode cfg \<in> {''srv'', ''cnc'', ''gen''}"
  by (simp add: validateMode_def)

lemma validateModeConfig_None:
  "validateModeConfig cfg = None \<longleftrightarrow>
     (s_Mode cfg = ''cnc'' \<longrightarrow> s_SOCKSHost cfg \<noteq> [] \<and> s_SOCKSPort cfg \<noteq> 0)"
  by (simp add: validateModeConfig_def)

lemma validateCommon_None:
  "validateCommon cfg = None \<longleftrightarrow>
     (s_RoomID cfg \<noteq> [] \<or> s_Carrier cfg = ''jazz'') \<and> s_ClientID cfg \<noteq> [] \<and> s_KeyHex cfg \<noteq> []
     \<and> s_DNSServer cfg \<noteq> []"
  by (auto simp: validateCommon_def)

lemma validate_names_None:
  "validateCarrier a cfg = None \<longleftrightarrow> s_Carrier cfg \<noteq> [] \<and> s_Carrier cfg \<in> set a"
  "validateLink a cfg = None \<longleftrightarrow> s_Link cfg \<noteq> [] \<and> s_Link cfg \<in> set a"
  "validateTransportRegistration a cfg = None \<longleftrightarrow> s_Transport cfg \<noteq> [] \<and> s_Transport cfg \<in> set a"
  by (simp_all add: validateCarrier_def validateLink_def validateTransportRegistration_def)

lemmas validate_None =
  validateTransportConfig_None validateMode_None validateModeConfig_None validateCommon_None
  validate_names_None

section \<open>Retry\<close>

text \<open>The world after \<open>k\<close> calls.\<close>

primrec after :: "('w \<Rightarrow> 'e \<times> 'w) \<Rightarrow> nat \<Rightarrow> 'w \<Rightarrow> 'w" where
  "after fn 0 w = w"
| "after fn (Suc k) w = after fn k (snd (fn w))"

lemma genRetry_loop_calls:
  "as \<noteq> [] \<Longrightarrow> \<exists>k \<le> length as. 0 < k \<and> snd (genRetry_loop fn cancelled as e w) = after fn k w
     \<and> (\<forall>j < k - 1. fst (fn (after fn j w)) \<noteq> None)
     \<and> (fst (genRetry_loop fn cancelled as e w) = None \<longleftrightarrow> fst (fn (after fn (k - 1) w)) = None)"
proof (induction as arbitrary: e w)
  case Nil
  then show ?case by simp
next
  case (Cons a as)
  obtain r w' where fw: "fn w = (r, w')" by (cases "fn w")
  show ?case
  proof (cases "r = None \<or> a < genMaxAttempts - 1 \<and> cancelled a \<or> as = []")
    case True
    with fw show ?thesis
      by (intro exI [of _ 1]) (auto split: option.splits)
  next
    case False
    then obtain e' where r: "r = Some e'" by auto
    from False have "as \<noteq> []" by simp
    from Cons.IH [OF this, of "Some e'" w'] obtain k where k: "k \<le> length as" "0 < k"
      "snd (genRetry_loop fn cancelled as (Some e') w') = after fn k w'"
      "\<forall>j < k - 1. fst (fn (after fn j w')) \<noteq> None"
      "fst (genRetry_loop fn cancelled as (Some e') w') = None
        \<longleftrightarrow> fst (fn (after fn (k - 1) w')) = None"
      by (elim exE conjE)
    have step: "genRetry_loop fn cancelled (a # as) e w = genRetry_loop fn cancelled as (Some e') w'"
      using False fw r by auto
    have "\<forall>j < Suc k - 1. fst (fn (after fn j w)) \<noteq> None"
    proof (intro allI impI)
      fix j assume "j < Suc k - 1"
      with k(4) fw r show "fst (fn (after fn j w)) \<noteq> None"
        by (cases j) auto
    qed
    moreover have "after fn (Suc k - 1) w = after fn (k - 1) w'"
      using k(2) fw by (cases k) simp_all
    ultimately show ?thesis
      using k(1,3,5) step fw
      by (intro exI [of _ "Suc k"]) (simp del: genRetry_loop.simps)
  qed
qed

lemma gen_attempt_room:
  "genRetry_loop (gen_attempt C) cancelled as e (w, []) = (None, w', roomID) \<Longrightarrow> as \<noteq> [] \<Longrightarrow>
     \<exists>rid pw. roomID = rid @ '':'' @ pw"
proof (induction "gen_attempt C" cancelled as e "(w, [] :: string)" arbitrary: w rule: genRetry_loop.induct)
  case (1 cancelled lastErr)
  then show ?case by simp
next
  case (2 cancelled attempt as lastErr)
  show ?case
  proof (cases "C w")
    case (Pair r v)
    show ?thesis
    proof (cases r)
      case (Inr p)
      with 2 Pair show ?thesis by (cases p) (auto simp: gen_attempt_def)
    next
      case (Inl err)
      with Pair have a: "gen_attempt C (w, []) = (Some (Ctx ''jazz.CreateRoom'' err), v, [])"
        by (simp add: gen_attempt_def)
      show ?thesis
      proof (cases "as = []")
        case True
        with 2 a show ?thesis by (auto split: if_splits)
      next
        case False
        with 2(1) [OF a [symmetric]] 2(2) a show ?thesis by (auto split: if_splits)
      qed
    qed
  qed
qed

lemma Gen_loop_outs:
  "Gen_loop C cancelled is w = (e, outs, w') \<Longrightarrow>
     length outs \<le> length is \<and> (e = None \<longleftrightarrow> length outs = length is)
     \<and> (\<forall>roomID\<in>set outs. \<exists>rid pw. roomID = rid @ '':'' @ pw)"
proof (induction C cancelled "is" w arbitrary: e outs w' rule: Gen_loop.induct)
  case (1 C cancelled w)
  then show ?case by simp
next
  case (2 C cancelled i "is" w)
  obtain r w1 roomID where g: "genRetry (gen_attempt C) (cancelled i) (w, []) = (r, w1, roomID)"
    by (metis prod_cases3)
  show ?case
  proof (cases r)
    case (Some err)
    with g 2(2) show ?thesis by auto
  next
    case None
    obtain e2 outs2 w2 where l: "Gen_loop C cancelled is w1 = (e2, outs2, w2)" by (metis prod_cases3)
    have "\<exists>rid pw. roomID = rid @ '':'' @ pw"
      using g None gen_attempt_room [of C "cancelled i" "[0..<genMaxAttempts]" None w w1 roomID]
      by (simp add: genRetry_def genMaxAttempts_def)
    moreover have "e = e2" "outs = roomID # outs2" using 2(2) g None l by auto
    moreover have "length outs2 \<le> length is \<and> (e2 = None \<longleftrightarrow> length outs2 = length is)
       \<and> (\<forall>roomID\<in>set outs2. \<exists>rid pw. roomID = rid @ '':'' @ pw)"
      by (rule 2(1)) (use g None l in auto)
    ultimately show ?thesis by auto
  qed
qed

section \<open>Building the link of a validated configuration\<close>

definition empty_registries :: "('o, 's, 'u, 't, 'h) registries" where
  "empty_registries = \<lparr>carrier_registry = [], transport_registry = [], link_registry = []\<rparr>"

definition config_complete :: "session_config \<Rightarrow> bool" where
  "config_complete cfg \<longleftrightarrow>
     s_Mode cfg \<in> {''srv'', ''cnc'', ''gen''} \<and> s_Carrier cfg \<noteq> [] \<and> s_Link cfg \<noteq> []
     \<and> s_Transport cfg \<noteq> []
     \<and> (s_Carrier cfg \<noteq> ''jazz'' \<longrightarrow> s_RoomID cfg \<noteq> []) \<and> s_ClientID cfg \<noteq> [] \<and> s_KeyHex cfg \<noteq> []
     \<and> s_DNSServer cfg \<noteq> []
     \<and> (s_Mode cfg = ''cnc'' \<longrightarrow> s_SOCKSHost cfg \<noteq> [] \<and> s_SOCKSPort cfg \<noteq> 0)"

lemma available_iff:
  "k \<in> set (carrier_Available c) \<longleftrightarrow> map_of c k \<noteq> None"
  "k \<in> set (transport_Available t) \<longleftrightarrow> map_of t k \<noteq> None"
  "k \<in> set (link_Available l) \<longleftrightarrow> map_of l k \<noteq> None"
  by (simp_all only: carrier_Available_def transport_Available_def link_Available_def
      map_of_eq_None_iff set_map not_not)

lemma Validate_None:
  "Validate r cfg = None \<longleftrightarrow>
     config_complete cfg \<and> transport_settings_ok cfg
     \<and> map_of (carrier_registry r) (s_Carrier cfg) \<noteq> None
     \<and> map_of (link_registry r) (s_Link cfg) \<noteq> None
     \<and> map_of (transport_registry r) (s_Transport cfg) \<noteq> None"
  unfolding Validate_def orelse_err_simps validate_None available_iff config_complete_def
  by blast

definition builtin_factory where
  "builtin_factory jazz telemost wbstream name =
     (if name = ''wbstream'' then Some wbstream
      else if name = ''telemost'' then Some telemost
      else if name = ''jazz'' then Some jazz
      else None)"

lemma builtin_lookup_empty:
  "map_of (builtin_Register jazz telemost wbstream []) name =
     map_option (\<lambda>factory cfg. case factory (provider_config_of cfg) of
                    Inl err \<Rightarrow> Inl err | Inr prov \<Rightarrow> Inr (providerSession prov))
       (builtin_factory jazz telemost wbstream name)"
  by (cases "name = ''wbstream''"; cases "name = ''telemost''"; cases "name = ''jazz''";
      simp add: builtin_lookup builtin_factory_def)

lemma datachannel_New_session:
  "map_of c (tc_Carrier tc) =
     Some (\<lambda>cfg. case factory (provider_config_of cfg) of
                   Inl err \<Rightarrow> Inl err | Inr prov \<Rightarrow> Inr (providerSession prov)) \<Longrightarrow>
   datachannel_New c tc =
     (case factory (provider_config_of (carrier_config_of tc)) of
        Inl err \<Rightarrow> Inl (Ctx ''create carrier transport'' err)
      | Inr prov \<Rightarrow> Inr (streamTransport (providerByteStream prov)))"
  by (simp add: datachannel_New_def carrier_New_def providerSession_def OpenByteStream_def
      split: sum.splits)

lemma empty_default_lookups:
  assumes "R = RegisterDefaults jazz telemost wbstream vc sc vp empty_registries"
  shows "map_of (link_registry R) k \<noteq> None \<Longrightarrow>
           map_of (link_registry R) k = Some (direct_New (transport_registry R))"
    and "map_of (transport_registry R) ''datachannel'' = Some (datachannel_New (carrier_registry R))"
    and "map_of (carrier_registry R) c =
      map_option (\<lambda>factory cfg. case factory (provider_config_of cfg) of
                    Inl err \<Rightarrow> Inl err | Inr prov \<Rightarrow> Inr (providerSession prov))
       (builtin_factory jazz telemost wbstream c)"
  unfolding assms default_link default_transport default_carrier
  by (simp_all add: empty_registries_def builtin_lookup_empty split: if_splits)

section \<open>Properties\<close>

text \<open>C20: \<open>Validate\<close> accepts exactly the complete configurations whose carrier, link and
  transport are registered and whose transport-specific settings are given; every other
  configuration gets an error.\<close>

theorem Validate_accepts_exactly:
  "Validate r cfg = None \<longleftrightarrow>
     config_complete cfg \<and> transport_settings_ok cfg
     \<and> s_Carrier cfg \<in> set (carrier_Available (carrier_registry r))
     \<and> s_Link cfg \<in> set (link_Available (link_registry r))
     \<and> s_Transport cfg \<in> set (transport_Available (transport_registry r))"
  unfolding Validate_None available_iff ..

text \<open>C21: with the default registrations, a configuration that \<open>Validate\<close> accepts for the
  datachannel transport builds its link: the only error left is the provider's own, wrapped
  twice, and otherwise the link is the direct link over the datachannel transport over the named
  carrier's provider, which is handed the room URL, name, callback, DNS server and proxy of the
  link's configuration.\<close>

theorem validated_link_builds:
  assumes "R = RegisterDefaults jazz telemost wbstream vc sc vp empty_registries"
    and "Validate R cfg = None" and "s_Transport cfg = ''datachannel''"
    and "lc_Transport lc = s_Transport cfg" and "lc_Carrier lc = s_Carrier cfg"
  shows "\<exists>factory. builtin_factory jazz telemost wbstream (s_Carrier cfg) = Some factory
     \<and> link_New (link_registry R) (s_Link cfg) lc =
        (case factory \<lparr>pc_RoomURL = lc_RoomURL lc, pc_Name = lc_Name lc, pc_OnData = lc_OnData lc,
                       pc_DNSServer = lc_DNSServer lc, pc_ProxyAddr = lc_ProxyAddr lc,
                       pc_ProxyPort = lc_ProxyPort lc\<rparr> of
           Inl e \<Rightarrow> Inl (Ctx ''create transport for direct link'' (Ctx ''create carrier transport'' e))
         | Inr prov \<Rightarrow> Inr (provider_stack prov))"
proof -
  note lookups = empty_default_lookups [OF assms(1)]
  from assms(2) have v: "map_of (carrier_registry R) (s_Carrier cfg) \<noteq> None"
    "map_of (link_registry R) (s_Link cfg) \<noteq> None"
    unfolding Validate_None by blast+
  then obtain factory where f: "builtin_factory jazz telemost wbstream (s_Carrier cfg) = Some factory"
    unfolding lookups(3) by blast
  have "map_of (carrier_registry R) (tc_Carrier (transport_config_of lc)) =
     Some (\<lambda>cfg. case factory (provider_config_of cfg) of
             Inl err \<Rightarrow> Inl err | Inr prov \<Rightarrow> Inr (providerSession prov))"
    by (simp add: lookups(3) transport_config_of_def assms(5) f)
  note dc = datachannel_New_session [OF this]
  have cfg_eq: "provider_config_of (carrier_config_of (transport_config_of lc)) =
      \<lparr>pc_RoomURL = lc_RoomURL lc, pc_Name = lc_Name lc, pc_OnData = lc_OnData lc,
       pc_DNSServer = lc_DNSServer lc, pc_ProxyAddr = lc_ProxyAddr lc, pc_ProxyPort = lc_ProxyPort lc\<rparr>"
    by (simp add: config_defs)
  show ?thesis
    by (intro exI [of _ factory] conjI f)
      (simp add: link_New_def lookups(1) [OF v(2)] direct_New_def transport_New_def assms(3,4)
        lookups(2) dc provider_stack_def cfg_eq split: sum.splits)
qed

text \<open>\<open>genRetry\<close> calls its function at least once and at most five times, stops at the
  first success, and returns nil exactly when its last call succeeded; every earlier call
  failed.\<close>

lemma genRetry_calls:
  "\<exists>k. 0 < k \<and> k \<le> 5 \<and> snd (genRetry fn cancelled w) = after fn k w
     \<and> (\<forall>j. j < k - 1 \<longrightarrow> fst (fn (after fn j w)) \<noteq> None)
     \<and> (fst (genRetry fn cancelled w) = None \<longleftrightarrow> fst (fn (after fn (k - 1) w)) = None)"
  using genRetry_loop_calls [of "[0..<genMaxAttempts]" fn cancelled None w]
  by (auto simp: genRetry_def genMaxAttempts_def)


section \<open>Witnesses\<close>

definition example_media :: media where
  "example_media =
     \<lparr>VideoWidth = 0, VideoHeight = 0, VideoFPS = 0, VideoBitrate = [], VideoHW = [],
      VideoQRSize = 0, VideoQRRecovery = ''low'', VideoCodec = ''qrcode'', VideoTileModule = 0,
      VideoTileRS = 0, VP8FPS = 0, VP8BatchSize = 0, SEIFPS = 0, SEIBatchSize = 0,
      SEIFragmentSize = 0, SEIAckTimeoutMS = 0\<rparr>"

definition example_config :: "string \<Rightarrow> string \<Rightarrow> session_config" where
  "example_config mode transport =
     media.extend example_media
       (session_config.fields mode ''direct'' transport ''jazz'' [] ''alice'' ''00ff'' ''localhost'' 1080
          [] [] ''1.1.1.1:53'' [] 0 2)"

definition example_link_config :: "string \<Rightarrow> unit link_config" where
  "example_link_config transport =
     \<lparr>lc_Transport = transport, lc_Carrier = ''jazz'', lc_RoomURL = ''any'', lc_ClientID = ''alice'',
      lc_Name = ''Bob'', lc_OnData = None, lc_DNSServer = ''1.1.1.1:53'', lc_ProxyAddr = [],
      lc_ProxyPort = 0, lc_VideoWidth = 0, lc_VideoHeight = 0, lc_VideoFPS = 0,
      lc_VideoBitrate = [], lc_VideoHW = [], lc_VideoQRSize = 0, lc_VideoQRRecovery = [],
      lc_VideoCodec = [], lc_VideoTileModule = 0, lc_VideoTileRS = 0, lc_VP8FPS = 0,
      lc_VP8BatchSize = 0, lc_SEIFPS = 0, lc_SEIBatchSize = 0, lc_SEIFragmentSize = 0,
      lc_SEIAckTimeoutMS = 0\<rparr>"

lemma example_config_valid:
  "Validate (RegisterDefaults jazz telemost wbstream vc sc vp empty_registries)
     (example_config ''cnc'' ''datachannel'') = None"
proof -
  have "config_complete (example_config ''cnc'' ''datachannel'')"
    by (simp add: config_complete_def example_config_def session_config.defs media.defs
        example_media_def)
  moreover have "transport_settings_ok (example_config ''cnc'' ''datachannel'')"
    by (simp add: transport_settings_ok_def example_config_def session_config.defs media.defs
        example_media_def)
  moreover have "s_Carrier (example_config ''cnc'' ''datachannel'') = ''jazz''"
    "s_Link (example_config ''cnc'' ''datachannel'') = ''direct''"
    "s_Transport (example_config ''cnc'' ''datachannel'') = ''datachannel''"
    by (simp_all add: example_config_def session_config.defs media.defs example_media_def)
  ultimately show ?thesis
    unfolding Validate_None default_link default_transport default_carrier
    by (simp add: empty_registries_def builtin_lookup_empty builtin_factory_def)
qed

definition failing_factory :: "(unit, unit, unit, unit, unit, unit) provider_factory" where
  "failing_factory cfg = Inl (Base (''no room '' @ pc_RoomURL cfg))"

theorem validated_link_builds_witness:
  "link_New (link_registry (RegisterDefaults failing_factory failing_factory failing_factory
       (\<lambda>_. Inl ErrTransportNotFound) (\<lambda>_. Inl ErrTransportNotFound) (\<lambda>_. Inl ErrTransportNotFound)
       empty_registries)) ''direct'' (example_link_config ''datachannel'') =
   Inl (Ctx ''create transport for direct link''
     (Ctx ''create carrier transport'' (Base ''no room any'')))"
proof -
  have "s_Transport (example_config ''cnc'' ''datachannel'') = ''datachannel''"
    "lc_Transport (example_link_config ''datachannel'') = s_Transport (example_config ''cnc'' ''datachannel'')"
    "lc_Carrier (example_link_config ''datachannel'') = s_Carrier (example_config ''cnc'' ''datachannel'')"
    by (simp_all add: example_link_config_def example_config_def session_config.defs media.defs
        example_media_def)
  from validated_link_builds [OF refl example_config_valid this,
      of failing_factory failing_factory failing_factory]
  show ?thesis
    by (simp add: builtin_factory_def example_config_def session_config.defs media.defs
        example_media_def failing_factory_def [abs_def] example_link_config_def)
qed

definition third_time :: "nat \<Rightarrow> go_error option \<times> nat" where
  "third_time n = (if n = 2 then None else Some ErrContextCanceled, n + 1)"


text \<open>Negative settings pass: only zero is refused.\<close>

lemma Validate_accepts_negative_fps:
  "validateTransportConfig ((example_config ''cnc'' ''vp8channel'')\<lparr>VP8FPS := - 5, VP8BatchSize := - 1\<rparr>) = None"
  by (simp add: validateTransportConfig_None transport_settings_ok_def example_config_def
      session_config.defs media.defs example_media_def)

end
