(* ===== verification/Frame.thy ===== *)
theory Frame
  imports Interfaces Go_Std
begin

text \<open>
  The frame format shared by \<open>videochannel/frame.go\<close> and \<open>seichannel/transport.go\<close>: the two
  packages carry the same code with a different \<open>protocolMagic\<close>, which is a parameter here.
  Fragmentation of a payload, encoding of data and ack frames, decoding with all its errors.
\<close>

record transportFrame =
  f_typ :: byte
  f_seq :: u32
  f_crc :: u32
  f_totalLen :: u32
  f_fragIdx :: u16
  f_fragTotal :: u16
  f_payload :: bytes

datatype frame_error =
    ErrFrameTooShort
  | ErrUnexpectedMagic
  | ErrUnexpectedVersion
  | ErrAckTooShort
  | ErrDataTooShort
  | ErrUnexpectedFrameType

definition protocolVersion :: byte where "protocolVersion = 1"
definition frameTypeData :: byte where "frameTypeData = 1"
definition frameTypeAck :: byte where "frameTypeAck = 2"

lemmas frame_consts = protocolVersion_def frameTypeData_def frameTypeAck_def

section \<open>Fragmentation\<close>

text \<open>The loop \<open>for start := 0; start < len(data); start += maxSize\<close>.\<close>

function fragment_loop :: "bytes \<Rightarrow> nat \<Rightarrow> nat \<Rightarrow> bytes list" where
  "fragment_loop data maxSize start =
     (if start < length data \<and> 0 < maxSize
      then slice start (min (start + maxSize) (length data)) data
           # fragment_loop data maxSize (start + maxSize)
      else [])"
  by pat_completeness auto
termination
  by (relation "measure (\<lambda>(data, maxSize, start). length data - start)") auto

declare fragment_loop.simps [simp del]

text \<open>\<open>None\<close> is a run-time panic: a zero \<open>maxSize\<close> divides by zero in the capacity, a negative
  one makes a slice of negative length.\<close>

definition fragmentPayload :: "bytes \<Rightarrow> int \<Rightarrow> bytes list option" where
  "fragmentPayload data maxSize =
     (if data = [] then Some [[]]
      else if maxSize \<le> 0 then None
      else Some (fragment_loop data (nat maxSize) 0))"

section \<open>Encoding\<close>

definition encodeDataFrame ::
  "u32 \<Rightarrow> u32 \<Rightarrow> u32 \<Rightarrow> nat \<Rightarrow> nat \<Rightarrow> nat \<Rightarrow> bytes \<Rightarrow> bytes" where
  "encodeDataFrame magic sq c tot idx n frag =
     be32 magic @ [protocolVersion, frameTypeData] @ be32 sq @ be32 c
     @ be32 (word_of_nat tot) @ be16 (word_of_nat idx) @ be16 (word_of_nat n) @ frag"

definition encodeAckFrame :: "u32 \<Rightarrow> u32 \<Rightarrow> u32 \<Rightarrow> bytes" where
  "encodeAckFrame magic sq c =
     be32 magic @ [protocolVersion, frameTypeAck] @ be32 sq @ be32 c"

section \<open>Decoding\<close>

definition empty_frame :: "byte \<Rightarrow> transportFrame" where
  "empty_frame t = \<lparr>f_typ = t, f_seq = 0, f_crc = 0, f_totalLen = 0, f_fragIdx = 0, f_fragTotal = 0, f_payload = []\<rparr>"

definition decodeTransportFrame :: "u32 \<Rightarrow> bytes \<Rightarrow> frame_error + transportFrame" where
  "decodeTransportFrame magic data =
     (if length data < 6 then Inl ErrFrameTooShort
      else if get_be32 0 data \<noteq> magic then Inl ErrUnexpectedMagic
      else if data ! 4 \<noteq> protocolVersion then Inl ErrUnexpectedVersion
      else let frame = empty_frame (data ! 5) in
        if f_typ frame = frameTypeAck then
          (if length data < 14 then Inl ErrAckTooShort
           else Inr (frame\<lparr>f_seq := get_be32 6 data, f_crc := get_be32 10 data\<rparr>))
        else if f_typ frame = frameTypeData then
          (if length data < 22 then Inl ErrDataTooShort
           else Inr (frame\<lparr>f_seq := get_be32 6 data, f_crc := get_be32 10 data,
                  f_totalLen := get_be32 14 data, f_fragIdx := get_be16 18 data,
                  f_fragTotal := get_be16 20 data, f_payload := drop 22 data\<rparr>))
        else Inl ErrUnexpectedFrameType)"

section \<open>Fragments cover the payload\<close>

lemma fragment_loop_concat:
  "0 < m \<Longrightarrow> concat (fragment_loop data m start) = drop start data"
proof (induction data m start rule: fragment_loop.induct)
  case (1 data m start)
  show ?case
  proof (cases "start < length data")
    case True
    with 1 have "concat (fragment_loop data m (start + m)) = drop (start + m) data" by simp
    moreover have "slice start (min (start + m) (length data)) data @ drop (start + m) data = drop start data"
    proof (cases "start + m \<le> length data")
      case True
      then show ?thesis by (simp add: slice_split min_def)
    next
      case False
      then show ?thesis by (simp add: slice_def min_def)
    qed
    ultimately show ?thesis using True "1.prems" by (simp add: fragment_loop.simps [of data m start])
  next
    case False
    then show ?thesis by (simp add: fragment_loop.simps [of data m start])
  qed
qed

lemma fragment_loop_sizes:
  "f \<in> set (fragment_loop data m start) \<Longrightarrow> f \<noteq> [] \<and> length f \<le> m"
proof (induction data m start rule: fragment_loop.induct)
  case (1 data m start)
  show ?case
  proof (cases "start < length data \<and> 0 < m")
    case True
    with "1.prems" have "f = slice start (min (start + m) (length data)) data
        \<or> f \<in> set (fragment_loop data m (start + m))"
      by (simp add: fragment_loop.simps [of data m start])
    then show ?thesis
    proof
      assume "f = slice start (min (start + m) (length data)) data"
      then have "length f = min m (length data - start)"
        by (simp add: length_slice)
      with True show ?thesis by auto
    qed (use "1.IH" True in blast)
  next
    case False
    with "1.prems" show ?thesis by (auto simp: fragment_loop.simps [of data m start])
  qed
qed

lemma fragment_loop_length:
  "0 < m \<Longrightarrow> length (fragment_loop data m start) = (length data - start + m - 1) div m"
proof (induction data m start rule: fragment_loop.induct)
  case (1 data m start)
  show ?case
  proof (cases "start < length data")
    case True
    with 1 have "length (fragment_loop data m (start + m)) = (length data - (start + m) + m - 1) div m"
      by simp
    moreover have "(length data - start + m - 1) div m = Suc ((length data - (start + m) + m - 1) div m)"
    proof (cases "start + m \<le> length data")
      case True
      then have e: "length data - start + m - 1 = (length data - (start + m) + m - 1) + m"
        using "1.prems" by simp
      show ?thesis unfolding e using "1.prems" by (simp only: div_add_self2)
    next
      case False
      have "(length data - start + m - 1) div m = 1"
        using True False "1.prems" by (intro div_nat_eqI) auto
      moreover have "(length data - (start + m) + m - 1) div m = 0"
        using False "1.prems" by simp
      ultimately show ?thesis by simp
    qed
    ultimately show ?thesis using True "1.prems" by (simp add: fragment_loop.simps [of data m start])
  next
    case False
    then show ?thesis using "1.prems" by (simp add: fragment_loop.simps [of data m start])
  qed
qed

lemma fragmentPayload_Some:
  "0 < m \<Longrightarrow> \<exists>fs. fragmentPayload data m = Some fs \<and> fs \<noteq> [] \<and> concat fs = data"
proof (cases "data = []")
  case False
  assume "0 < m"
  then have "concat (fragment_loop data (nat m) 0) = data" by (simp add: fragment_loop_concat)
  with False \<open>0 < m\<close> show ?thesis by (auto simp: fragmentPayload_def)
qed (simp add: fragmentPayload_def)

lemma fragmentPayload_concat: "fragmentPayload data m = Some fs \<Longrightarrow> concat fs = data"
  by (auto simp: fragmentPayload_def fragment_loop_concat split: if_splits)

lemma fragmentPayload_nonempty: "fragmentPayload data m = Some fs \<Longrightarrow> fs \<noteq> []"
  using fragmentPayload_concat [of data m fs] by (auto simp: fragmentPayload_def split: if_splits)

section \<open>Frames decode to what was encoded\<close>

lemma length_encode [simp]:
  "length (encodeDataFrame magic sq c tot idx n frag) = 22 + length frag"
  "length (encodeAckFrame magic sq c) = 14"
  by (simp_all add: encodeDataFrame_def encodeAckFrame_def)

lemma data_frame_fields:
  fixes magic sq c tot idx n frag
  defines "d \<equiv> encodeDataFrame magic sq c tot idx n frag"
  shows "get_be32 0 d = magic" "d ! 4 = protocolVersion" "d ! 5 = frameTypeData"
    "get_be32 6 d = sq" "get_be32 10 d = c" "get_be32 14 d = word_of_nat tot"
    "get_be16 18 d = word_of_nat idx" "get_be16 20 d = word_of_nat n" "drop 22 d = frag"
proof -
  let ?h = "be32 magic @ [protocolVersion, frameTypeData]"
  let ?t = "be32 (word_of_nat tot)" and ?i = "be16 (word_of_nat idx)" and ?n = "be16 (word_of_nat n)"
  have d: "d = ?h @ be32 sq @ be32 c @ ?t @ ?i @ ?n @ frag"
    by (simp add: d_def encodeDataFrame_def)
  show "get_be32 0 d = magic"
    using get_be32_be32 [of "[]" 0 magic] by (simp add: d)
  show "d ! 4 = protocolVersion" "d ! 5 = frameTypeData"
    by (simp_all add: d nth_append)
  show "get_be32 6 d = sq"
    using get_be32_be32 [of ?h 6 sq] by (simp add: d)
  show "get_be32 10 d = c"
    using get_be32_be32 [of "?h @ be32 sq" 10 c] by (simp add: d)
  show "get_be32 14 d = word_of_nat tot"
    using get_be32_be32 [of "?h @ be32 sq @ be32 c" 14 "word_of_nat tot"] by (simp add: d)
  show "get_be16 18 d = word_of_nat idx"
    using get_be16_be16 [of "?h @ be32 sq @ be32 c @ ?t" 18 "word_of_nat idx"] by (simp add: d)
  show "get_be16 20 d = word_of_nat n"
    using get_be16_be16 [of "?h @ be32 sq @ be32 c @ ?t @ ?i" 20 "word_of_nat n"] by (simp add: d)
  show "drop 22 d = frag"
    by (simp add: d)
qed

lemma ack_frame_fields:
  fixes magic sq c
  defines "d \<equiv> encodeAckFrame magic sq c"
  shows "get_be32 0 d = magic" "d ! 4 = protocolVersion" "d ! 5 = frameTypeAck"
    "get_be32 6 d = sq" "get_be32 10 d = c"
proof -
  let ?h = "be32 magic @ [protocolVersion, frameTypeAck]"
  have d: "d = ?h @ be32 sq @ be32 c"
    by (simp add: d_def encodeAckFrame_def)
  show "get_be32 0 d = magic"
    using get_be32_be32 [of "[]" 0 magic] by (simp add: d)
  show "d ! 4 = protocolVersion" "d ! 5 = frameTypeAck"
    by (simp_all add: d nth_append)
  show "get_be32 6 d = sq"
    using get_be32_be32 [of ?h 6 sq] by (simp add: d)
  show "get_be32 10 d = c"
    using get_be32_be32 [of "?h @ be32 sq" 10 c "[]"] by (simp add: d)
qed

lemma decode_encodeDataFrame [simp]:
  "decodeTransportFrame magic (encodeDataFrame magic sq c tot idx n frag) =
     Inr \<lparr>f_typ = frameTypeData, f_seq = sq, f_crc = c, f_totalLen = word_of_nat tot,
          f_fragIdx = word_of_nat idx, f_fragTotal = word_of_nat n, f_payload = frag\<rparr>"
  by (simp add: decodeTransportFrame_def data_frame_fields empty_frame_def)
     (simp add: data_frame_fields frame_consts)

lemma decode_encodeAckFrame [simp]:
  "decodeTransportFrame magic (encodeAckFrame magic sq c) =
     Inr ((empty_frame frameTypeAck)\<lparr>f_seq := sq, f_crc := c\<rparr>)"
  by (simp add: decodeTransportFrame_def ack_frame_fields empty_frame_def)

lemma decode_other_magic:
  "magic \<noteq> magic' \<Longrightarrow>
    decodeTransportFrame magic' (encodeDataFrame magic sq c tot idx n frag) = Inl ErrUnexpectedMagic"
  "magic \<noteq> magic' \<Longrightarrow>
    decodeTransportFrame magic' (encodeAckFrame magic sq c) = Inl ErrUnexpectedMagic"
  by (simp_all add: decodeTransportFrame_def data_frame_fields ack_frame_fields)

text \<open>A decoded frame is a data frame or an ack, never anything else.\<close>

lemma decode_typ:
  "decodeTransportFrame magic data = Inr f \<Longrightarrow> f_typ f = frameTypeAck \<or> f_typ f = frameTypeData"
  by (auto simp: decodeTransportFrame_def Let_def empty_frame_def split: if_splits)

section \<open>Properties\<close>

text \<open>C22: a data frame decodes to the header fields it was encoded from, cut to the widths of
  the header, with its fragment; an ack frame decodes to its sequence number and checksum; a
  receiver of another protocol magic refuses both.\<close>

theorem frame_roundtrip:
  "decodeTransportFrame magic' (encodeDataFrame magic sq c tot idx n frag) =
     (if magic' = magic
      then Inr \<lparr>f_typ = frameTypeData, f_seq = sq, f_crc = c, f_totalLen = word_of_nat tot,
                f_fragIdx = word_of_nat idx, f_fragTotal = word_of_nat n, f_payload = frag\<rparr>
      else Inl ErrUnexpectedMagic)
   \<and> decodeTransportFrame magic' (encodeAckFrame magic sq c) =
     (if magic' = magic
      then Inr \<lparr>f_typ = frameTypeAck, f_seq = sq, f_crc = c, f_totalLen = 0, f_fragIdx = 0,
                f_fragTotal = 0, f_payload = []\<rparr>
      else Inl ErrUnexpectedMagic)"
  by (auto simp: decode_other_magic) (simp_all add: empty_frame_def)

text \<open>With a positive fragment size fragmentation succeeds, the fragments concatenate to the
  payload, none exceeds the size, a non-empty payload has no empty fragment and exactly the
  rounded-up quotient of them, and an empty payload is one empty fragment.\<close>

lemma fragments_cover_payload:
  assumes "0 < maxSize"
  shows "\<exists>fs. fragmentPayload data maxSize = Some fs \<and> concat fs = data
     \<and> (\<forall>f\<in>set fs. length f \<le> nat maxSize \<and> (data \<noteq> [] \<longrightarrow> f \<noteq> []))
     \<and> length fs = (if data = [] then 1 else (length data + nat maxSize - 1) div nat maxSize)"
  using assms fragment_loop_sizes [of _ data "nat maxSize" 0]
  by (auto simp: fragmentPayload_def fragment_loop_concat fragment_loop_length)

end
