(* ===== verification/Reliable.thy ===== *)
theory Reliable
  imports Frame
begin

text \<open>
  The acknowledged-delivery engine of \<open>seichannel/transport.go\<close> and
  \<open>videochannel/transport.go\<close>, which carry it in two identical copies: the outbound queues and
  their writer side, \<open>Send\<close> with its retries, reassembly of fragments, duplicate suppression,
  acks. The protocol magic and the number of send attempts are parameters.

  Every \<open>select\<close> is modelled by the list of its possible outcomes in a state; an empty list is
  a select that blocks. \<open>Send\<close> is a program counter stepped through its loop, because other
  goroutines run between its selects. Go maps are association lists with distinct keys.
\<close>

section \<open>State\<close>

record inboundMessage =
  m_totalLen :: u32
  m_crc :: u32
  m_frags :: "bytes option list"
  m_remain :: nat

datatype arq_error = ErrTransportClosed | ErrAckTimeout

text \<open>\<open>a_app\<close> is the sequence of messages handed to \<open>onData\<close>; \<open>a_closeCh\<close> says that the close
  channel is closed; a waiter is the contents of its channel of capacity one.\<close>

record arq =
  a_outbound :: "bytes list"
  a_outboundAck :: "bytes list"
  a_closeCh :: bool
  a_closed :: bool
  a_nextSeq :: u32
  a_ackWaiters :: "(u32 \<times> u32 option) list"
  a_inbound :: "(u32 \<times> inboundMessage) list"
  a_delivered :: "(u32 \<times> u32) list"
  a_hasOnData :: bool
  a_app :: "bytes list"

definition outbound_cap :: nat where "outbound_cap = 256"
definition outboundAck_cap :: nat where "outboundAck_cap = 64"

definition arq_new :: "bool \<Rightarrow> arq" where
  "arq_new hasOnData =
     \<lparr>a_outbound = [], a_outboundAck = [], a_closeCh = False, a_closed = False, a_nextSeq = 0,
      a_ackWaiters = [], a_inbound = [], a_delivered = [], a_hasOnData = hasOnData, a_app = []\<rparr>"

section \<open>Queues\<close>

definition enqueueFrame :: "bytes \<Rightarrow> bool \<Rightarrow> 'a arq_scheme \<Rightarrow> (arq_error + 'a arq_scheme) list" where
  "enqueueFrame frame priority s =
     (if a_closed s then [Inl ErrTransportClosed]
      else (if a_closeCh s then [Inl ErrTransportClosed] else [])
        @ (if priority
           then (case chan_send outboundAck_cap frame (a_outboundAck s) of
                   None \<Rightarrow> [] | Some q \<Rightarrow> [Inr (s\<lparr>a_outboundAck := q\<rparr>)])
           else (case chan_send outbound_cap frame (a_outbound s) of
                   None \<Rightarrow> [] | Some q \<Rightarrow> [Inr (s\<lparr>a_outbound := q\<rparr>)])))"

text \<open>The two selects of \<open>nextOutboundFrame\<close>: the first falls through to the second only when
  neither the close channel nor the ack queue is ready.\<close>

definition nextOutboundFrame :: "'a arq_scheme \<Rightarrow> ((bytes option \<times> bool) \<times> 'a arq_scheme) list" where
  "nextOutboundFrame s =
     (let closing = (if a_closeCh s then [((None, False), s)] else []);
          acks = (case chan_recv (a_outboundAck s) of
                    None \<Rightarrow> [] | Some (f, q) \<Rightarrow> [((Some f, True), s\<lparr>a_outboundAck := q\<rparr>)]);
          data = (case chan_recv (a_outbound s) of
                    None \<Rightarrow> [] | Some (f, q) \<Rightarrow> [((Some f, True), s\<lparr>a_outbound := q\<rparr>)])
      in if closing @ acks \<noteq> [] then closing @ acks
         else if closing @ acks @ data \<noteq> [] then closing @ acks @ data
         else [((None, True), s)])"

section \<open>Sending\<close>

datatype send_pc =
    Enqueue nat nat
  | Waiting nat
  | Returned "arq_error option"

record send_call =
  c_seq :: u32
  c_crc :: u32
  c_data :: bytes
  c_frags :: "bytes list"
  c_pc :: send_pc

text \<open>\<open>Send\<close> up to its loop. The outer \<open>None\<close> is the panic of \<open>fragmentPayload\<close>.\<close>

definition send_begin :: "int \<Rightarrow> bytes \<Rightarrow> 'a arq_scheme \<Rightarrow>
    (arq_error + 'a arq_scheme \<times> send_call) option" where
  "send_begin fragmentSize data s =
     (if a_closed s then Some (Inl ErrTransportClosed)
      else let sq = a_nextSeq s + 1 in
        (case fragmentPayload data fragmentSize of
           None \<Rightarrow> None
         | Some fragments \<Rightarrow>
             Some (Inr (s\<lparr>a_nextSeq := sq, a_ackWaiters := AList.update sq None (a_ackWaiters s)\<rparr>,
               \<lparr>c_seq = sq, c_crc = ChecksumIEEE data, c_data = data, c_frags = fragments,
                c_pc = Enqueue 0 0\<rparr>))))"

text \<open>Returning runs the deferred removal of the waiter.\<close>

definition send_return :: "arq_error option \<Rightarrow> 'a arq_scheme \<Rightarrow> send_call \<Rightarrow> 'a arq_scheme \<times> send_call" where
  "send_return r s c = (s\<lparr>a_ackWaiters := AList.delete (c_seq c) (a_ackWaiters s)\<rparr>, c\<lparr>c_pc := Returned r\<rparr>)"

definition next_attempt :: "nat \<Rightarrow> nat \<Rightarrow> 'a arq_scheme \<Rightarrow> send_call \<Rightarrow> 'a arq_scheme \<times> send_call" where
  "next_attempt maxSendAttempts k s c =
     (if Suc k < maxSendAttempts then (s, c\<lparr>c_pc := Enqueue (Suc k) 0\<rparr>)
      else send_return (Some ErrAckTimeout) s c)"

definition send_step :: "u32 \<Rightarrow> nat \<Rightarrow> 'a arq_scheme \<times> send_call \<Rightarrow> ('a arq_scheme \<times> send_call) list" where
  "send_step magic maxSendAttempts = (\<lambda>(s, c). case c_pc c of
     Enqueue k i \<Rightarrow>
       map (\<lambda>r. case r of
              Inl e \<Rightarrow> send_return (Some e) s c
            | Inr s' \<Rightarrow> (s', c\<lparr>c_pc := if Suc i < length (c_frags c) then Enqueue k (Suc i) else Waiting k\<rparr>))
         (enqueueFrame
            (encodeDataFrame magic (c_seq c) (c_crc c) (length (c_data c)) i (length (c_frags c)) (c_frags c ! i))
            False s)
   | Waiting k \<Rightarrow>
       (case map_of (a_ackWaiters s) (c_seq c) of
          Some (Some ackCRC) \<Rightarrow>
            (let s' = s\<lparr>a_ackWaiters := AList.update (c_seq c) None (a_ackWaiters s)\<rparr>
             in if ackCRC = c_crc c then [send_return None s' c]
                else [next_attempt maxSendAttempts k s' c])
        | _ \<Rightarrow> [])
       @ [next_attempt maxSendAttempts k s c]
       @ (if a_closeCh s then [send_return (Some ErrTransportClosed) s c] else [])
   | Returned _ \<Rightarrow> [])"

section \<open>Receiving\<close>

text \<open>\<open>upsertInbound\<close>: the message's reassembly entry, created or replaced when the frame does
  not fit the one on record, with the fragment stored if its slot is empty. The result is the
  new map, the entry (\<open>None\<close> for \<open>nil\<close>) and whether it is complete.\<close>

definition fresh_message :: "transportFrame \<Rightarrow> inboundMessage" where
  "fresh_message frame =
     \<lparr>m_totalLen = f_totalLen frame, m_crc = f_crc frame,
      m_frags = replicate (unat (f_fragTotal frame)) None, m_remain = unat (f_fragTotal frame)\<rparr>"

definition fits :: "inboundMessage \<Rightarrow> transportFrame \<Rightarrow> bool" where
  "fits msg frame \<longleftrightarrow> m_crc msg = f_crc frame \<and> m_totalLen msg = f_totalLen frame
     \<and> length (m_frags msg) = unat (f_fragTotal frame)"

definition store_fragment :: "transportFrame \<Rightarrow> inboundMessage \<Rightarrow> inboundMessage" where
  "store_fragment frame msg =
     (if m_frags msg ! unat (f_fragIdx frame) = None
      then msg\<lparr>m_frags := (m_frags msg)[unat (f_fragIdx frame) := Some (f_payload frame)],
               m_remain := m_remain msg - 1\<rparr>
      else msg)"

definition upsertInbound :: "transportFrame \<Rightarrow> (u32 \<times> inboundMessage) list \<Rightarrow>
    (u32 \<times> inboundMessage) list \<times> inboundMessage option \<times> bool" where
  "upsertInbound frame inb =
     (let msg = (case map_of inb (f_seq frame) of
                   Some msg \<Rightarrow> if fits msg frame then msg else fresh_message frame
                 | None \<Rightarrow> fresh_message frame);
          inb' = AList.update (f_seq frame) msg inb
      in if length (m_frags msg) \<le> unat (f_fragIdx frame) then (inb', None, False)
         else let msg' = store_fragment frame msg
              in (AList.update (f_seq frame) msg' inb', Some msg', m_remain msg' = 0))"

definition assembleMessage :: "inboundMessage \<Rightarrow> bytes" where
  "assembleMessage msg =
     (let data = concat (map (\<lambda>f. case f of None \<Rightarrow> [] | Some b \<Rightarrow> b) (m_frags msg))
      in if m_totalLen msg < word_of_nat (length data) then take (unat (m_totalLen msg)) data else data)"

text \<open>\<open>handleInboundFrame\<close>: every path that acknowledges ends with the call \<open>sendAck(seq, crc)\<close>;
  the second component is that tail call, which may block on a full ack queue.\<close>

definition handleInboundFrame :: "transportFrame \<Rightarrow> 'a arq_scheme \<Rightarrow> 'a arq_scheme \<times> (u32 \<times> u32) option" where
  "handleInboundFrame frame s =
     (if map_of (a_delivered s) (f_seq frame) = Some (f_crc frame)
      then (s, Some (f_seq frame, f_crc frame))
      else (case upsertInbound frame (a_inbound s) of
          (inb, None, _) \<Rightarrow> (s\<lparr>a_inbound := inb\<rparr>, None)
        | (inb, Some msg, False) \<Rightarrow> (s\<lparr>a_inbound := inb\<rparr>, None)
        | (inb, Some msg, True) \<Rightarrow>
            (let s1 = s\<lparr>a_inbound := AList.delete (f_seq frame) inb\<rparr>;
                 data = assembleMessage msg
             in if ChecksumIEEE data \<noteq> m_crc msg then (s1, None)
                else let del = (if 256 < length (a_delivered s1) then [] else a_delivered s1);
                         s2 = s1\<lparr>a_delivered := AList.update (f_seq frame) (m_crc msg) del\<rparr>;
                         s3 = (if a_hasOnData s2 then s2\<lparr>a_app := a_app s2 @ [data]\<rparr> else s2)
                     in (s3, Some (f_seq frame, f_crc frame)))))"

definition sendAck :: "u32 \<Rightarrow> u32 \<Rightarrow> u32 \<Rightarrow> 'a arq_scheme \<Rightarrow> 'a arq_scheme list" where
  "sendAck magic sq c s =
     map (\<lambda>r. case r of Inl _ \<Rightarrow> s | Inr s' \<Rightarrow> s') (enqueueFrame (encodeAckFrame magic sq c) True s)"

definition resolveAck :: "u32 \<Rightarrow> u32 \<Rightarrow> 'a arq_scheme \<Rightarrow> 'a arq_scheme" where
  "resolveAck sq c s =
     (case map_of (a_ackWaiters s) sq of
        Some None \<Rightarrow> s\<lparr>a_ackWaiters := AList.update sq (Some c) (a_ackWaiters s)\<rparr>
      | _ \<Rightarrow> s)"

text \<open>The dispatch of one received transport frame, shared by \<open>handleSample\<close> and \<open>handleFrame\<close>.\<close>

definition dispatchFrame :: "u32 \<Rightarrow> bytes \<Rightarrow> 'a arq_scheme \<Rightarrow> 'a arq_scheme \<times> (u32 \<times> u32) option" where
  "dispatchFrame magic raw s =
     (case decodeTransportFrame magic raw of
        Inl _ \<Rightarrow> (s, None)
      | Inr frame \<Rightarrow>
          if f_typ frame = frameTypeAck then (resolveAck (f_seq frame) (f_crc frame) s, None)
          else if f_typ frame = frameTypeData then handleInboundFrame frame s
          else (s, None))"

section \<open>Closing\<close>

text \<open>The part of \<open>Close\<close> the engine sees: the closed flag, then the close channel, once.\<close>

definition arq_close :: "'a arq_scheme \<Rightarrow> 'a arq_scheme" where
  "arq_close s = (if a_closed s then s else s\<lparr>a_closed := True, a_closeCh := True\<rparr>)"

section \<open>Queue lemmas\<close>

lemma enqueueFrame_Inr:
  "Inr s' \<in> set (enqueueFrame f p s) \<longleftrightarrow> \<not> a_closed s \<and>
     (if p then length (a_outboundAck s) < outboundAck_cap \<and> s' = s\<lparr>a_outboundAck := a_outboundAck s @ [f]\<rparr>
      else length (a_outbound s) < outbound_cap \<and> s' = s\<lparr>a_outbound := a_outbound s @ [f]\<rparr>)"
  by (auto simp: enqueueFrame_def chan_send_def)

lemma enqueueFrame_Inl:
  "Inl e \<in> set (enqueueFrame f p s) \<longleftrightarrow> e = ErrTransportClosed \<and> (a_closed s \<or> a_closeCh s)"
  by (auto simp: enqueueFrame_def chan_send_def)

lemma enqueueFrame_blocks:
  "enqueueFrame f p s = [] \<longleftrightarrow> \<not> a_closed s \<and> \<not> a_closeCh s \<and>
     (if p then outboundAck_cap \<le> length (a_outboundAck s) else outbound_cap \<le> length (a_outbound s))"
  by (auto simp: enqueueFrame_def chan_send_def)

lemma nextOutboundFrame_Some:
  "((Some f, ok), s') \<in> set (nextOutboundFrame s) \<Longrightarrow> ok \<and>
     (a_outboundAck s = f # a_outboundAck s' \<and> s' = s\<lparr>a_outboundAck := a_outboundAck s'\<rparr>
      \<or> a_outboundAck s = [] \<and> a_outbound s = f # a_outbound s' \<and> s' = s\<lparr>a_outbound := a_outbound s'\<rparr>)"
  by (cases "a_outboundAck s"; cases "a_outbound s")
     (auto simp: nextOutboundFrame_def split: if_splits)

lemma nextOutboundFrame_keeps:
  "(r, s') \<in> set (nextOutboundFrame s) \<Longrightarrow>
     a_delivered s' = a_delivered s \<and> a_inbound s' = a_inbound s \<and> a_ackWaiters s' = a_ackWaiters s
     \<and> a_hasOnData s' = a_hasOnData s \<and> a_app s' = a_app s \<and> a_nextSeq s' = a_nextSeq s
     \<and> set (a_outbound s') \<subseteq> set (a_outbound s) \<and> set (a_outboundAck s') \<subseteq> set (a_outboundAck s)"
  by (cases "a_outboundAck s"; cases "a_outbound s")
     (auto simp: nextOutboundFrame_def split: if_splits)

lemma nextOutboundFrame_nonempty: "nextOutboundFrame s \<noteq> []"
  by (auto simp: nextOutboundFrame_def Let_def)

section \<open>The \<open>Send\<close> loop is finite\<close>

text \<open>The program counter stays inside the loop, and every step lowers this measure, whatever
  the other goroutines do to the state between the steps.\<close>

definition call_wf :: "nat \<Rightarrow> send_call \<Rightarrow> bool" where
  "call_wf maxSendAttempts c \<longleftrightarrow> (case c_pc c of
     Enqueue k i \<Rightarrow> k < maxSendAttempts \<and> i < length (c_frags c)
   | Waiting k \<Rightarrow> k < maxSendAttempts
   | Returned _ \<Rightarrow> True)"

definition steps_left :: "nat \<Rightarrow> send_call \<Rightarrow> nat" where
  "steps_left maxSendAttempts c =
     (let n = length (c_frags c) in case c_pc c of
        Enqueue k i \<Rightarrow> (maxSendAttempts - k) * (n + 2) - i
      | Waiting k \<Rightarrow> (maxSendAttempts - k) * (n + 2) - n
      | Returned _ \<Rightarrow> 0)"

lemma next_attempt_wf:
  "(s', c') = next_attempt m k s c \<Longrightarrow> c_frags c \<noteq> [] \<Longrightarrow>
    call_wf m c' \<and> c_frags c' = c_frags c \<and> c_seq c' = c_seq c \<and> c_crc c' = c_crc c \<and> c_data c' = c_data c"
  by (auto simp: next_attempt_def send_return_def call_wf_def split: if_splits)

lemma next_attempt_less:
  assumes "(s', c') = next_attempt m k s c" and "c_pc c = Waiting k" and "k < m"
  shows "steps_left m c' < steps_left m c"
proof -
  obtain j where m: "m = Suc k + j" using \<open>k < m\<close> less_iff_Suc_add by auto
  show ?thesis
    using assms by (auto simp: next_attempt_def send_return_def steps_left_def Let_def m split: if_splits)
qed

lemma send_return_less:
  assumes "(s', c') = send_return r s c" and "0 < steps_left m c"
  shows "steps_left m c' < steps_left m c \<and> call_wf m c'"
  using assms by (auto simp: send_return_def steps_left_def call_wf_def)

lemma steps_left_pos: "call_wf m c \<Longrightarrow> \<forall>r. c_pc c \<noteq> Returned r \<Longrightarrow> 0 < steps_left m c"
proof -
  assume a: "call_wf m c" "\<forall>r. c_pc c \<noteq> Returned r"
  then obtain k where k: "k < m" "c_pc c = Waiting k \<or> (\<exists>i < length (c_frags c). c_pc c = Enqueue k i)"
    by (cases "c_pc c") (auto simp: call_wf_def)
  then obtain j where m: "m = Suc k + j" using less_iff_Suc_add by auto
  from k show ?thesis by (auto simp: steps_left_def Let_def m)
qed

lemma send_step_frame:
  assumes "(s', c') \<in> set (send_step magic m (s, c))"
  shows "c_frags c' = c_frags c" "c_seq c' = c_seq c" "c_crc c' = c_crc c" "c_data c' = c_data c"
  using assms
  by (auto simp: send_step_def next_attempt_def send_return_def Let_def
      split: send_pc.splits sum.splits option.splits if_splits)

lemma send_step_Waiting:
  assumes "(s', c') \<in> set (send_step magic m (s, c))" and "c_pc c = Waiting k"
  shows "(s', c') = next_attempt m k s c \<or> (s', c') = send_return (Some ErrTransportClosed) s c
    \<or> (\<exists>a. map_of (a_ackWaiters s) (c_seq c) = Some (Some a) \<and>
        (let s1 = s\<lparr>a_ackWaiters := AList.update (c_seq c) None (a_ackWaiters s)\<rparr> in
          if a = c_crc c then (s', c') = send_return None s1 c else (s', c') = next_attempt m k s1 c))"
  using assms
  by (cases "map_of (a_ackWaiters s) (c_seq c)")
     (auto simp: send_step_def Let_def split: option.splits if_splits)

lemma send_step_decreases:
  assumes st: "(s', c') \<in> set (send_step magic m (s, c))" and wf: "call_wf m c" and ne: "c_frags c \<noteq> []"
  shows "call_wf m c' \<and> steps_left m c' < steps_left m c"
proof (cases "c_pc c")
  case (Enqueue k i)
  with wf have k: "k < m" "i < length (c_frags c)" by (auto simp: call_wf_def)
  then obtain j where m: "m = Suc k + j" using less_iff_Suc_add by auto
  have pos: "0 < steps_left m c" using steps_left_pos [OF wf] Enqueue by simp
  from st Enqueue consider e where "(s', c') = send_return (Some e) s c"
    | "c' = c\<lparr>c_pc := if Suc i < length (c_frags c) then Enqueue k (Suc i) else Waiting k\<rparr>"
    by (auto simp: send_step_def split: sum.splits)
  then show ?thesis
  proof cases
    case 1
    then show ?thesis using send_return_less pos by blast
  next
    case 2
    then show ?thesis using k Enqueue by (auto simp: call_wf_def steps_left_def Let_def m)
  qed
next
  case (Waiting k)
  with wf have k: "k < m" by (auto simp: call_wf_def)
  have pos: "0 < steps_left m c" using steps_left_pos [OF wf] Waiting by simp
  from st Waiting consider r s1 where "(s', c') = send_return r s1 c"
    | s1 where "(s', c') = next_attempt m k s1 c"
    by (auto simp: send_step_def Let_def split: option.splits if_splits)
  then show ?thesis
  proof cases
    case 1
    then show ?thesis using send_return_less pos by blast
  next
    case 2
    then show ?thesis using next_attempt_wf ne next_attempt_less [OF 2 Waiting k] by blast
  qed
next
  case (Returned r)
  with st show ?thesis by (simp add: send_step_def)
qed

text \<open>\<open>send_run m n c c'\<close>: the call makes \<open>n\<close> steps of its own, the engine state being
  anything at each of them.\<close>

inductive send_run :: "u32 \<Rightarrow> nat \<Rightarrow> nat \<Rightarrow> send_call \<Rightarrow> send_call \<Rightarrow> bool" for magic m where
  run_refl: "send_run magic m 0 c c"
| run_step: "send_run magic m n c c' \<Longrightarrow> (s'', c'') \<in> set (send_step magic m (s' :: arq, c')) \<Longrightarrow>
    send_run magic m (Suc n) c c''"

lemma send_run_bound:
  "send_run magic m n c c' \<Longrightarrow> call_wf m c \<Longrightarrow> c_frags c \<noteq> [] \<Longrightarrow>
    call_wf m c' \<and> c_frags c' = c_frags c \<and> n + steps_left m c' \<le> steps_left m c"
proof (induction rule: send_run.induct)
  case (run_refl c)
  then show ?case by simp
next
  case (run_step n c c' s'' c'' s')
  then have "call_wf m c'" "c_frags c' = c_frags c" "n + steps_left m c' \<le> steps_left m c" by auto
  moreover from this run_step.hyps(2) run_step.prems
  have "call_wf m c'' \<and> steps_left m c'' < steps_left m c'" by (metis send_step_decreases)
  moreover have "c_frags c'' = c_frags c'" using send_step_frame(1) run_step.hyps(2) by blast
  ultimately show ?case by auto
qed

lemma send_begin_call:
  assumes "send_begin fs data s = Some (Inr (s', c))" and "0 < m"
  shows "call_wf m c" "c_frags c \<noteq> []" "c_data c = data" "c_crc c = ChecksumIEEE data"
    "fragmentPayload data fs = Some (c_frags c)" "c_seq c = a_nextSeq s + 1" "c_pc c = Enqueue 0 0"
  using assms fragmentPayload_nonempty
  by (auto simp: send_begin_def Let_def call_wf_def split: if_splits option.splits)

end
