(* ===== verification/Reliable_System.thy ===== *)
theory Reliable_System
  imports Reliable
begin

text \<open>
  Two endpoints running the engine of \<open>Reliable\<close> over a network that may lose, duplicate and
  reorder the frames written to it, but not forge any. A step is one goroutine moving: a call
  of \<open>Send\<close> beginning, stepping or returning, the writer loop taking a frame, the receive loop
  handling one, the receive loop's pending \<open>sendAck\<close>, or \<open>Close\<close>. The end-to-end contract:
  what an endpoint hands to its application was sent by the peer, and a \<open>Send\<close> that returned
  \<open>nil\<close> has been handed to the peer's application.
\<close>

section \<open>The system\<close>

text \<open>\<open>y_hist\<close>, \<open>y_deliv\<close> and \<open>y_ok\<close> are history variables: the accepted sends, the deliveries
  with their sequence numbers, the sequence numbers of the sends that returned \<open>nil\<close>.\<close>

record sys =
  y_ep :: "bool \<Rightarrow> arq"
  y_call :: "bool \<Rightarrow> send_call option"
  y_pend :: "bool \<Rightarrow> (u32 \<times> u32) option"
  y_net :: "bool \<Rightarrow> bytes set"
  y_hist :: "bool \<Rightarrow> (u32 \<times> bytes) list"
  y_deliv :: "bool \<Rightarrow> (u32 \<times> bytes) list"
  y_ok :: "bool \<Rightarrow> u32 set"

definition sys_init :: sys where
  "sys_init = \<lparr>y_ep = (\<lambda>_. arq_new True), y_call = (\<lambda>_. None), y_pend = (\<lambda>_. None),
     y_net = (\<lambda>_. {}), y_hist = (\<lambda>_. []), y_deliv = (\<lambda>_. []), y_ok = (\<lambda>_. {})\<rparr>"

definition frame_seq :: "u32 \<Rightarrow> bytes \<Rightarrow> u32" where
  "frame_seq magic raw = (case decodeTransportFrame magic raw of Inr f \<Rightarrow> f_seq f | Inl _ \<Rightarrow> 0)"

text \<open>The messages that one receive step handed to \<open>onData\<close>.\<close>

definition new_app :: "arq \<Rightarrow> arq \<Rightarrow> bytes list" where
  "new_app s s' = drop (length (a_app s)) (a_app s')"

text \<open>Payloads are bounded by the widths of the frame header: a 32-bit length and a 16-bit
  fragment count. One endpoint makes fewer than \<open>2 ^ 32\<close> sends.\<close>

definition in_bounds :: "int \<Rightarrow> bytes \<Rightarrow> bool" where
  "in_bounds fs data \<longleftrightarrow> length data < 2 ^ 32
     \<and> (\<forall>fr. fragmentPayload data fs = Some fr \<longrightarrow> length fr < 2 ^ 16)"

inductive sys_step :: "u32 \<Rightarrow> nat \<Rightarrow> int \<Rightarrow> sys \<Rightarrow> sys \<Rightarrow> bool" for magic maxA fs where
  Send: "y_call S x = None \<Longrightarrow> Suc (length (y_hist S x)) < 2 ^ 32 \<Longrightarrow> in_bounds fs data \<Longrightarrow>
    send_begin fs data (y_ep S x) = Some (Inr (s', c)) \<Longrightarrow>
    sys_step magic maxA fs S (S\<lparr>y_ep := (y_ep S)(x := s'), y_call := (y_call S)(x := Some c),
      y_hist := (y_hist S)(x := y_hist S x @ [(c_seq c, data)])\<rparr>)"
| Step: "y_call S x = Some c \<Longrightarrow> (s', c') \<in> set (send_step magic maxA (y_ep S x, c)) \<Longrightarrow>
    sys_step magic maxA fs S (S\<lparr>y_ep := (y_ep S)(x := s'), y_call := (y_call S)(x := Some c')\<rparr>)"
| Return: "y_call S x = Some c \<Longrightarrow> c_pc c = Returned r \<Longrightarrow>
    sys_step magic maxA fs S (S\<lparr>y_call := (y_call S)(x := None),
      y_ok := (y_ok S)(x := (if r = None then insert (c_seq c) (y_ok S x) else y_ok S x))\<rparr>)"
| Write: "((Some f, ok), s') \<in> set (nextOutboundFrame (y_ep S x)) \<Longrightarrow>
    sys_step magic maxA fs S (S\<lparr>y_ep := (y_ep S)(x := s'), y_net := (y_net S)(x := insert f (y_net S x))\<rparr>)"
| Receive: "y_pend S x = None \<Longrightarrow> raw \<in> y_net S (\<not> x) \<Longrightarrow> dispatchFrame magic raw (y_ep S x) = (s', p) \<Longrightarrow>
    sys_step magic maxA fs S (S\<lparr>y_ep := (y_ep S)(x := s'), y_pend := (y_pend S)(x := p),
      y_deliv := (y_deliv S)(x := y_deliv S x @ map (Pair (frame_seq magic raw)) (new_app (y_ep S x) s'))\<rparr>)"
| Ack: "y_pend S x = Some (q, c) \<Longrightarrow> s' \<in> set (sendAck magic q c (y_ep S x)) \<Longrightarrow>
    sys_step magic maxA fs S (S\<lparr>y_ep := (y_ep S)(x := s'), y_pend := (y_pend S)(x := None)\<rparr>)"
| Close: "sys_step magic maxA fs S (S\<lparr>y_ep := (y_ep S)(x := arq_close (y_ep S x))\<rparr>)"

inductive sys_reachable :: "u32 \<Rightarrow> nat \<Rightarrow> int \<Rightarrow> sys \<Rightarrow> bool" for magic maxA fs where
  init: "sys_reachable magic maxA fs sys_init"
| step: "sys_reachable magic maxA fs S \<Longrightarrow> sys_step magic maxA fs S S' \<Longrightarrow> sys_reachable magic maxA fs S'"

section \<open>What one endpoint keeps\<close>

text \<open>The fragments of a message; the frames a message may put on the wire; a message known to
  be delivered, seen through its checksum.\<close>

definition frags :: "int \<Rightarrow> bytes \<Rightarrow> bytes list" where
  "frags fs d = the (fragmentPayload d fs)"

definition data_frame :: "u32 \<Rightarrow> int \<Rightarrow> u32 \<Rightarrow> bytes \<Rightarrow> nat \<Rightarrow> bytes" where
  "data_frame magic fs q d i =
     encodeDataFrame magic q (ChecksumIEEE d) (length d) i (length (frags fs d)) (frags fs d ! i)"

definition acked :: "(u32 \<times> bytes) set \<Rightarrow> u32 \<Rightarrow> u32 \<Rightarrow> bool" where
  "acked D q c \<longleftrightarrow> (\<exists>d. (q, d) \<in> D \<and> c = ChecksumIEEE d)"

definition good_frame :: "u32 \<Rightarrow> int \<Rightarrow> (u32 \<times> bytes) set \<Rightarrow> (u32 \<times> bytes) set \<Rightarrow> bytes \<Rightarrow> bool" where
  "good_frame magic fs H D raw \<longleftrightarrow>
     (\<exists>q d i. (q, d) \<in> H \<and> i < length (frags fs d) \<and> raw = data_frame magic fs q d i)
   \<or> (\<exists>q c. acked D q c \<and> raw = encodeAckFrame magic q c)"

definition missing :: "bytes option list \<Rightarrow> nat" where
  "missing xs = length (filter (\<lambda>f. f = None) xs)"

definition entry_ok :: "int \<Rightarrow> bytes \<Rightarrow> inboundMessage \<Rightarrow> bool" where
  "entry_ok fs d msg \<longleftrightarrow> m_crc msg = ChecksumIEEE d \<and> m_totalLen msg = word_of_nat (length d)
     \<and> length (m_frags msg) = length (frags fs d) \<and> m_remain msg = missing (m_frags msg)
     \<and> (\<forall>i b. i < length (m_frags msg) \<longrightarrow> m_frags msg ! i = Some b \<longrightarrow> b = frags fs d ! i)"

text \<open>\<open>H\<close>, \<open>D\<close> are the endpoint's own sends and deliveries, \<open>H'\<close>, \<open>D'\<close> the peer's.\<close>

definition ep_ok :: "u32 \<Rightarrow> int \<Rightarrow> (u32 \<times> bytes) set \<Rightarrow> (u32 \<times> bytes) set \<Rightarrow>
    (u32 \<times> bytes) set \<Rightarrow> (u32 \<times> bytes) set \<Rightarrow> arq \<Rightarrow> bool" where
  "ep_ok magic fs H D H' D' s \<longleftrightarrow>
     (\<forall>raw \<in> set (a_outbound s) \<union> set (a_outboundAck s). good_frame magic fs H D raw)
   \<and> (\<forall>q c. map_of (a_delivered s) q = Some c \<longrightarrow> acked D q c)
   \<and> (\<forall>q msg. map_of (a_inbound s) q = Some msg \<longrightarrow> (\<exists>d. (q, d) \<in> H' \<and> entry_ok fs d msg))
   \<and> (\<forall>q c. map_of (a_ackWaiters s) q = Some (Some c) \<longrightarrow> acked D' q c)
   \<and> a_hasOnData s"

lemma acked_mono: "acked D q c \<Longrightarrow> D \<subseteq> E \<Longrightarrow> acked E q c"
  by (auto simp: acked_def)

lemma good_frame_mono: "good_frame magic fs H D raw \<Longrightarrow> H \<subseteq> K \<Longrightarrow> D \<subseteq> E \<Longrightarrow> good_frame magic fs K E raw"
  unfolding good_frame_def using acked_mono by blast

lemma ep_ok_mono:
  assumes "ep_ok magic fs H D H' D' s" and "H \<subseteq> K" "D \<subseteq> E" "H' \<subseteq> K'" "D' \<subseteq> E'"
  shows "ep_ok magic fs K E K' E' s"
  using assms unfolding ep_ok_def by (meson acked_mono good_frame_mono subsetD)

lemma ep_ok_new: "ep_ok magic fs H D H' D' (arq_new True)"
  by (simp add: ep_ok_def arq_new_def)

lemma ep_ok_enqueue:
  "ep_ok magic fs H D H' D' s \<Longrightarrow> good_frame magic fs H D f \<Longrightarrow> Inr s' \<in> set (enqueueFrame f p s) \<Longrightarrow>
    ep_ok magic fs H D H' D' s'"
  by (auto simp: ep_ok_def enqueueFrame_Inr split: if_splits)

lemma ep_ok_write:
  assumes "ep_ok magic fs H D H' D' s" and "((Some f, ok), s') \<in> set (nextOutboundFrame s)"
  shows "ep_ok magic fs H D H' D' s' \<and> good_frame magic fs H D f"
proof -
  have "f \<in> set (a_outbound s) \<union> set (a_outboundAck s)"
    using nextOutboundFrame_Some [OF assms(2)] by auto
  then show ?thesis
    using assms(1) nextOutboundFrame_keeps [OF assms(2)] unfolding ep_ok_def by auto
qed

lemma ep_ok_close: "ep_ok magic fs H D H' D' s \<Longrightarrow> ep_ok magic fs H D H' D' (arq_close s)"
  by (simp add: ep_ok_def arq_close_def)

lemma ep_ok_resolve:
  "ep_ok magic fs H D H' D' s \<Longrightarrow> acked D' q c \<Longrightarrow> ep_ok magic fs H D H' D' (resolveAck q c s)"
  by (auto simp: ep_ok_def resolveAck_def split: option.splits)

lemma ep_ok_sendAck:
  assumes "ep_ok magic fs H D H' D' s" and "acked D q c" and "s' \<in> set (sendAck magic q c s)"
  shows "ep_ok magic fs H D H' D' s'"
proof -
  have "good_frame magic fs H D (encodeAckFrame magic q c)"
    using assms(2) by (auto simp: good_frame_def)
  with assms show ?thesis by (auto simp: sendAck_def split: sum.splits intro: ep_ok_enqueue)
qed

section \<open>Receiving a peer's frame\<close>

text \<open>Sequence numbers name messages uniquely, and every message is within the header's widths.\<close>

definition hist_ok :: "int \<Rightarrow> (u32 \<times> bytes) set \<Rightarrow> bool" where
  "hist_ok fs H \<longleftrightarrow> (\<forall>q d d'. (q, d) \<in> H \<longrightarrow> (q, d') \<in> H \<longrightarrow> d = d')
     \<and> (\<forall>q d. (q, d) \<in> H \<longrightarrow> in_bounds fs d \<and> fragmentPayload d fs = Some (frags fs d))"

lemma hist_okD:
  assumes "hist_ok fs H" and "(q, d) \<in> H"
  shows "length d < 2 ^ 32" "length (frags fs d) < 2 ^ 16" "concat (frags fs d) = d"
    "(q, d') \<in> H \<Longrightarrow> d' = d"
proof -
  from assms have e: "fragmentPayload d fs = Some (frags fs d)" and b: "in_bounds fs d"
    by (auto simp: hist_ok_def)
  then show "length d < 2 ^ 32" "length (frags fs d) < 2 ^ 16" by (auto simp: in_bounds_def)
  show "concat (frags fs d) = d" using e by (rule fragmentPayload_concat)
  show "(q, d') \<in> H \<Longrightarrow> d' = d" using assms by (auto simp: hist_ok_def)
qed

lemma unat_of_nat16: "n < 2 ^ 16 \<Longrightarrow> unat (word_of_nat n :: u16) = n"
  by (simp add: unat_of_nat)

lemma unat_of_nat32: "n < 2 ^ 32 \<Longrightarrow> unat (word_of_nat n :: u32) = n"
  by (simp add: unat_of_nat)

lemma missing_replicate: "missing (replicate n None) = n"
  by (induction n) (simp_all add: missing_def)

lemma missing_update:
  "i < length xs \<Longrightarrow> xs ! i = None \<Longrightarrow> missing (xs[i := Some b]) = missing xs - 1"
proof (induction xs arbitrary: i)
  case (Cons x xs)
  have "missing xs \<noteq> 0" if "i < length xs" "xs ! i = None" for i
    using that nth_mem [of i xs] by (auto simp: missing_def filter_empty_conv)
  with Cons show ?case by (cases i) (fastforce simp: missing_def)+
qed simp

lemma missing_0: "missing xs = 0 \<Longrightarrow> i < length xs \<Longrightarrow> \<exists>b. xs ! i = Some b"
  by (fastforce simp: missing_def filter_empty_conv)

lemma entry_ok_fresh:
  "length (frags fs d) < 2 ^ 16 \<Longrightarrow> f_crc f = ChecksumIEEE d \<Longrightarrow> f_totalLen f = word_of_nat (length d) \<Longrightarrow>
   f_fragTotal f = word_of_nat (length (frags fs d)) \<Longrightarrow> entry_ok fs d (fresh_message f)"
  by (simp add: entry_ok_def fresh_message_def unat_of_nat16 missing_replicate)

lemma entry_ok_store:
  assumes "entry_ok fs d msg" and "unat (f_fragIdx f) < length (m_frags msg)"
    and "f_payload f = frags fs d ! unat (f_fragIdx f)"
  shows "entry_ok fs d (store_fragment f msg)"
  using assms by (auto simp: entry_ok_def store_fragment_def nth_list_update missing_update split: if_splits)

lemma entry_complete:
  assumes "entry_ok fs d msg" and "m_remain msg = 0" and "concat (frags fs d) = d"
  shows "assembleMessage msg = d" "m_crc msg = ChecksumIEEE d"
proof -
  have "map (\<lambda>f. case f of None \<Rightarrow> [] | Some b \<Rightarrow> b) (m_frags msg) = frags fs d"
  proof (rule nth_equalityI)
    fix i assume "i < length (map (\<lambda>f. case f of None \<Rightarrow> [] | Some b \<Rightarrow> b) (m_frags msg))"
    then have i: "i < length (m_frags msg)" by simp
    moreover from i obtain b where "m_frags msg ! i = Some b"
      using assms(1,2) missing_0 [of "m_frags msg" i] by (auto simp: entry_ok_def)
    ultimately show "map (\<lambda>f. case f of None \<Rightarrow> [] | Some b \<Rightarrow> b) (m_frags msg) ! i = frags fs d ! i"
      using assms(1) by (auto simp: entry_ok_def)
  qed (use assms(1) in \<open>simp add: entry_ok_def\<close>)
  then show "assembleMessage msg = d"
    using assms(1,3) by (simp add: assembleMessage_def entry_ok_def)
  show "m_crc msg = ChecksumIEEE d" using assms(1) by (simp add: entry_ok_def)
qed

text \<open>A frame of message \<open>(q, d)\<close>, as decoded.\<close>

definition frame_of :: "int \<Rightarrow> u32 \<Rightarrow> bytes \<Rightarrow> nat \<Rightarrow> transportFrame" where
  "frame_of fs q d i =
     \<lparr>f_typ = frameTypeData, f_seq = q, f_crc = ChecksumIEEE d, f_totalLen = word_of_nat (length d),
      f_fragIdx = word_of_nat i, f_fragTotal = word_of_nat (length (frags fs d)), f_payload = frags fs d ! i\<rparr>"

lemma decode_data_frame: "decodeTransportFrame magic (data_frame magic fs q d i) = Inr (frame_of fs q d i)"
  by (simp add: data_frame_def frame_of_def)

lemma upsert_ok:
  assumes inv: "\<forall>q msg. map_of inb q = Some msg \<longrightarrow> (\<exists>d. (q, d) \<in> H \<and> entry_ok fs d msg)"
    and H: "hist_ok fs H" "(q, d) \<in> H" and i: "i < length (frags fs d)"
    and up: "upsertInbound (frame_of fs q d i) inb = (inb', mo, complete)"
  shows "\<exists>msg. mo = Some msg \<and> entry_ok fs d msg \<and> complete = (m_remain msg = 0)
    \<and> map_of inb' = (map_of inb)(q \<mapsto> msg)"
proof -
  note B = hist_okD [OF H]
  let ?f = "frame_of fs q d i"
  define m0 where "m0 = (case map_of inb q of Some m \<Rightarrow> if fits m ?f then m else fresh_message ?f
                           | None \<Rightarrow> fresh_message ?f)"
  have fresh: "entry_ok fs d (fresh_message ?f)"
    using B(2) by (intro entry_ok_fresh) (simp_all add: frame_of_def)
  have "entry_ok fs d m0"
  proof (cases "map_of inb q")
    case None
    then show ?thesis by (simp add: m0_def fresh)
  next
    case (Some m)
    with inv obtain d' where "(q, d') \<in> H" "entry_ok fs d' m" by blast
    with B(4) have "entry_ok fs d m" by blast
    with Some fresh show ?thesis by (simp add: m0_def)
  qed
  moreover have idx: "unat (f_fragIdx ?f) = i"
    using i B(2) by (simp add: frame_of_def unat_of_nat16)
  moreover have len: "i < length (m_frags m0)"
    using \<open>entry_ok fs d m0\<close> i by (simp add: entry_ok_def)
  ultimately have ok: "entry_ok fs d (store_fragment ?f m0)"
    by (intro entry_ok_store) (simp_all add: idx, simp add: frame_of_def)
  have fseq: "f_seq ?f = q" by (simp add: frame_of_def)
  have "mo = Some (store_fragment ?f m0)" "complete = (m_remain (store_fragment ?f m0) = 0)"
    "inb' = AList.update q (store_fragment ?f m0) (AList.update q m0 inb)"
    using up len unfolding upsertInbound_def fseq idx m0_def [symmetric] Let_def by auto
  with ok show ?thesis by (auto simp: update_conv' fun_eq_iff)
qed

text \<open>Receiving any frame of the peer keeps the endpoint, delivers only the message the frame
  belongs to, and acknowledges only what has been delivered.\<close>

lemma receive_data_ok:
  assumes ok: "ep_ok magic fs H D H' D' s" and hist: "hist_ok fs H'"
    and m: "(q, d) \<in> H'" "i < length (frags fs d)"
    and h: "handleInboundFrame (frame_of fs q d i) s = (s', p)"
  shows "\<exists>new. new_app s s' = new \<and> a_app s' = a_app s @ new \<and> set new \<subseteq> {d}
    \<and> ep_ok magic fs H (D \<union> Pair q ` set new) H' D' s'
    \<and> (\<forall>q' c. p = Some (q', c) \<longrightarrow> acked (D \<union> Pair q ` set new) q' c)
    \<and> a_nextSeq s' = a_nextSeq s"
proof (cases "map_of (a_delivered s) q = Some (ChecksumIEEE d)")
  case True
  with h have "s' = s" "p = Some (q, ChecksumIEEE d)"
    by (auto simp: handleInboundFrame_def frame_of_def)
  moreover from ok True have "acked D q (ChecksumIEEE d)" by (auto simp: ep_ok_def)
  ultimately show ?thesis using ok by (auto simp: new_app_def)
next
  case False
  obtain inb' mo complete where up: "upsertInbound (frame_of fs q d i) (a_inbound s) = (inb', mo, complete)"
    by (metis prod_cases3)
  have inv: "\<forall>q msg. map_of (a_inbound s) q = Some msg \<longrightarrow> (\<exists>d. (q, d) \<in> H' \<and> entry_ok fs d msg)"
    using ok by (simp add: ep_ok_def)
  from upsert_ok [OF inv hist m up] obtain msg where
    msg: "mo = Some msg" "entry_ok fs d msg" "complete = (m_remain msg = 0)"
      "map_of inb' = (map_of (a_inbound s))(q \<mapsto> msg)" by blast
  show ?thesis
  proof (cases complete)
    case False
    with h up msg \<open>map_of (a_delivered s) q \<noteq> _\<close> have "s' = s\<lparr>a_inbound := inb'\<rparr>" "p = None"
      by (auto simp: handleInboundFrame_def frame_of_def)
    with ok msg m show ?thesis by (auto simp: ep_ok_def new_app_def)
  next
    case True
    with msg have "m_remain msg = 0" by simp
    with entry_complete [OF msg(2)] hist_okD(3) [OF hist m(1)]
    have asm: "assembleMessage msg = d" "m_crc msg = ChecksumIEEE d" by auto
    from ok have hasOnData: "a_hasOnData s" by (simp add: ep_ok_def)
    from h up msg True asm hasOnData \<open>map_of (a_delivered s) q \<noteq> _\<close>
    have s': "s' = s\<lparr>a_inbound := AList.delete q inb',
        a_delivered := AList.update q (ChecksumIEEE d)
          (if 256 < length (a_delivered s) then [] else a_delivered s),
        a_app := a_app s @ [d]\<rparr>" and p: "p = Some (q, ChecksumIEEE d)"
      by (auto simp: handleInboundFrame_def frame_of_def Let_def)
    have "acked (D \<union> {(q, d)}) q (ChecksumIEEE d)" by (auto simp: acked_def)
    moreover have "acked D q' c \<Longrightarrow> acked (D \<union> {(q, d)}) q' c" for q' c
      by (erule acked_mono) blast
    moreover have "good_frame magic fs H D raw \<Longrightarrow> good_frame magic fs H (D \<union> {(q, d)}) raw" for raw
      by (erule good_frame_mono) blast+
    ultimately show ?thesis
      using ok msg m p by (intro exI [of _ "[d]"]) (auto simp: s' ep_ok_def new_app_def)
  qed
qed

lemma receive_ok:
  assumes ok: "ep_ok magic fs H D H' D' s" and hist: "hist_ok fs H'"
    and raw: "good_frame magic fs H' D' raw" and d: "dispatchFrame magic raw s = (s', p)"
  defines "new \<equiv> map (Pair (frame_seq magic raw)) (new_app s s')"
  shows "set new \<subseteq> H'" "ep_ok magic fs H (D \<union> set new) H' D' s'"
    "\<forall>q c. p = Some (q, c) \<longrightarrow> acked (D \<union> set new) q c"
    "a_app s' = a_app s @ map snd new" "a_nextSeq s' = a_nextSeq s"
proof -
  have "set new \<subseteq> H' \<and> ep_ok magic fs H (D \<union> set new) H' D' s'
    \<and> (\<forall>q c. p = Some (q, c) \<longrightarrow> acked (D \<union> set new) q c)
    \<and> a_app s' = a_app s @ map snd new \<and> a_nextSeq s' = a_nextSeq s"
    using raw unfolding good_frame_def
  proof (elim disjE exE conjE)
    fix q d i assume m: "(q, d) \<in> H'" "i < length (frags fs d)" "raw = data_frame magic fs q d i"
    with d have "handleInboundFrame (frame_of fs q d i) s = (s', p)"
      by (simp add: dispatchFrame_def decode_data_frame) (simp add: frame_of_def frame_consts)
    from receive_data_ok [OF ok hist m(1,2) this] m show ?thesis
      by (auto simp: new_def frame_seq_def decode_data_frame o_def) (auto simp: frame_of_def)
  next
    fix q c assume "acked D' q c" "raw = encodeAckFrame magic q c"
    with d have "s' = resolveAck q c s" "p = None"
      by (auto simp: dispatchFrame_def empty_frame_def)
    moreover have "a_app (resolveAck q c s) = a_app s" "a_nextSeq (resolveAck q c s) = a_nextSeq s"
      by (auto simp: resolveAck_def split: option.splits)
    ultimately show ?thesis
      using ep_ok_resolve [OF ok \<open>acked D' q c\<close>] by (simp add: new_def new_app_def)
  qed
  then show "set new \<subseteq> H'" "ep_ok magic fs H (D \<union> set new) H' D' s'"
    "\<forall>q c. p = Some (q, c) \<longrightarrow> acked (D \<union> set new) q c"
    "a_app s' = a_app s @ map snd new" "a_nextSeq s' = a_nextSeq s" by auto
qed

section \<open>The system invariant\<close>

definition numbered :: "(u32 \<times> bytes) list \<Rightarrow> bool" where
  "numbered hs \<longleftrightarrow> length hs < 2 ^ 32 \<and> map fst hs = map (\<lambda>i. word_of_nat (Suc i)) [0..<length hs]"

lemma numbered_distinct: "numbered hs \<Longrightarrow> distinct (map fst hs)"
proof -
  assume n: "numbered hs"
  have "inj_on (\<lambda>i. word_of_nat (Suc i) :: u32) {0..<length hs}"
  proof (rule inj_onI)
    fix i j assume "i \<in> {0..<length hs}" "j \<in> {0..<length hs}"
      and e: "(word_of_nat (Suc i) :: u32) = word_of_nat (Suc j)"
    then have "Suc i < 2 ^ 32" "Suc j < 2 ^ 32" using n by (auto simp: numbered_def)
    with e show "i = j" by (metis unat_of_nat32 Suc_inject)
  qed
  with n show ?thesis by (simp add: numbered_def distinct_map)
qed

definition call_ok :: "int \<Rightarrow> (u32 \<times> bytes) set \<Rightarrow> (u32 \<times> bytes) set \<Rightarrow> send_call \<Rightarrow> bool" where
  "call_ok fs H D' c \<longleftrightarrow> (c_seq c, c_data c) \<in> H \<and> c_crc c = ChecksumIEEE (c_data c)
     \<and> c_frags c = frags fs (c_data c) \<and> c_frags c \<noteq> []
     \<and> (\<forall>k i. c_pc c = Enqueue k i \<longrightarrow> i < length (c_frags c))
     \<and> (c_pc c = Returned None \<longrightarrow> acked D' (c_seq c) (c_crc c))"

lemma call_ok_mono: "call_ok fs H D' c \<Longrightarrow> H \<subseteq> K \<Longrightarrow> D' \<subseteq> E \<Longrightarrow> call_ok fs K E c"
  using acked_mono by (fastforce simp: call_ok_def)

lemma send_step_ok:
  assumes ok: "ep_ok magic fs H D H' D' s" and c: "call_ok fs H D' c"
    and st: "(s', c') \<in> set (send_step magic m (s, c))"
  shows "ep_ok magic fs H D H' D' s' \<and> call_ok fs H D' c' \<and> a_nextSeq s' = a_nextSeq s \<and> a_app s' = a_app s"
proof (cases "c_pc c")
  case (Enqueue k i)
  let ?f = "encodeDataFrame magic (c_seq c) (c_crc c) (length (c_data c)) i (length (c_frags c)) (c_frags c ! i)"
  have "?f = data_frame magic fs (c_seq c) (c_data c) i" "i < length (frags fs (c_data c))"
    "(c_seq c, c_data c) \<in> H"
    using c Enqueue by (auto simp: call_ok_def data_frame_def)
  then have good: "good_frame magic fs H D ?f" unfolding good_frame_def by blast
  from st Enqueue consider e where "(s', c') = send_return (Some e) s c"
    | "c' = c\<lparr>c_pc := if Suc i < length (c_frags c) then Enqueue k (Suc i) else Waiting k\<rparr>"
      "Inr s' \<in> set (enqueueFrame ?f False s)"
    by (auto simp: send_step_def split: sum.splits)
  then show ?thesis
  proof cases
    case 1
    then show ?thesis using ok c by (auto simp: send_return_def ep_ok_def call_ok_def)
  next
    case 2
    with ep_ok_enqueue [OF ok good] have "ep_ok magic fs H D H' D' s'" by blast
    with 2 c show ?thesis by (auto simp: call_ok_def enqueueFrame_Inr)
  qed
next
  case (Waiting k)
  have ret: "(s', c') = send_return (Some e) s1 c \<or> (s', c') = next_attempt m k s1 c \<Longrightarrow>
      ep_ok magic fs H D H' D' s1 \<Longrightarrow>
      ep_ok magic fs H D H' D' s' \<and> call_ok fs H D' c' \<and> a_nextSeq s' = a_nextSeq s1 \<and> a_app s' = a_app s1" for e s1
    using c by (auto simp: send_return_def next_attempt_def ep_ok_def call_ok_def split: if_splits)
  let ?s1 = "s\<lparr>a_ackWaiters := AList.update (c_seq c) None (a_ackWaiters s)\<rparr>"
  have s1: "ep_ok magic fs H D H' D' ?s1" using ok by (auto simp: ep_ok_def)
  from send_step_Waiting [OF st Waiting] consider
      "(s', c') = next_attempt m k s c \<or> (s', c') = send_return (Some ErrTransportClosed) s c"
    | a where "map_of (a_ackWaiters s) (c_seq c) = Some (Some a)" "a = c_crc c" "(s', c') = send_return None ?s1 c"
    | "(s', c') = next_attempt m k ?s1 c"
    by (auto simp: Let_def split: if_splits)
  then show ?thesis
  proof cases
    case 1
    with ret [of _ s] ok show ?thesis by blast
  next
    case (2 a)
    with ok have "acked D' (c_seq c) (c_crc c)" by (auto simp: ep_ok_def)
    with 2 c s1 show ?thesis by (auto simp: send_return_def call_ok_def ep_ok_def)
  next
    case 3
    with ret [of _ ?s1] s1 show ?thesis by auto
  qed
next
  case (Returned r)
  with st show ?thesis by (simp add: send_step_def)
qed

definition side_inv :: "u32 \<Rightarrow> int \<Rightarrow> sys \<Rightarrow> bool \<Rightarrow> bool" where
  "side_inv magic fs S x \<longleftrightarrow>
     (let H = set (y_hist S x); D = set (y_deliv S x); H' = set (y_hist S (\<not> x)); D' = set (y_deliv S (\<not> x))
      in a_nextSeq (y_ep S x) = word_of_nat (length (y_hist S x)) \<and> numbered (y_hist S x) \<and> hist_ok fs H
       \<and> ep_ok magic fs H D H' D' (y_ep S x)
       \<and> (\<forall>raw \<in> y_net S x. good_frame magic fs H D raw)
       \<and> (\<forall>c. y_call S x = Some c \<longrightarrow> call_ok fs H D' c)
       \<and> (\<forall>q c. y_pend S x = Some (q, c) \<longrightarrow> acked D q c)
       \<and> D \<subseteq> H' \<and> a_app (y_ep S x) = map snd (y_deliv S x)
       \<and> (\<forall>q \<in> y_ok S x. \<exists>c d. (q, d) \<in> H \<and> c = ChecksumIEEE d \<and> acked D' q c))"

definition sys_inv :: "u32 \<Rightarrow> int \<Rightarrow> sys \<Rightarrow> bool" where
  "sys_inv magic fs S \<longleftrightarrow> (\<forall>x. side_inv magic fs S x)"

text \<open>A side whose own state did not change keeps its part when the histories only grow.\<close>

lemma side_inv_frame:
  assumes "side_inv magic fs S z"
    and "y_ep S' z = y_ep S z" "y_call S' z = y_call S z" "y_pend S' z = y_pend S z" "y_net S' z = y_net S z"
    "y_hist S' z = y_hist S z" "y_deliv S' z = y_deliv S z" "y_ok S' z = y_ok S z"
    and "set (y_hist S (\<not> z)) \<subseteq> set (y_hist S' (\<not> z))" "set (y_deliv S (\<not> z)) \<subseteq> set (y_deliv S' (\<not> z))"
  shows "side_inv magic fs S' z"
proof -
  have "acked (set (y_deliv S (\<not> z))) q c \<Longrightarrow> acked (set (y_deliv S' (\<not> z))) q c" for q c
    using assms(10) by (rule acked_mono [rotated])
  with assms show ?thesis
    unfolding side_inv_def Let_def
    by (auto intro: ep_ok_mono [OF _ order_refl order_refl] call_ok_mono [OF _ order_refl]) blast
qed

lemma sys_invI:
  assumes "sys_inv magic fs S" and "side_inv magic fs S' x"
    and "y_ep S' (\<not> x) = y_ep S (\<not> x)" "y_call S' (\<not> x) = y_call S (\<not> x)" "y_pend S' (\<not> x) = y_pend S (\<not> x)"
    "y_net S' (\<not> x) = y_net S (\<not> x)" "y_hist S' (\<not> x) = y_hist S (\<not> x)" "y_deliv S' (\<not> x) = y_deliv S (\<not> x)"
    "y_ok S' (\<not> x) = y_ok S (\<not> x)"
    and "set (y_hist S x) \<subseteq> set (y_hist S' x)" "set (y_deliv S x) \<subseteq> set (y_deliv S' x)"
  shows "sys_inv magic fs S'"
  unfolding sys_inv_def
proof
  fix z
  show "side_inv magic fs S' z"
  proof (cases "z = x")
    case False
    then have z: "z = (\<not> x)" by auto
    show ?thesis
      by (rule side_inv_frame [of _ _ S]) (use assms z in \<open>auto simp: sys_inv_def\<close>)
  qed (use assms(2) in simp)
qed

lemma sys_inv_init: "sys_inv magic fs sys_init"
  by (simp add: sys_inv_def side_inv_def sys_init_def ep_ok_new numbered_def hist_ok_def Let_def)
     (simp add: arq_new_def)

lemma ep_ok_send_begin:
  assumes "ep_ok magic fs H D H' D' s" and "send_begin fs data s = Some (Inr (s', c))"
  shows "ep_ok magic fs H D H' D' s'"
  using assms by (auto simp: ep_ok_def send_begin_def Let_def split: if_splits option.splits)

lemma numbered_snoc:
  "numbered hs \<Longrightarrow> Suc (length hs) < 2 ^ 32 \<Longrightarrow>
    numbered (hs @ [(word_of_nat (length hs) + 1, d)])"
  by (simp add: numbered_def)

lemma hist_ok_numbered:
  assumes "numbered hs" and "\<forall>(q, d) \<in> set hs. in_bounds fs d \<and> fragmentPayload d fs = Some (frags fs d)"
  shows "hist_ok fs (set hs)"
  using assms eq_key_imp_eq_value [OF numbered_distinct [OF assms(1)]]
  unfolding hist_ok_def by blast

lemma sys_inv_Send:
  assumes inv: "sys_inv magic fs S" and bound: "Suc (length (y_hist S x)) < 2 ^ 32" "in_bounds fs data"
    and b: "send_begin fs data (y_ep S x) = Some (Inr (s', c))"
  shows "sys_inv magic fs (S\<lparr>y_ep := (y_ep S)(x := s'), y_call := (y_call S)(x := Some c),
      y_hist := (y_hist S)(x := y_hist S x @ [(c_seq c, data)])\<rparr>)" (is "sys_inv _ _ ?S'")
proof (rule sys_invI [OF inv])
  have I: "side_inv magic fs S x" using inv by (simp add: sys_inv_def)
  note c = send_begin_call [OF b, of 1, simplified]
  let ?H = "set (y_hist S x)" and ?K = "insert (c_seq c, data) (set (y_hist S x))"
  have nx: "a_nextSeq s' = a_nextSeq (y_ep S x) + 1" "a_app s' = a_app (y_ep S x)"
    using b by (auto simp: send_begin_def Let_def split: if_splits option.splits)
  have num: "numbered (y_hist S x @ [(c_seq c, data)])"
    using I bound c by (simp add: side_inv_def Let_def numbered_snoc)
  have fr: "fragmentPayload data fs = Some (frags fs data)"
    using c by (simp add: frags_def)
  have "hist_ok fs ?H" using I by (simp add: side_inv_def Let_def)
  then have "\<forall>(q, d) \<in> set (y_hist S x @ [(c_seq c, data)]). in_bounds fs d \<and> fragmentPayload d fs = Some (frags fs d)"
    using bound(2) fr unfolding hist_ok_def by auto
  from hist_ok_numbered [OF num this] have hist: "hist_ok fs ?K" by simp
  have ep: "ep_ok magic fs ?K D H' D' s'" if "ep_ok magic fs ?H D H' D' (y_ep S x)" for D H' D'
    by (rule ep_ok_mono [OF ep_ok_send_begin [OF that b]]) auto
  have good: "good_frame magic fs ?H D raw \<Longrightarrow> good_frame magic fs ?K D raw" for D raw
    by (erule good_frame_mono) auto
  have call: "call_ok fs ?K D' c" for D'
    using c fr by (auto simp: call_ok_def)
  show "side_inv magic fs ?S' x"
    using I nx num hist ep good call unfolding side_inv_def Let_def by auto
qed auto

lemma sys_inv_Step:
  assumes inv: "sys_inv magic fs S" and "y_call S x = Some c"
    and st: "(s', c') \<in> set (send_step magic m (y_ep S x, c))"
  shows "sys_inv magic fs (S\<lparr>y_ep := (y_ep S)(x := s'), y_call := (y_call S)(x := Some c')\<rparr>)"
proof (rule sys_invI [OF inv])
  have I: "side_inv magic fs S x" using inv by (simp add: sys_inv_def)
  then show "side_inv magic fs (S\<lparr>y_ep := (y_ep S)(x := s'), y_call := (y_call S)(x := Some c')\<rparr>) x"
    using assms(2) send_step_ok [OF _ _ st] unfolding side_inv_def Let_def by auto
qed auto

lemma sys_inv_Return:
  assumes inv: "sys_inv magic fs S" and "y_call S x = Some c" "c_pc c = Returned r"
  shows "sys_inv magic fs (S\<lparr>y_call := (y_call S)(x := None),
      y_ok := (y_ok S)(x := (if r = None then insert (c_seq c) (y_ok S x) else y_ok S x))\<rparr>)"
    (is "sys_inv _ _ ?S'")
proof (rule sys_invI [OF inv])
  have I: "side_inv magic fs S x" using inv by (simp add: sys_inv_def)
  with assms have "r = None \<Longrightarrow> (c_seq c, c_data c) \<in> set (y_hist S x)
      \<and> acked (set (y_deliv S (\<not> x))) (c_seq c) (ChecksumIEEE (c_data c))"
    by (auto simp: side_inv_def Let_def call_ok_def)
  with I show "side_inv magic fs ?S' x" unfolding side_inv_def Let_def by auto
qed auto

lemma sys_inv_Write:
  assumes inv: "sys_inv magic fs S" and w: "((Some f, ok), s') \<in> set (nextOutboundFrame (y_ep S x))"
  shows "sys_inv magic fs (S\<lparr>y_ep := (y_ep S)(x := s'), y_net := (y_net S)(x := insert f (y_net S x))\<rparr>)"
    (is "sys_inv _ _ ?S'")
proof (rule sys_invI [OF inv])
  have I: "side_inv magic fs S x" using inv by (simp add: sys_inv_def)
  then show "side_inv magic fs ?S' x"
    using ep_ok_write [OF _ w] nextOutboundFrame_keeps [OF w] unfolding side_inv_def Let_def by auto
qed auto

lemma sys_inv_Receive:
  assumes inv: "sys_inv magic fs S" and raw: "raw \<in> y_net S (\<not> x)"
    and d: "dispatchFrame magic raw (y_ep S x) = (s', p)"
  shows "sys_inv magic fs (S\<lparr>y_ep := (y_ep S)(x := s'), y_pend := (y_pend S)(x := p),
      y_deliv := (y_deliv S)(x := y_deliv S x @ map (Pair (frame_seq magic raw)) (new_app (y_ep S x) s'))\<rparr>)"
    (is "sys_inv _ _ ?S'")
proof (rule sys_invI [OF inv])
  have I: "side_inv magic fs S x" and J: "side_inv magic fs S (\<not> x)"
    using inv by (simp_all add: sys_inv_def)
  let ?D = "set (y_deliv S x)" and ?new = "map (Pair (frame_seq magic raw)) (new_app (y_ep S x) s')"
  have good: "good_frame magic fs (set (y_hist S (\<not> x))) (set (y_deliv S (\<not> x))) raw"
    and hist: "hist_ok fs (set (y_hist S (\<not> x)))"
    using J raw by (auto simp: side_inv_def Let_def)
  have ep: "ep_ok magic fs (set (y_hist S x)) ?D (set (y_hist S (\<not> x))) (set (y_deliv S (\<not> x))) (y_ep S x)"
    using I by (simp add: side_inv_def Let_def)
  note R = receive_ok [OF ep hist good d]
  have mono: "good_frame magic fs H ?D raw \<Longrightarrow> good_frame magic fs H (?D \<union> set ?new) raw" for H raw
    by (erule good_frame_mono) auto
  show "side_inv magic fs ?S' x"
    using I R mono unfolding side_inv_def Let_def by auto
qed auto

lemma sys_inv_Ack:
  assumes inv: "sys_inv magic fs S" and "y_pend S x = Some (q, c)" and a: "s' \<in> set (sendAck magic q c (y_ep S x))"
  shows "sys_inv magic fs (S\<lparr>y_ep := (y_ep S)(x := s'), y_pend := (y_pend S)(x := None)\<rparr>)"
    (is "sys_inv _ _ ?S'")
proof (rule sys_invI [OF inv])
  have I: "side_inv magic fs S x" using inv by (simp add: sys_inv_def)
  have "a_app s' = a_app (y_ep S x)" "a_nextSeq s' = a_nextSeq (y_ep S x)"
    using a by (auto simp: sendAck_def enqueueFrame_Inr split: sum.splits)
  then show "side_inv magic fs ?S' x"
    using I assms(2) ep_ok_sendAck [OF _ _ a] unfolding side_inv_def Let_def by auto
qed auto

lemma sys_inv_Close:
  assumes inv: "sys_inv magic fs S"
  shows "sys_inv magic fs (S\<lparr>y_ep := (y_ep S)(x := arq_close (y_ep S x))\<rparr>)" (is "sys_inv _ _ ?S'")
proof (rule sys_invI [OF inv])
  have I: "side_inv magic fs S x" using inv by (simp add: sys_inv_def)
  have "a_app (arq_close s) = a_app s" "a_nextSeq (arq_close s) = a_nextSeq s" for s :: arq
    by (auto simp: arq_close_def)
  with I show "side_inv magic fs ?S' x"
    using ep_ok_close unfolding side_inv_def Let_def by auto
qed auto

lemma sys_step_inv: "sys_step magic maxA fs S S' \<Longrightarrow> sys_inv magic fs S \<Longrightarrow> sys_inv magic fs S'"
proof (induction rule: sys_step.induct)
  case (Send S x data s' c)
  then show ?case by (intro sys_inv_Send)
next
  case (Step S x c s' c')
  then show ?case by (intro sys_inv_Step)
next
  case (Return S x c r)
  then show ?case by (intro sys_inv_Return)
next
  case (Write f ok s' S x)
  then show ?case by (intro sys_inv_Write)
next
  case (Receive S x raw s' p)
  then show ?case by (intro sys_inv_Receive)
next
  case (Ack S x q c s')
  then show ?case by (intro sys_inv_Ack)
next
  case (Close S x)
  then show ?case by (intro sys_inv_Close)
qed

lemma reachable_inv: "sys_reachable magic maxA fs S \<Longrightarrow> sys_inv magic fs S"
  by (induction rule: sys_reachable.induct) (auto intro: sys_inv_init sys_step_inv)

section \<open>The end-to-end contract\<close>

lemma delivered_was_sent:
  assumes "sys_reachable magic maxA fs S"
  shows "set (a_app (y_ep S x)) \<subseteq> snd ` set (y_hist S (\<not> x))"
proof -
  have "side_inv magic fs S x" using reachable_inv [OF assms] by (simp add: sys_inv_def)
  then show ?thesis unfolding side_inv_def Let_def by auto
qed

lemma returned_was_delivered:
  assumes "sys_reachable magic maxA fs S" and "q \<in> y_ok S x"
  shows "\<exists>d. (q, d) \<in> set (y_hist S x) \<and> (q, d) \<in> set (y_deliv S (\<not> x)) \<and> d \<in> set (a_app (y_ep S (\<not> x)))"
proof -
  have I: "side_inv magic fs S x" "side_inv magic fs S (\<not> x)"
    using reachable_inv [OF assms(1)] by (simp_all add: sys_inv_def)
  with assms(2) obtain d where d: "(q, d) \<in> set (y_hist S x)" "acked (set (y_deliv S (\<not> x))) q (ChecksumIEEE d)"
    unfolding side_inv_def Let_def by blast
  then obtain d' where d': "(q, d') \<in> set (y_deliv S (\<not> x))" unfolding acked_def by blast
  with I(2) have "(q, d') \<in> set (y_hist S x)" "d' \<in> snd ` set (y_deliv S (\<not> x))"
    unfolding side_inv_def Let_def by (auto, force)
  moreover have "hist_ok fs (set (y_hist S x))" "a_app (y_ep S (\<not> x)) = map snd (y_deliv S (\<not> x))"
    using I unfolding side_inv_def Let_def by auto
  ultimately show ?thesis using d d' unfolding hist_ok_def by (metis image_set)
qed

end
