(* ===== verification/Reliable_Progress.thy ===== *)
theory Reliable_Progress
  imports Reliable_System
begin

text \<open>
  Progress of the receiving side of the acknowledged-delivery engine: once every fragment of a
  message has arrived, in any order, with any repetitions, the message is handed to the
  application exactly once and acknowledged; later copies are acknowledged and change nothing.
\<close>

definition partial_message :: "int \<Rightarrow> bytes \<Rightarrow> nat set \<Rightarrow> inboundMessage" where
  "partial_message fs d I =
     \<lparr>m_totalLen = word_of_nat (length d), m_crc = ChecksumIEEE d,
      m_frags = map (\<lambda>i. if i \<in> I then Some (frags fs d ! i) else None) [0..<length (frags fs d)],
      m_remain = length (frags fs d) - card I\<rparr>"

definition recv_frames :: "u32 \<Rightarrow> int \<Rightarrow> u32 \<Rightarrow> bytes \<Rightarrow> nat list \<Rightarrow> 'a arq_scheme \<Rightarrow> 'a arq_scheme" where
  "recv_frames magic fs q d is s =
     fold (\<lambda>i s. fst (dispatchFrame magic (data_frame magic fs q d i) s)) is s"

definition well_sized :: "int \<Rightarrow> bytes \<Rightarrow> bool" where
  "well_sized fs d \<longleftrightarrow> 0 < fs \<and> length d < 2 ^ 32 \<and> length (frags fs d) < 2 ^ 16"

lemma well_sizedD:
  assumes "well_sized fs d"
  shows "concat (frags fs d) = d" "0 < length (frags fs d)" "length (frags fs d) < 2 ^ 16"
    "length d < 2 ^ 32"
proof -
  from assms obtain f where f: "fragmentPayload d fs = Some f" "f \<noteq> []" "concat f = d"
    using fragmentPayload_Some [of fs d] by (auto simp: well_sized_def)
  then show "concat (frags fs d) = d" "0 < length (frags fs d)" by (simp_all add: frags_def)
  show "length (frags fs d) < 2 ^ 16" "length d < 2 ^ 32" using assms by (simp_all add: well_sized_def)
qed

definition the_frame :: "int \<Rightarrow> u32 \<Rightarrow> bytes \<Rightarrow> nat \<Rightarrow> transportFrame" where
  "the_frame fs q d i =
     \<lparr>f_typ = frameTypeData, f_seq = q, f_crc = ChecksumIEEE d, f_totalLen = word_of_nat (length d),
      f_fragIdx = word_of_nat i, f_fragTotal = word_of_nat (length (frags fs d)),
      f_payload = frags fs d ! i\<rparr>"

lemma dispatch_data_frame:
  "dispatchFrame magic (data_frame magic fs q d i) s = handleInboundFrame (the_frame fs q d i) s"
  by (simp add: dispatchFrame_def data_frame_def the_frame_def frame_consts)

lemma fresh_partial:
  assumes "well_sized fs d"
  shows "fresh_message (the_frame fs q d i) = partial_message fs d {}"
  using well_sizedD [OF assms]
  by (simp add: fresh_message_def the_frame_def partial_message_def unat_of_nat16 map_replicate_const)

lemma partial_fits:
  assumes "well_sized fs d"
  shows "fits (partial_message fs d I) (the_frame fs q d i)"
  using well_sizedD [OF assms] by (simp add: fits_def partial_message_def the_frame_def unat_of_nat16)

lemma store_partial:
  assumes "well_sized fs d" and i: "i < length (frags fs d)" and I: "I \<subseteq> {..<length (frags fs d)}"
  shows "store_fragment (the_frame fs q d i) (partial_message fs d I) = partial_message fs d (insert i I)"
proof -
  have fin: "finite I" using I finite_subset by blast
  have u: "unat (word_of_nat i :: u16) = i"
    using i well_sizedD(3) [OF assms(1)] by (intro unat_of_nat16) simp
  show ?thesis
  proof (cases "i \<in> I")
    case True
    then show ?thesis
      using i by (simp add: store_fragment_def the_frame_def u) (simp add: partial_message_def insert_absorb)
  next
    case False
    have "(map (\<lambda>j. if j \<in> I then Some (frags fs d ! j) else None) [0..<length (frags fs d)])[i := Some (frags fs d ! i)]
        = map (\<lambda>j. if j \<in> insert i I then Some (frags fs d ! j) else None) [0..<length (frags fs d)]"
      using i by (intro nth_equalityI) (auto simp: nth_list_update False)
    with False i fin show ?thesis
      by (simp add: store_fragment_def the_frame_def u partial_message_def)
  qed
qed

text \<open>The reassembly entry of the message holds exactly the fragments in \<open>I\<close>.\<close>

definition holds :: "int \<Rightarrow> u32 \<Rightarrow> bytes \<Rightarrow> nat set \<Rightarrow> 'a arq_scheme \<Rightarrow> bool" where
  "holds fs q d I s \<longleftrightarrow>
     map_of (a_inbound s) q = (if I = {} then None else Some (partial_message fs d I))"

lemma upsert_partial:
  assumes w: "well_sized fs d" and i: "i < length (frags fs d)" and I: "I \<subseteq> {..<length (frags fs d)}"
    and h: "holds fs q d I s"
  shows "\<exists>inb. upsertInbound (the_frame fs q d i) (a_inbound s) =
      (inb, Some (partial_message fs d (insert i I)), insert i I = {..<length (frags fs d)})
      \<and> map_of inb q = Some (partial_message fs d (insert i I))"
proof -
  have u: "unat (word_of_nat i :: u16) = i"
    using i well_sizedD(3) [OF w] by (intro unat_of_nat16) simp
  have sq: "f_seq (the_frame fs q d i) = q" "f_fragIdx (the_frame fs q d i) = word_of_nat i"
    by (simp_all add: the_frame_def)
  have msg: "(case map_of (a_inbound s) q of
       Some msg \<Rightarrow> if fits msg (the_frame fs q d i) then msg else fresh_message (the_frame fs q d i)
     | None \<Rightarrow> fresh_message (the_frame fs q d i)) = partial_message fs d I"
    using h by (simp add: holds_def partial_fits [OF w] fresh_partial [OF w])
  have len: "\<not> length (m_frags (partial_message fs d I)) \<le> unat (word_of_nat i :: u16)"
    using i by (simp add: partial_message_def u)
  have sub: "insert i I \<subseteq> {..<length (frags fs d)}" using i I by auto
  have rem: "m_remain (partial_message fs d (insert i I)) = 0 \<longleftrightarrow> insert i I = {..<length (frags fs d)}"
  proof -
    have "card (insert i I) \<le> length (frags fs d)" using card_mono [OF _ sub] by simp
    moreover have "card (insert i I) = length (frags fs d) \<longleftrightarrow> insert i I = {..<length (frags fs d)}"
      using card_subset_eq [OF finite_lessThan sub] card_lessThan by metis
    ultimately have "length (frags fs d) - card (insert i I) = 0 \<longleftrightarrow> insert i I = {..<length (frags fs d)}"
      by linarith
    then show ?thesis by (simp only: partial_message_def inboundMessage.simps)
  qed
  show ?thesis
    unfolding upsertInbound_def sq Let_def msg store_partial [OF w i I] rem
    using len by simp
qed

lemma assemble_full:
  assumes "well_sized fs d"
  shows "assembleMessage (partial_message fs d {..<length (frags fs d)}) = d"
proof -
  have "map (\<lambda>f. case f of None \<Rightarrow> [] | Some b \<Rightarrow> b)
      (m_frags (partial_message fs d {..<length (frags fs d)})) = frags fs d"
    by (rule nth_equalityI) (auto simp: partial_message_def)
  then show ?thesis
    using well_sizedD(1) [OF assms]
    by (simp add: assembleMessage_def) (simp add: partial_message_def)
qed

lemma recv_one:
  assumes w: "well_sized fs d" and i: "i < length (frags fs d)" and I: "I \<subseteq> {..<length (frags fs d)}"
    and h: "holds fs q d I s" and nd: "map_of (a_delivered s) q \<noteq> Some (ChecksumIEEE d)"
  shows "insert i I \<noteq> {..<length (frags fs d)} \<Longrightarrow>
       \<exists>s'. dispatchFrame magic (data_frame magic fs q d i) s = (s', None) \<and> holds fs q d (insert i I) s'
         \<and> a_delivered s' = a_delivered s \<and> a_app s' = a_app s \<and> a_hasOnData s' = a_hasOnData s"
    and "insert i I = {..<length (frags fs d)} \<Longrightarrow>
       \<exists>s'. dispatchFrame magic (data_frame magic fs q d i) s = (s', Some (q, ChecksumIEEE d))
         \<and> map_of (a_delivered s') q = Some (ChecksumIEEE d)
         \<and> a_app s' = (if a_hasOnData s then a_app s @ [d] else a_app s)
         \<and> map_of (a_inbound s') q = None"
proof -
  from upsert_partial [OF w i I h] obtain inb where
    up: "upsertInbound (the_frame fs q d i) (a_inbound s) =
      (inb, Some (partial_message fs d (insert i I)), insert i I = {..<length (frags fs d)})"
    and inb: "map_of inb q = Some (partial_message fs d (insert i I))" by blast
  have sq: "f_seq (the_frame fs q d i) = q" "f_crc (the_frame fs q d i) = ChecksumIEEE d"
    by (simp_all add: the_frame_def)
  have crc: "m_crc (partial_message fs d J) = ChecksumIEEE d" for J by (simp add: partial_message_def)
  show "\<exists>s'. dispatchFrame magic (data_frame magic fs q d i) s = (s', None) \<and> holds fs q d (insert i I) s'
         \<and> a_delivered s' = a_delivered s \<and> a_app s' = a_app s \<and> a_hasOnData s' = a_hasOnData s"
    if "insert i I \<noteq> {..<length (frags fs d)}"
    using that nd inb
    by (simp add: dispatch_data_frame handleInboundFrame_def sq up holds_def)
  show "\<exists>s'. dispatchFrame magic (data_frame magic fs q d i) s = (s', Some (q, ChecksumIEEE d))
         \<and> map_of (a_delivered s') q = Some (ChecksumIEEE d)
         \<and> a_app s' = (if a_hasOnData s then a_app s @ [d] else a_app s)
         \<and> map_of (a_inbound s') q = None"
    if full: "insert i I = {..<length (frags fs d)}"
    using nd
    by (simp add: dispatch_data_frame handleInboundFrame_def sq up full assemble_full [OF w] crc Let_def)
qed

lemma recv_partial:
  assumes w: "well_sized fs d" and h: "holds fs q d {} s"
    and nd: "map_of (a_delivered s) q \<noteq> Some (ChecksumIEEE d)"
  shows "set is \<subset> {..<length (frags fs d)} \<Longrightarrow>
     holds fs q d (set is) (recv_frames magic fs q d is s)
     \<and> a_delivered (recv_frames magic fs q d is s) = a_delivered s
     \<and> a_app (recv_frames magic fs q d is s) = a_app s
     \<and> a_hasOnData (recv_frames magic fs q d is s) = a_hasOnData s"
proof (induction "is" rule: rev_induct)
  case Nil
  then show ?case using h by (simp add: recv_frames_def)
next
  case (snoc i "is")
  let ?s = "recv_frames magic fs q d is s"
  have sub: "set is \<subset> {..<length (frags fs d)}" "i < length (frags fs d)"
    "insert i (set is) \<noteq> {..<length (frags fs d)}"
    using snoc.prems by auto
  note IH = snoc.IH [OF sub(1)]
  have "map_of (a_delivered ?s) q \<noteq> Some (ChecksumIEEE d)" using IH nd by simp
  from recv_one(1) [OF w sub(2) _ _ this sub(3), of magic] sub(1) IH obtain s' where
    "dispatchFrame magic (data_frame magic fs q d i) ?s = (s', None)" "holds fs q d (insert i (set is)) s'"
    "a_delivered s' = a_delivered ?s" "a_app s' = a_app ?s" "a_hasOnData s' = a_hasOnData ?s"
    by blast
  then show ?case using IH by (simp add: recv_frames_def)
qed

lemma delivered_again:
  "map_of (a_delivered s) q = Some (ChecksumIEEE d) \<Longrightarrow>
     dispatchFrame magic (data_frame magic fs q d j) s = (s, Some (q, ChecksumIEEE d))"
  by (simp add: dispatch_data_frame handleInboundFrame_def the_frame_def)

lemma recv_delivered:
  "map_of (a_delivered s) q = Some (ChecksumIEEE d) \<Longrightarrow> recv_frames magic fs q d js s = s"
  by (induction js) (simp_all add: recv_frames_def delivered_again)

section \<open>Properties\<close>

text \<open>C5: once every fragment of a message has arrived, in any order and with any repetitions
  before the last missing one, the receiver hands the application exactly that message, once,
  and acknowledges it with its sequence number and checksum; until then it hands over
  nothing. From then on a copy of any of its frames is acknowledged again and changes nothing.\<close>

theorem complete_message_is_delivered:
  assumes "well_sized fs d" and "map_of (a_inbound s) q = None"
    and "map_of (a_delivered s) q \<noteq> Some (ChecksumIEEE d)" and "a_hasOnData s"
    and "set is \<subset> {..<length (frags fs d)}" and "insert i (set is) = {..<length (frags fs d)}"
  shows "a_app (recv_frames magic fs q d is s) = a_app s
     \<and> (\<exists>s'. dispatchFrame magic (data_frame magic fs q d i) (recv_frames magic fs q d is s)
              = (s', Some (q, ChecksumIEEE d))
          \<and> a_app s' = a_app s @ [d] \<and> map_of (a_delivered s') q = Some (ChecksumIEEE d)
          \<and> map_of (a_inbound s') q = None
          \<and> recv_frames magic fs q d js s' = s'
          \<and> dispatchFrame magic (data_frame magic fs q d j) s' = (s', Some (q, ChecksumIEEE d)))"
proof -
  let ?s = "recv_frames magic fs q d is s"
  have "holds fs q d {} s" using assms(2) by (simp add: holds_def)
  note P = recv_partial [OF assms(1) this assms(3) assms(5), of magic]
  have "i < length (frags fs d)" "set is \<subseteq> {..<length (frags fs d)}" using assms(5,6) by auto
  moreover have "map_of (a_delivered ?s) q \<noteq> Some (ChecksumIEEE d)" using P assms(3) by simp
  ultimately obtain s' where
    "dispatchFrame magic (data_frame magic fs q d i) ?s = (s', Some (q, ChecksumIEEE d))"
    "a_app s' = a_app s @ [d]" "map_of (a_delivered s') q = Some (ChecksumIEEE d)"
    "map_of (a_inbound s') q = None"
    using recv_one(2) [OF assms(1), of i "set is" q ?s magic] assms(4,6) P by auto
  then show ?thesis
    using P delivered_again [of s' q d magic fs] recv_delivered [of s' q d magic fs js] by simp
qed

section \<open>Witnesses\<close>

definition three_byte :: bytes where "three_byte = [1, 2, 3]"

lemma three_byte_frags: "frags 2 three_byte = [[1, 2], [3]]"
  by (simp add: frags_def fragmentPayload_def three_byte_def fragment_loop.simps [of "[1, 2, 3]" 2 0]
      fragment_loop.simps [of "[1, 2, 3]" 2 2] fragment_loop.simps [of "[1, 2, 3]" 2 4]
      numeral_2_eq_2 [symmetric] slice_def)

lemma three_byte_sized: "well_sized 2 three_byte"
  by (simp add: well_sized_def three_byte_frags) (simp add: three_byte_def)

theorem complete_message_is_delivered_witness:
  "\<exists>s'. dispatchFrame 7 (data_frame 7 2 5 three_byte 0) (recv_frames 7 2 5 three_byte [1, 1] (arq_new True))
      = (s', Some (5, ChecksumIEEE three_byte)) \<and> a_app s' = [[1, 2, 3]]"
proof -
  have "set [1 :: nat, 1] \<subset> {..<length (frags 2 three_byte)}"
    "insert 0 (set [1 :: nat, 1]) = {..<length (frags 2 three_byte)}"
    by (auto simp: three_byte_frags)
  from complete_message_is_delivered [OF three_byte_sized _ _ _ this, of "arq_new True" 5 7 "[]" 0] show ?thesis
    by (auto simp: arq_new_def) (auto simp: three_byte_def)
qed

end
