(* ===== verification/Reliable_Contract.thy ===== *)
theory Reliable_Contract
  imports Reliable_System
begin

text \<open>
  The contract of the acknowledged-delivery engine, as properties over reachable states of two
  endpoints, with a complete run (one message sent, received, acknowledged and returned) on
  which they are applied.
\<close>

section \<open>A complete run\<close>

abbreviation ex_magic :: u32 where "ex_magic \<equiv> 0x4f564331"
abbreviation ex_crc :: u32 where "ex_crc \<equiv> ChecksumIEEE [7]"

definition ex_data :: bytes where
  "ex_data = encodeDataFrame ex_magic 1 ex_crc 1 0 1 [7]"

definition ex_ack :: bytes where
  "ex_ack = encodeAckFrame ex_magic 1 ex_crc"

definition ex_call :: "send_pc \<Rightarrow> send_call" where
  "ex_call pc = \<lparr>c_seq = 1, c_crc = ex_crc, c_data = [7], c_frags = [[7]], c_pc = pc\<rparr>"

definition ex_A :: "bytes list \<Rightarrow> (u32 \<times> u32 option) list \<Rightarrow> arq" where
  "ex_A out waiters =
     \<lparr>a_outbound = out, a_outboundAck = [], a_closeCh = False, a_closed = False, a_nextSeq = 1,
      a_ackWaiters = waiters, a_inbound = [], a_delivered = [], a_hasOnData = True, a_app = []\<rparr>"

definition ex_B :: "bytes list \<Rightarrow> arq" where
  "ex_B acks =
     \<lparr>a_outbound = [], a_outboundAck = acks, a_closeCh = False, a_closed = False, a_nextSeq = 0,
      a_ackWaiters = [], a_inbound = [], a_delivered = [(1, ex_crc)], a_hasOnData = True,
      a_app = [[7]]\<rparr>"

definition ex_sys where
  "ex_sys A B call pend netA netB deliv oks =
     \<lparr>y_ep = (\<lambda>x. if x then A else B), y_call = (\<lambda>x. if x then call else None),
      y_pend = (\<lambda>x. if x then None else pend), y_net = (\<lambda>x. if x then netA else netB),
      y_hist = (\<lambda>x. if x then [(1, [7])] else []), y_deliv = (\<lambda>x. if x then [] else deliv),
      y_ok = (\<lambda>x. if x then oks else {})\<rparr>"

lemma ex_fragments: "fragmentPayload [7 :: byte] 900 = Some [[7]]"
  by (simp add: fragmentPayload_def fragment_loop.simps [of "[7]" 900 0]
      fragment_loop.simps [of "[7]" 900 900] slice_def)

lemma ex_rules:
  assumes "sys_reachable magic maxA fs S"
  shows
   "y_call S x = None \<Longrightarrow> Suc (length (y_hist S x)) < 2 ^ 32 \<Longrightarrow> in_bounds fs data \<Longrightarrow>
    send_begin fs data (y_ep S x) = Some (Inr (s', c)) \<Longrightarrow>
    T = S\<lparr>y_ep := (y_ep S)(x := s'), y_call := (y_call S)(x := Some c),
      y_hist := (y_hist S)(x := y_hist S x @ [(c_seq c, data)])\<rparr> \<Longrightarrow> sys_reachable magic maxA fs T"
   "y_call S x = Some c \<Longrightarrow> (s', c') \<in> set (send_step magic maxA (y_ep S x, c)) \<Longrightarrow>
    T = S\<lparr>y_ep := (y_ep S)(x := s'), y_call := (y_call S)(x := Some c')\<rparr> \<Longrightarrow>
    sys_reachable magic maxA fs T"
   "y_call S x = Some c \<Longrightarrow> c_pc c = Returned r \<Longrightarrow>
    T = S\<lparr>y_call := (y_call S)(x := None),
      y_ok := (y_ok S)(x := (if r = None then insert (c_seq c) (y_ok S x) else y_ok S x))\<rparr> \<Longrightarrow>
    sys_reachable magic maxA fs T"
   "((Some f, ok), s') \<in> set (nextOutboundFrame (y_ep S x)) \<Longrightarrow>
    T = S\<lparr>y_ep := (y_ep S)(x := s'), y_net := (y_net S)(x := insert f (y_net S x))\<rparr> \<Longrightarrow>
    sys_reachable magic maxA fs T"
   "y_pend S x = None \<Longrightarrow> raw \<in> y_net S (\<not> x) \<Longrightarrow> dispatchFrame magic raw (y_ep S x) = (s', p) \<Longrightarrow>
    T = S\<lparr>y_ep := (y_ep S)(x := s'), y_pend := (y_pend S)(x := p),
      y_deliv := (y_deliv S)(x := y_deliv S x @ map (Pair (frame_seq magic raw)) (new_app (y_ep S x) s'))\<rparr> \<Longrightarrow>
    sys_reachable magic maxA fs T"
   "y_pend S x = Some (q, v) \<Longrightarrow> s' \<in> set (sendAck magic q v (y_ep S x)) \<Longrightarrow>
    T = S\<lparr>y_ep := (y_ep S)(x := s'), y_pend := (y_pend S)(x := None)\<rparr> \<Longrightarrow>
    sys_reachable magic maxA fs T"
  using sys_reachable.step [OF assms] sys_step.intros by metis+

lemmas ex_defs = ex_sys_def ex_call_def ex_A_def ex_B_def ex_data_def ex_ack_def arq_new_def

lemma ex_sent: "sys_reachable ex_magic 4 900
    (ex_sys (ex_A [] [(1, None)]) (arq_new True) (Some (ex_call (Enqueue 0 0))) None {} {} [] {})"
  by (rule ex_rules(1) [OF sys_reachable.init, where x = True and data = "[7]"
        and s' = "ex_A [] [(1, None)]" and c = "ex_call (Enqueue 0 0)"])
    (simp_all add: sys_init_def in_bounds_def ex_fragments send_begin_def ex_defs fun_eq_iff)

lemma ex_enqueued: "sys_reachable ex_magic 4 900
    (ex_sys (ex_A [ex_data] [(1, None)]) (arq_new True) (Some (ex_call (Waiting 0))) None {} {} [] {})"
  by (rule ex_rules(2) [OF ex_sent, where x = True and c = "ex_call (Enqueue 0 0)"
        and s' = "ex_A [ex_data] [(1, None)]" and c' = "ex_call (Waiting 0)"])
    (simp_all add: send_step_def enqueueFrame_def chan_send_def outbound_cap_def ex_defs fun_eq_iff)

lemma ex_written: "sys_reachable ex_magic 4 900
    (ex_sys (ex_A [] [(1, None)]) (arq_new True) (Some (ex_call (Waiting 0))) None {ex_data} {} [] {})"
  by (rule ex_rules(4) [OF ex_enqueued, where x = True and f = ex_data and ok = True
        and s' = "ex_A [] [(1, None)]"])
    (simp_all add: nextOutboundFrame_def ex_sys_def ex_A_def fun_eq_iff)

lemma ex_received: "sys_reachable ex_magic 4 900
    (ex_sys (ex_A [] [(1, None)]) (ex_B []) (Some (ex_call (Waiting 0))) (Some (1, ex_crc))
       {ex_data} {} [(1, [7])] {})"
  by (rule ex_rules(5) [OF ex_written, where x = False and raw = ex_data
        and s' = "ex_B []" and p = "Some (1, ex_crc)"])
    (simp_all add: dispatchFrame_def frame_seq_def new_app_def frame_consts handleInboundFrame_def
      upsertInbound_def fresh_message_def store_fragment_def assembleMessage_def Let_def ex_defs fun_eq_iff)

lemma ex_acking: "sys_reachable ex_magic 4 900
    (ex_sys (ex_A [] [(1, None)]) (ex_B [ex_ack]) (Some (ex_call (Waiting 0))) None
       {ex_data} {} [(1, [7])] {})"
  by (rule ex_rules(6) [OF ex_received, where x = False and s' = "ex_B [ex_ack]"
        and q = 1 and v = ex_crc])
    (simp_all add: sendAck_def enqueueFrame_def chan_send_def outboundAck_cap_def ex_defs fun_eq_iff)

lemma ex_ack_written: "sys_reachable ex_magic 4 900
    (ex_sys (ex_A [] [(1, None)]) (ex_B []) (Some (ex_call (Waiting 0))) None
       {ex_data} {ex_ack} [(1, [7])] {})"
  by (rule ex_rules(4) [OF ex_acking, where x = False and f = ex_ack and ok = True and s' = "ex_B []"])
    (simp_all add: nextOutboundFrame_def ex_sys_def ex_B_def fun_eq_iff)

lemma ex_acked: "sys_reachable ex_magic 4 900
    (ex_sys (ex_A [] [(1, Some ex_crc)]) (ex_B []) (Some (ex_call (Waiting 0))) None
       {ex_data} {ex_ack} [(1, [7])] {})"
  by (rule ex_rules(5) [OF ex_ack_written, where x = True and raw = ex_ack
        and s' = "ex_A [] [(1, Some ex_crc)]" and p = None])
    (simp_all add: dispatchFrame_def frame_seq_def new_app_def frame_consts empty_frame_def
      resolveAck_def ex_defs fun_eq_iff)

lemma ex_returning: "sys_reachable ex_magic 4 900
    (ex_sys (ex_A [] []) (ex_B []) (Some (ex_call (Returned None))) None {ex_data} {ex_ack} [(1, [7])] {})"
  by (rule ex_rules(2) [OF ex_acked, where x = True and c = "ex_call (Waiting 0)"
        and s' = "ex_A [] []" and c' = "ex_call (Returned None)"])
    (simp_all add: send_step_def send_return_def Let_def ex_defs fun_eq_iff)

lemma ex_returned: "sys_reachable ex_magic 4 900
    (ex_sys (ex_A [] []) (ex_B []) None None {ex_data} {ex_ack} [(1, [7])] {1})"
  by (rule ex_rules(3) [OF ex_returning, where x = True and c = "ex_call (Returned None)" and r = None])
    (simp_all add: ex_sys_def ex_call_def fun_eq_iff)

section \<open>Properties\<close>

text \<open>C4: over a network that loses, duplicates and reorders frames, every message an endpoint
  of the acknowledged-delivery engine hands to its application is, byte for byte, a message the
  peer passed to \<open>Send\<close>: fragments of different messages are never mixed, and no message is
  truncated or invented.\<close>

theorem only_sent_messages_are_delivered:
  assumes "sys_reachable magic maxSendAttempts fragmentSize S"
  shows "set (a_app (y_ep S x)) \<subseteq> snd ` set (y_hist S (\<not> x))"
  using assms by (rule delivered_was_sent)

theorem only_sent_messages_are_delivered_witness:
  "set (a_app (ex_B [])) \<subseteq> {[7]} \<and> a_app (ex_B []) = [[7]]"
  using only_sent_messages_are_delivered [OF ex_returned, of False]
  by (simp add: ex_sys_def ex_B_def)

text \<open>C3: when \<open>Send\<close> returns nil, the peer's application has been handed the very message:
  an acknowledgement is never taken from another message, a lost frame or a stale
  attempt.\<close>

theorem acknowledged_send_was_delivered:
  assumes "sys_reachable magic maxSendAttempts fragmentSize S" and "q \<in> y_ok S x"
  shows "\<exists>d. (q, d) \<in> set (y_hist S x) \<and> (q, d) \<in> set (y_deliv S (\<not> x))
     \<and> d \<in> set (a_app (y_ep S (\<not> x)))"
  using assms by (rule returned_was_delivered)

theorem acknowledged_send_was_delivered_witness:
  "\<exists>d. (1, d) = (1 :: u32, [7]) \<and> d \<in> set (a_app (ex_B []))"
  using acknowledged_send_was_delivered [OF ex_returned, of 1 True]
  by (auto simp: ex_sys_def ex_B_def)

text \<open>C15: \<open>Send\<close> terminates: whatever the peer, the network and the other goroutines do, a
  call makes at most \<open>attempts * (fragments + 2)\<close> steps of its own before it has returned.\<close>

theorem Send_is_bounded:
  assumes "send_begin fragmentSize data s = Some (Inr (s', c))" and "0 < maxSendAttempts"
    and "send_run magic maxSendAttempts n c c'"
  shows "n \<le> maxSendAttempts * (length (c_frags c) + 2)
     \<and> (n = maxSendAttempts * (length (c_frags c) + 2) \<longrightarrow> (\<exists>r. c_pc c' = Returned r))"
proof -
  note b = send_begin_call [OF assms(1,2)]
  have "call_wf maxSendAttempts c'" "c_frags c' = c_frags c"
    "n + steps_left maxSendAttempts c' \<le> steps_left maxSendAttempts c"
    using send_run_bound [OF assms(3) b(1,2)] by auto
  moreover have "steps_left maxSendAttempts c = maxSendAttempts * (length (c_frags c) + 2)"
    using b(7) by (simp add: steps_left_def Let_def)
  ultimately show ?thesis using steps_left_pos [of maxSendAttempts c'] by fastforce
qed

theorem Send_is_bounded_witness:
  "send_run ex_magic 4 1 (ex_call (Enqueue 0 0)) (ex_call (Waiting 0)) \<and> (1 :: nat) \<le> 4 * (1 + 2)"
proof -
  have b: "send_begin 900 [7] (arq_new True) = Some (Inr (ex_A [] [(1, None)], ex_call (Enqueue 0 0)))"
    by (simp add: send_begin_def ex_fragments ex_defs)
  have "(ex_A [ex_data] [(1, None)], ex_call (Waiting 0))
      \<in> set (send_step ex_magic 4 (ex_A [] [(1, None)], ex_call (Enqueue 0 0)))"
    by (simp add: send_step_def enqueueFrame_def chan_send_def outbound_cap_def ex_defs)
  from run_step [OF run_refl this] have r:
    "send_run ex_magic 4 1 (ex_call (Enqueue 0 0)) (ex_call (Waiting 0))" by simp
  from Send_is_bounded [OF b _ r] r show ?thesis by (simp add: ex_call_def)
qed

end
