(* ===== verification/H264.thy ===== *)
theory H264
  imports Interfaces Go_Std
begin

text \<open>
  \<open>seichannel/h264.go\<close>: payloads carried in user-data SEI messages of an H.264 access unit.
  Emulation prevention, the SEI value coding, building and parsing the SEI message. The NAL
  reader (\<open>h264reader\<close> of pion) is not part of the repository: it is the parameter \<open>reader\<close>,
  which gives the NAL units of a stream up to its first error, or \<open>None\<close> when it cannot be
  created.
\<close>

datatype sei_error = ErrSEIPayloadTruncated | ErrSEIValueTruncated

definition videoSEIUUID :: bytes where
  "videoSEIUUID = [0x5d, 0xc0, 0x3b, 0xa8, 0x45, 0x0f, 0x4b, 0x55,
                   0x9a, 0x77, 0x1f, 0x91, 0x6c, 0x5b, 0x07, 0x39]"

definition baseSPS :: bytes where
  "baseSPS = [0x67, 0x42, 0xc0, 0x0a, 0xdd, 0xec, 0x04, 0x40, 0x00, 0x00, 0x03, 0x00, 0x40,
              0x00, 0x00, 0x03, 0x00, 0xa3, 0xc4, 0x89, 0xe0]"

definition basePPS :: bytes where
  "basePPS = [0x68, 0xce, 0x0f, 0xc8]"

definition baseIDR :: bytes where
  "baseIDR = [0x65, 0x88, 0x84, 0x3a, 0x26, 0x28, 0x00, 0x09, 0x02, 0xe0]"

section \<open>Emulation prevention\<close>

fun escape_loop :: "nat \<Rightarrow> bytes \<Rightarrow> bytes" where
  "escape_loop zeroCount [] = []"
| "escape_loop zeroCount (b # rbsp) =
     (if 2 \<le> zeroCount \<and> b \<le> 3
      then 3 # b # escape_loop (if b = 0 then 1 else 0) rbsp
      else b # escape_loop (if b = 0 then zeroCount + 1 else 0) rbsp)"

definition escapeRBSP :: "bytes \<Rightarrow> bytes" where
  "escapeRBSP rbsp = escape_loop 0 rbsp"

text \<open>The loop of \<open>unescapeRBSP\<close> looks back at the two bytes before position \<open>i\<close> of its input.\<close>

definition unescape_at :: "bytes \<Rightarrow> nat \<Rightarrow> bytes" where
  "unescape_at rbsp i =
     (if 2 \<le> i \<and> rbsp ! i = 3 \<and> rbsp ! (i - 1) = 0 \<and> rbsp ! (i - 2) = 0 then [] else [rbsp ! i])"

definition unescapeRBSP :: "bytes \<Rightarrow> bytes" where
  "unescapeRBSP rbsp = concat (map (unescape_at rbsp) [0..<length rbsp])"

section \<open>SEI messages\<close>

fun appendSEIValue :: "bytes \<Rightarrow> nat \<Rightarrow> bytes" where
  "appendSEIValue dst v = (if 0xff \<le> v then appendSEIValue (dst @ [0xff]) (v - 0xff) else dst @ [word_of_nat v])"

declare appendSEIValue.simps [simp del]

fun consume_loop :: "bytes \<Rightarrow> nat \<Rightarrow> nat \<Rightarrow> (sei_error + nat \<times> nat)" where
  "consume_loop [] pos v = Inl ErrSEIValueTruncated"
| "consume_loop (b # rest) pos v =
     (if b \<noteq> 0xff then Inr (v + unat b, pos + 1) else consume_loop rest (pos + 1) (v + unat b))"

definition consumeSEIValue :: "bytes \<Rightarrow> nat \<Rightarrow> (sei_error + nat \<times> nat)" where
  "consumeSEIValue data pos = consume_loop (drop pos data) pos 0"

definition appendStartCode :: "bytes \<Rightarrow> bytes \<Rightarrow> bytes" where
  "appendStartCode dst nalu = dst @ [0, 0, 0, 1] @ nalu"

definition sei_rbsp :: "bytes \<Rightarrow> bytes" where
  "sei_rbsp payload =
     (let userData = videoSEIUUID @ payload
      in appendSEIValue (appendSEIValue [] 5) (length userData) @ userData @ [0x80])"

definition buildSEINAL :: "bytes \<Rightarrow> bytes" where
  "buildSEINAL payload = 0x06 # escapeRBSP (sei_rbsp payload)"

definition buildVideoAccessUnit :: "bytes \<Rightarrow> bytes" where
  "buildVideoAccessUnit payload =
     (let out = appendStartCode [] baseSPS;
          out = appendStartCode out basePPS;
          out = (if 0 < length payload then appendStartCode out (buildSEINAL payload) else out)
      in appendStartCode out baseIDR)"

lemma consume_loop_bounds:
  "consume_loop rest pos v = Inr (v', pos') \<Longrightarrow> pos < pos' \<and> pos' \<le> pos + length rest"
  by (induction rest pos v rule: consume_loop.induct) (auto split: if_splits)

lemma consumeSEIValue_bounds:
  "consumeSEIValue data pos = Inr (v, pos') \<Longrightarrow> pos < pos' \<and> pos' \<le> length data"
  using consume_loop_bounds [of "drop pos data" pos 0 v pos']
  by (cases "pos < length data") (auto simp: consumeSEIValue_def)

function extract_loop :: "bytes \<Rightarrow> nat \<Rightarrow> bytes list \<Rightarrow> (sei_error + bytes list)" where
  "extract_loop data pos out =
     (if length data \<le> pos \<or> data ! pos = 0x80 \<and> pos = length data - 1 then Inr out
      else (case consumeSEIValue data pos of
          Inl e \<Rightarrow> Inl e
        | Inr (payloadType, pos1) \<Rightarrow>
            (case consumeSEIValue data pos1 of
               Inl e \<Rightarrow> Inl e
             | Inr (payloadSize, pos2) \<Rightarrow>
                 if length data < pos2 + payloadSize then Inl ErrSEIPayloadTruncated
                 else let payload = slice pos2 (pos2 + payloadSize) data in
                   if payloadType \<noteq> 5 \<or> length payload < length videoSEIUUID
                      \<or> take (length videoSEIUUID) payload \<noteq> videoSEIUUID
                   then extract_loop data (pos2 + payloadSize) out
                   else extract_loop data (pos2 + payloadSize)
                          (out @ [drop (length videoSEIUUID) payload]))))"
  by pat_completeness auto
termination
  by (relation "measure (\<lambda>(data, pos, out). length data - pos)")
     (auto dest!: consumeSEIValue_bounds)

declare extract_loop.simps [simp del]

definition extractTransportSEI :: "bytes \<Rightarrow> (sei_error + bytes list)" where
  "extractTransportSEI rbsp = extract_loop (unescapeRBSP rbsp) 0 []"

section \<open>Reading an access unit\<close>

record nal =
  n_unitType :: nat
  n_data :: bytes

definition NalUnitTypeSEI :: nat where "NalUnitTypeSEI = 6"

datatype h264_error = ErrCreateH264Reader

definition extractVideoPayloads ::
  "(bytes \<Rightarrow> nal option list option) \<Rightarrow> bytes \<Rightarrow> (h264_error + bytes list)" where
  "extractVideoPayloads reader accessUnit =
     (case reader accessUnit of
        None \<Rightarrow> Inl ErrCreateH264Reader
      | Some nals \<Rightarrow> Inr (concat (map (\<lambda>n. case n of
            None \<Rightarrow> []
          | Some nal \<Rightarrow>
              if n_unitType nal \<noteq> NalUnitTypeSEI \<or> length (n_data nal) < 2 then []
              else (case extractTransportSEI (drop 1 (n_data nal)) of
                      Inl _ \<Rightarrow> [] | Inr found \<Rightarrow> found)) nals)))"

section \<open>Emulation prevention is undone, and leaves no start code\<close>

text \<open>\<open>unesc z\<close> is the unescaping loop after \<open>z\<close> zero bytes.\<close>

fun unesc :: "nat \<Rightarrow> bytes \<Rightarrow> bytes" where
  "unesc z [] = []"
| "unesc z (b # bs) = (if 2 \<le> z \<and> b = 3 then unesc 0 bs else b # unesc (if b = 0 then Suc z else 0) bs)"

definition zeros_before :: "bytes \<Rightarrow> nat" where
  "zeros_before pre = length (takeWhile (\<lambda>b. b = 0) (rev pre))"

lemma zeros_before_snoc: "zeros_before (pre @ [b]) = (if b = 0 then Suc (zeros_before pre) else 0)"
  by (simp add: zeros_before_def)

lemma zeros_before_2:
  "2 \<le> zeros_before pre \<longleftrightarrow> 2 \<le> length pre \<and> pre ! (length pre - 1) = 0 \<and> pre ! (length pre - 2) = 0"
proof (cases pre rule: rev_cases)
  case (snoc p b)
  show ?thesis
  proof (cases p rule: rev_cases)
    case (snoc p' b')
    then show ?thesis using \<open>pre = p @ [b]\<close> by (auto simp: zeros_before_def nth_append)
  qed (simp add: snoc zeros_before_def)
qed (simp add: zeros_before_def)

lemma unescape_unesc:
  "concat (map (unescape_at (pre @ r)) [length pre..<length pre + length r]) = unesc (zeros_before pre) r"
proof (induction r arbitrary: pre)
  case (Cons b r)
  have "[length pre..<length pre + length (b # r)] = length pre # [length (pre @ [b])..<length (pre @ [b]) + length r]"
    by (simp add: upt_rec [of "length pre"]) (simp add: Suc_le_eq)
  moreover have "unescape_at (pre @ b # r) (length pre) = (if 2 \<le> zeros_before pre \<and> b = 3 then [] else [b])"
    by (auto simp: unescape_at_def zeros_before_2 nth_append)
  ultimately show ?case
    using Cons.IH [of "pre @ [b]"] by (auto simp: zeros_before_snoc)
qed simp

lemma unescapeRBSP_unesc: "unescapeRBSP r = unesc 0 r"
  using unescape_unesc [of "[]" r] by (simp add: unescapeRBSP_def zeros_before_def)

lemma unesc_escape: "unesc z (escape_loop z r) = r"
  by (induction z r rule: escape_loop.induct) auto

lemma unescape_escape [simp]: "unescapeRBSP (escapeRBSP r) = r"
  by (simp add: unescapeRBSP_unesc escapeRBSP_def unesc_escape)

text \<open>No three bytes \<open>00 00 0x\<close> with \<open>x \<le> 2\<close>: neither a start code nor a forbidden pattern.\<close>

definition start_code_free :: "bytes \<Rightarrow> bool" where
  "start_code_free xs \<longleftrightarrow>
     (\<forall>i. i + 2 < length xs \<longrightarrow> xs ! i = 0 \<longrightarrow> xs ! (i + 1) = 0 \<longrightarrow> 3 \<le> xs ! (i + 2))"

fun safe_from :: "nat \<Rightarrow> bytes \<Rightarrow> bool" where
  "safe_from z [] = True"
| "safe_from z (b # bs) = ((2 \<le> z \<longrightarrow> 3 \<le> b) \<and> safe_from (if b = 0 then Suc z else 0) bs)"

lemma safe_escape: "safe_from z (escape_loop z r)"
proof (induction z r rule: escape_loop.induct)
  case (2 z b r)
  then show ?case by (auto simp: not_le)
qed simp

lemma safe_from_nth:
  "safe_from z xs \<Longrightarrow> i + 2 < length xs \<Longrightarrow> xs ! i = 0 \<Longrightarrow> xs ! (i + 1) = 0 \<Longrightarrow> 3 \<le> xs ! (i + 2)"
proof (induction z xs arbitrary: i rule: safe_from.induct)
  case (2 z b bs)
  show ?case
  proof (cases i)
    case 0
    then obtain c d cs where "bs = c # d # cs"
      using "2.prems" by (cases bs; cases "tl bs") auto
    with 2 0 show ?thesis by auto
  next
    case (Suc j)
    with "2.prems" have "safe_from (if b = 0 then Suc z else 0) bs" "j + 2 < length bs"
      "bs ! j = 0" "bs ! (j + 1) = 0" by auto
    then show ?thesis using "2.IH" [of j] Suc by (simp split: if_splits)
  qed
qed simp

lemma escape_start_code_free: "start_code_free (escapeRBSP r)"
  using safe_from_nth [OF safe_escape [of 0 r]] by (simp add: start_code_free_def escapeRBSP_def)

section \<open>SEI values and messages\<close>

lemma appendSEIValue_eq: "appendSEIValue dst v = dst @ replicate (v div 255) 0xff @ [word_of_nat (v mod 255)]"
proof (induction dst v rule: appendSEIValue.induct)
  case (1 dst v)
  show ?case
  proof (cases "255 \<le> v")
    case True
    then have "v div 255 = Suc ((v - 255) div 255)" "v mod 255 = (v - 255) mod 255"
      by (simp_all add: le_div_geq le_mod_geq)
    with 1 True show ?thesis
      by (simp add: appendSEIValue.simps [of dst v])
  next
    case False
    then show ?thesis by (simp add: appendSEIValue.simps [of dst v])
  qed
qed

lemma unat_byte_of_nat: "n < 256 \<Longrightarrow> unat (word_of_nat n :: byte) = n"
  by (simp add: unat_of_nat)

lemma consume_loop_value:
  "consume_loop (replicate n 0xff @ word_of_nat k # rest) pos v =
     Inr (v + 255 * n + k, pos + n + 1)" if "k < 255"
  using that
proof (induction n arbitrary: pos v)
  case 0
  then have "unat (word_of_nat k :: byte) = k" by (simp add: unat_byte_of_nat)
  moreover from this 0 have "(word_of_nat k :: byte) \<noteq> 0xff" by auto
  ultimately show ?case by simp
qed simp

lemma consume_append:
  "consumeSEIValue (pre @ appendSEIValue [] v @ rest) (length pre) =
     Inr (v, length pre + length (appendSEIValue [] v))"
proof -
  have "consume_loop (appendSEIValue [] v @ rest) (length pre) 0 =
      Inr (255 * (v div 255) + v mod 255, length pre + length (appendSEIValue [] v))"
    using consume_loop_value [of "v mod 255" "v div 255" rest "length pre" 0]
    by (simp add: appendSEIValue_eq)
  then show ?thesis by (simp add: consumeSEIValue_def)
qed

lemma appendSEIValue_append: "appendSEIValue dst v = dst @ appendSEIValue [] v"
  by (simp add: appendSEIValue_eq)

lemma length_appendSEIValue: "length (appendSEIValue [] v) = v div 255 + 1"
  by (simp add: appendSEIValue_eq)

text \<open>One SEI message at position \<open>length pre\<close>, followed by more.\<close>

lemma extract_message:
  assumes d: "data = pre @ appendSEIValue [] 5 @ appendSEIValue [] (length (videoSEIUUID @ p)) @ videoSEIUUID @ p @ rest"
    and "rest \<noteq> []"
  shows "extract_loop data (length pre) out = extract_loop data (length data - length rest) (out @ [p])"
proof -
  let ?ty = "appendSEIValue [] 5" and ?u = "videoSEIUUID @ p"
  let ?sz = "appendSEIValue [] (length ?u)"
  have ty: "?ty = [5]" by (simp add: appendSEIValue_eq)
  have d1: "data = pre @ ?ty @ (?sz @ ?u @ rest)" and d2: "data = (pre @ ?ty) @ ?sz @ (?u @ rest)"
    using d by simp_all
  have c1: "consumeSEIValue data (length pre) = Inr (5, length pre + 1)"
    using consume_append [of pre 5 "?sz @ ?u @ rest"] d1 ty by simp
  define n2 n where "n2 = length pre + 1 + length ?sz" and "n = length ?u"
  have c2: "consumeSEIValue data (length pre + 1) = Inr (n, n2)"
    using consume_append [of "pre @ ?ty" "length ?u" "?u @ rest"] d2 ty by (simp add: n2_def n_def)
  have go: "\<not> length data \<le> length pre" "data ! length pre = 5"
    using d1 ty by (simp_all add: nth_append)
  have sl: "slice n2 (n2 + n) data = ?u"
    using d ty by (simp add: slice_def n2_def n_def)
  have e: "n2 + n = length data - length rest" "\<not> length data < n2 + n"
    using d ty by (simp_all add: n2_def n_def)
  have "extract_loop data (length pre) out = extract_loop data (n2 + n) (out @ [p])"
    by (subst extract_loop.simps) (simp add: go c1 c2 [simplified] sl e(2))
  then show ?thesis by (simp only: e(1))
qed

lemma extract_end: "data \<noteq> [] \<Longrightarrow> last data = 0x80 \<Longrightarrow> extract_loop data (length data - 1) out = Inr out"
  by (subst extract_loop.simps) (simp add: last_conv_nth)

lemma extract_build:
  "extractTransportSEI (drop 1 (buildSEINAL p)) = Inr [p]"
proof -
  let ?d = "sei_rbsp p"
  have d: "?d = [] @ appendSEIValue [] 5 @ appendSEIValue [] (length (videoSEIUUID @ p)) @ videoSEIUUID @ p @ [0x80]"
    by (simp add: sei_rbsp_def appendSEIValue_append [of "appendSEIValue [] 5"])
  have "extract_loop ?d 0 [] = extract_loop ?d (length ?d - 1) [p]"
    using extract_message [OF d, of "[]"] by simp
  also have "\<dots> = Inr [p]"
    by (rule extract_end) (simp_all add: d)
  finally show ?thesis by (simp add: extractTransportSEI_def buildSEINAL_def)
qed

text \<open>The four NAL units of an access unit, as a reader that splits at start codes gives them.\<close>

definition parsed_nal :: "bytes \<Rightarrow> nal option" where
  "parsed_nal n = Some \<lparr>n_unitType = unat (hd n AND 0x1f), n_data = n\<rparr>"

definition access_unit_nals :: "bytes \<Rightarrow> bytes list" where
  "access_unit_nals payload =
     [baseSPS, basePPS] @ (if payload = [] then [] else [buildSEINAL payload]) @ [baseIDR]"

definition reader_splits :: "(bytes \<Rightarrow> nal option list option) \<Rightarrow> bytes \<Rightarrow> bool" where
  "reader_splits reader payload \<longleftrightarrow>
     reader (buildVideoAccessUnit payload) = Some (map parsed_nal (access_unit_nals payload))"

lemma access_unit_concat:
  "buildVideoAccessUnit payload = concat (map (\<lambda>n. [0, 0, 0, 1] @ n) (access_unit_nals payload))"
  by (simp add: buildVideoAccessUnit_def access_unit_nals_def appendStartCode_def Let_def)

lemma buildSEINAL_start_code_free: "start_code_free (buildSEINAL p)"
proof -
  have "safe_from 0 (0x06 # escapeRBSP (sei_rbsp p))"
    using safe_escape by (simp add: escapeRBSP_def)
  from safe_from_nth [OF this] show ?thesis by (simp add: start_code_free_def buildSEINAL_def)
qed

lemma last_escape: "r \<noteq> [] \<Longrightarrow> last (escape_loop z r) = last r"
  by (induction z r rule: escape_loop.induct) (auto split: if_splits elim: escape_loop.elims)

lemma extract_access_unit:
  assumes "reader_splits reader payload" and "payload \<noteq> []"
  shows "extractVideoPayloads reader (buildVideoAccessUnit payload) = Inr [payload]"
proof -
  have "2 \<le> length (buildSEINAL payload)"
    by (cases "sei_rbsp payload") (auto simp: buildSEINAL_def escapeRBSP_def sei_rbsp_def)
  moreover have "hd (buildSEINAL payload) AND 0x1f = 6" by (simp add: buildSEINAL_def)
  ultimately show ?thesis
    using assms extract_build [of payload]
    by (simp add: reader_splits_def extractVideoPayloads_def access_unit_nals_def parsed_nal_def
        baseSPS_def basePPS_def baseIDR_def NalUnitTypeSEI_def)
qed

lemma extract_idle:
  assumes "reader_splits reader []"
  shows "extractVideoPayloads reader (buildVideoAccessUnit []) = Inr []"
  using assms
  by (simp add: reader_splits_def extractVideoPayloads_def access_unit_nals_def parsed_nal_def
      baseSPS_def basePPS_def baseIDR_def NalUnitTypeSEI_def)

interpretation sei_nal: byte_codec buildSEINAL
  "\<lambda>n. case extractTransportSEI (drop 1 n) of Inr [p] \<Rightarrow> Some p | _ \<Rightarrow> None" "\<lambda>_. True"
  by unfold_locales (simp add: extract_build [simplified])

section \<open>Properties\<close>

text \<open>Emulation prevention is undone exactly, and its output never contains a start code or
  any other three-byte pattern \<open>00 00 00..02\<close> that a NAL parser would act on.\<close>

lemma escape_roundtrip:
  "unescapeRBSP (escapeRBSP rbsp) = rbsp \<and> start_code_free (escapeRBSP rbsp)"
  by (simp add: escape_start_code_free)

text \<open>C23: the SEI message of any payload, of any length and content, parses to exactly that
  payload, and the NAL unit that carries it contains no start code.\<close>

theorem sei_nal_roundtrip:
  "extractTransportSEI (drop 1 (buildSEINAL payload)) = Inr [payload]
   \<and> start_code_free (buildSEINAL payload)"
  using extract_build [of payload] buildSEINAL_start_code_free by simp

text \<open>With a NAL reader that splits the access unit at its start codes, the payloads read
  from an access unit are the payload it was built from, and none for the idle unit.\<close>

lemma access_unit_roundtrip:
  assumes "reader_splits reader payload"
  shows "extractVideoPayloads reader (buildVideoAccessUnit payload)
     = Inr (if payload = [] then [] else [payload])"
  using assms extract_access_unit extract_idle by auto

end
