(* ===== verification/Seichannel.thy ===== *)
theory Seichannel
  imports Reliable_Contract H264 Stack
begin

text \<open>
  The seichannel transport (\<open>transport/seichannel/transport.go\<close>): the acknowledged-delivery
  engine at its own protocol magic, the writer that packs frames into H.264 access units, the
  reader that takes them out again, construction with its defaults, and the closing handshake
  with the writer.

  Durations are 64-bit nanosecond counts.
\<close>

section \<open>State\<close>

definition sei_magic :: u32 where "sei_magic = 0x4f564331"
definition sei_maxSendAttempts :: nat where "sei_maxSendAttempts = 4"
definition sei_defaultFragmentSize :: int where "sei_defaultFragmentSize = 900"
definition sei_defaultAckTimeout :: int where "sei_defaultAckTimeout = 3 * second"
definition sei_defaultFrameInterval :: int where "sei_defaultFrameInterval = 50 * millisecond"
definition sei_defaultFPS :: int where "sei_defaultFPS = 20"
definition sei_defaultBatchSize :: int where "sei_defaultBatchSize = 1"

lemmas sei_consts = sei_magic_def sei_maxSendAttempts_def sei_defaultFragmentSize_def
  sei_defaultAckTimeout_def sei_defaultFrameInterval_def sei_defaultFPS_def sei_defaultBatchSize_def
  millisecond_def second_def

text \<open>The engine's state extended by the transport's settings, the state of the carrier's video
  track, the samples written to the local track, and the writer's two flags.\<close>

record 's sei = arq +
  t_stream :: 's
  t_written :: "bytes list"
  t_writerUp :: bool
  t_writerDone :: bool
  t_fragmentSize :: int
  t_ackTimeout :: int
  t_frameInterval :: int
  t_batchSize :: int

section \<open>Construction\<close>

definition sei_ErrVideoTrackUnsupported :: go_error where
  "sei_ErrVideoTrackUnsupported = Base ''carrier does not support video tracks''"

definition sei_carrier_config :: "'o transport_config \<Rightarrow> 'o carrier_config" where
  "sei_carrier_config cfg = (carrier_config_of cfg)\<lparr>cc_OnData := None\<rparr>"

definition sei_settings :: "'o transport_config \<Rightarrow> 's \<Rightarrow> 's sei" where
  "sei_settings cfg st =
     (let fps = (if tc_SEIFPS cfg \<le> 0 then sei_defaultFPS else tc_SEIFPS cfg);
          batchSize = (if tc_SEIBatchSize cfg \<le> 0 then sei_defaultBatchSize else tc_SEIBatchSize cfg);
          fragmentSize = (if tc_SEIFragmentSize cfg \<le> 0 then sei_defaultFragmentSize
                          else tc_SEIFragmentSize cfg);
          ackTimeout = (if 0 < tc_SEIAckTimeoutMS cfg
                        then wrap64 (tc_SEIAckTimeoutMS cfg * millisecond) else sei_defaultAckTimeout)
      in arq.extend (arq_new (tc_OnData cfg \<noteq> None))
           (sei.fields st [] False False fragmentSize ackTimeout (second div fps) batchSize))"

definition sei_New ::
    "('o carrier_config, ('s, 'u, 't, 'h) carrier_session) registry_map \<Rightarrow> (go_error + 't) \<Rightarrow> 'h \<Rightarrow>
     'o transport_config \<Rightarrow> 's \<Rightarrow> go_error + ('s, 'u, 't, 'h) video_track \<times> 's sei" where
  "sei_New carrier_reg newTrack handleRemoteTrack cfg st =
     (case carrier_New carrier_reg (tc_Carrier cfg) (sei_carrier_config cfg) of
        Inl err \<Rightarrow> Inl (Ctx ''create carrier transport'' err)
      | Inr session \<Rightarrow>
     (case cs_OpenVideoTrack session of
        None \<Rightarrow> Inl sei_ErrVideoTrackUnsupported
      | Some (Inl err) \<Rightarrow> Inl (Ctx ''open video track'' err)
      | Some (Inr stream) \<Rightarrow>
     (case newTrack of
        Inl err \<Rightarrow> Inl (Ctx ''create local video track'' err)
      | Inr track \<Rightarrow>
     (case vt_AddTrack stream track st of
        (Some err, st') \<Rightarrow> Inl (Ctx ''attach local video track'' err)
      | (None, st') \<Rightarrow>
          Inr (stream, sei_settings cfg (vt_SetTrackHandler stream handleRemoteTrack st'))))))"

section \<open>Settings in effect\<close>

definition sei_effectiveFragmentSize :: "'s sei \<Rightarrow> int" where
  "sei_effectiveFragmentSize p =
     (if t_fragmentSize p \<le> 0 then sei_defaultFragmentSize else t_fragmentSize p)"

definition sei_effectiveAckTimeout :: "'s sei \<Rightarrow> int" where
  "sei_effectiveAckTimeout p =
     (if t_ackTimeout p \<le> 0 then sei_defaultAckTimeout else t_ackTimeout p)"

definition sei_effectiveFrameInterval :: "'s sei \<Rightarrow> int" where
  "sei_effectiveFrameInterval p =
     (if t_frameInterval p \<le> 0 then sei_defaultFrameInterval else t_frameInterval p)"

definition sei_effectiveBatchSize :: "'s sei \<Rightarrow> int" where
  "sei_effectiveBatchSize p =
     (if t_batchSize p \<le> 0 then sei_defaultBatchSize else t_batchSize p)"

definition sei_Features :: "'s sei \<Rightarrow> features" where
  "sei_Features p =
     \<lparr>Reliable = True, Ordered = True, MessageOriented = True,
      MaxPayloadSize = wrap64 (sei_effectiveFragmentSize p * 8)\<rparr>"

section \<open>Connecting, sending, closing\<close>

definition sei_Connect :: "('s, 'u, 't, 'h) video_track \<Rightarrow> 's sei \<Rightarrow> go_error option \<times> 's sei" where
  "sei_Connect stream p =
     (case vt_Connect stream (t_stream p) of
        (Some err, st) \<Rightarrow> (Some (Ctx ''connect stream'' err), p\<lparr>t_stream := st\<rparr>)
      | (None, st) \<Rightarrow> (None, p\<lparr>t_stream := st, t_writerUp := True\<rparr>))"

definition sei_send_begin :: "bytes \<Rightarrow> 's sei \<Rightarrow> (arq_error + 's sei \<times> send_call) option" where
  "sei_send_begin data p = send_begin (sei_effectiveFragmentSize p) data p"

definition sei_send_step :: "'s sei \<times> send_call \<Rightarrow> ('s sei \<times> send_call) list" where
  "sei_send_step = send_step sei_magic sei_maxSendAttempts"

text \<open>\<open>Close\<close>: the flag and the channel; then, once the writer is done, the carrier's track.
  \<open>sei_close_wait\<close> is \<open>None\<close> while \<open><-p.writerDone\<close> blocks.\<close>

definition sei_close_begin :: "'s sei \<Rightarrow> 's sei" where
  "sei_close_begin p = arq_close p"

definition sei_close_wait ::
    "('s, 'u, 't, 'h) video_track \<Rightarrow> 's sei \<Rightarrow> (go_error option \<times> 's sei) option" where
  "sei_close_wait stream p =
     (if t_writerUp p \<and> \<not> t_writerDone p then None
      else case vt_Close stream (t_stream p) of
             (e, st) \<Rightarrow> Some (wrap_err ''close stream'' e, p\<lparr>t_stream := st\<rparr>))"

definition sei_CanSend :: "('s, 'u, 't, 'h) video_track \<Rightarrow> 's sei \<Rightarrow> bool" where
  "sei_CanSend stream p \<longleftrightarrow> \<not> a_closed p \<and> vt_CanSend stream (t_stream p)"

definition on_stream :: "('s \<Rightarrow> 's) \<Rightarrow> 's sei \<Rightarrow> 's sei" where
  "on_stream f p = p\<lparr>t_stream := f (t_stream p)\<rparr>"

definition sei_SetReconnectCallback where
  "sei_SetReconnectCallback stream cb = on_stream (vt_SetReconnectCallback stream cb)"
definition sei_SetShouldReconnect where
  "sei_SetShouldReconnect stream fn = on_stream (vt_SetShouldReconnect stream fn)"
definition sei_SetEndedCallback where
  "sei_SetEndedCallback stream cb = on_stream (vt_SetEndedCallback stream cb)"
definition sei_WatchConnection where
  "sei_WatchConnection stream = on_stream (vt_WatchConnection stream)"

section \<open>The writer\<close>

definition write_sample :: "bytes \<Rightarrow> 's sei \<Rightarrow> 's sei" where
  "write_sample data p = p\<lparr>t_written := t_written p @ [data]\<rparr>"

text \<open>The loop of \<open>writeBatch\<close> with \<open>n\<close> rounds left, at round \<open>i\<close>; the outcomes of its selects.\<close>

fun sei_batch_loop :: "bytes \<Rightarrow> nat \<Rightarrow> nat \<Rightarrow> 's sei \<Rightarrow> (bool \<times> 's sei) list" where
  "sei_batch_loop idle 0 i p = [(True, p)]"
| "sei_batch_loop idle (Suc n) i p =
     concat (map (\<lambda>((payload, ok), p').
         if \<not> ok then [(False, p')]
         else case payload of
                None \<Rightarrow> [(True, if 0 < i then p' else write_sample idle p')]
              | Some frame \<Rightarrow>
                  sei_batch_loop idle n (Suc i) (write_sample (buildVideoAccessUnit frame) p'))
       (nextOutboundFrame p))"

definition sei_writeBatch :: "bytes \<Rightarrow> 's sei \<Rightarrow> (bool \<times> 's sei) list" where
  "sei_writeBatch idle p = sei_batch_loop idle (nat (sei_effectiveBatchSize p)) 0 p"

text \<open>One round of \<open>writerLoop\<close>: it ends on the close channel, or when a batch says so; the
  first component says whether the loop goes on.\<close>

definition sei_writer_round :: "'s sei \<Rightarrow> (bool \<times> 's sei) list" where
  "sei_writer_round p =
     (if a_closeCh p then [(False, p\<lparr>t_writerDone := True\<rparr>)] else [])
     @ map (\<lambda>(ok, p'). (ok, if ok then p' else p'\<lparr>t_writerDone := True\<rparr>))
         (sei_writeBatch (buildVideoAccessUnit []) p)"

section \<open>The reader\<close>

text \<open>The loop of \<open>handleSample\<close>; an acknowledgement that blocks on a full queue has no
  outcome.\<close>

fun sei_handle_payloads :: "bytes list \<Rightarrow> 's sei \<Rightarrow> 's sei list" where
  "sei_handle_payloads [] p = [p]"
| "sei_handle_payloads (payload # payloads) p =
     (case dispatchFrame sei_magic payload p of
        (p', None) \<Rightarrow> sei_handle_payloads payloads p'
      | (p', Some (sq, crc)) \<Rightarrow>
          concat (map (sei_handle_payloads payloads) (sendAck sei_magic sq crc p')))"

definition sei_handleSample ::
    "(bytes \<Rightarrow> nal option list option) \<Rightarrow> bytes \<Rightarrow> 's sei \<Rightarrow> 's sei list" where
  "sei_handleSample reader sample p =
     (case extractVideoPayloads reader sample of
        Inl _ \<Rightarrow> [p]
      | Inr payloads \<Rightarrow> sei_handle_payloads payloads p)"

section \<open>Settings are always usable\<close>

lemma sei_effective_pos:
  "0 < sei_effectiveFragmentSize p" "0 < sei_effectiveAckTimeout p"
  "0 < sei_effectiveFrameInterval p" "0 < sei_effectiveBatchSize p"
  by (auto simp: sei_effectiveFragmentSize_def sei_effectiveAckTimeout_def
      sei_effectiveFrameInterval_def sei_effectiveBatchSize_def sei_consts)

lemma sei_send_begin_total: "sei_send_begin data p \<noteq> None"
proof -
  obtain fs where "fragmentPayload data (sei_effectiveFragmentSize p) = Some fs"
    using fragmentPayload_Some [OF sei_effective_pos(1)] by blast
  then show ?thesis by (simp add: sei_send_begin_def send_begin_def Let_def)
qed

lemma sei_send_begin_fragments:
  assumes "sei_send_begin data p = Some (Inr (p', c))"
  shows "concat (c_frags c) = data" "c_frags c \<noteq> []" "c_crc c = ChecksumIEEE data"
  using send_begin_call [OF assms [unfolded sei_send_begin_def], of 1] fragmentPayload_concat
  by auto

section \<open>Draining\<close>

lemma open_nextOutboundFrame:
  assumes "\<not> a_closeCh p"
  shows "nextOutboundFrame p =
    (case a_outboundAck p of
       f # q \<Rightarrow> [((Some f, True), p\<lparr>a_outboundAck := q\<rparr>)]
     | [] \<Rightarrow> (case a_outbound p of
                f # q \<Rightarrow> [((Some f, True), p\<lparr>a_outbound := q\<rparr>)]
              | [] \<Rightarrow> [((None, True), p)]))"
  using assms by (simp add: nextOutboundFrame_def split: list.splits)

text \<open>The frames a batch of \<open>n\<close> takes: acknowledgements first, each queue in order.\<close>

definition taken :: "nat \<Rightarrow> 's sei \<Rightarrow> bytes list" where
  "taken n p = take n (a_outboundAck p @ a_outbound p)"

definition drained :: "nat \<Rightarrow> 's sei \<Rightarrow> 's sei" where
  "drained n p = p\<lparr>a_outboundAck := drop n (a_outboundAck p),
     a_outbound := drop (n - length (a_outboundAck p)) (a_outbound p),
     t_written := t_written p @ map buildVideoAccessUnit (taken n p)\<rparr>"

lemma sei_batch_loop_later:
  "\<not> a_closeCh p \<Longrightarrow> 0 < i \<Longrightarrow> sei_batch_loop idle n i p = [(True, drained n p)]"
proof (induction n arbitrary: i p)
  case 0
  then show ?case by (simp add: drained_def taken_def)
next
  case (Suc n)
  show ?case
  proof (cases "a_outboundAck p")
    case (Cons f q)
    with Suc show ?thesis
      by (simp add: open_nextOutboundFrame write_sample_def drained_def taken_def)
  next
    case Nil
    with Suc show ?thesis
      by (cases "a_outbound p")
        (simp_all add: open_nextOutboundFrame write_sample_def drained_def taken_def)
  qed
qed

lemma sei_batch_loop_first:
  assumes "\<not> a_closeCh p"
  shows "sei_batch_loop idle (Suc n) 0 p =
     [(True, if a_outboundAck p = [] \<and> a_outbound p = [] then write_sample idle p
             else drained (Suc n) p)]"
proof (cases "a_outboundAck p")
  case (Cons f q)
  with assms show ?thesis
    by (simp add: open_nextOutboundFrame sei_batch_loop_later write_sample_def drained_def taken_def)
next
  case Nil
  with assms show ?thesis
    by (cases "a_outbound p")
      (simp_all add: open_nextOutboundFrame sei_batch_loop_later write_sample_def drained_def taken_def)
qed

lemma sei_writeBatch_open:
  assumes "\<not> a_closeCh p"
  shows "sei_writeBatch idle p =
     [(True, if a_outboundAck p = [] \<and> a_outbound p = [] then write_sample idle p
             else drained (nat (sei_effectiveBatchSize p)) p)]"
proof -
  obtain n where n: "nat (sei_effectiveBatchSize p) = Suc n"
    using sei_effective_pos(4) [of p] by (metis gr0_implies_Suc zero_less_nat_eq)
  show ?thesis unfolding sei_writeBatch_def n by (rule sei_batch_loop_first [OF assms])
qed

lemma closing_nextOutboundFrame:
  assumes "a_closeCh p" and "((payload, ok), p') \<in> set (nextOutboundFrame p)"
  shows "\<not> ok \<or> (\<exists>f. payload = Some f \<and> a_outboundAck p = f # a_outboundAck p' \<and> a_closeCh p')"
  using assms by (auto simp: nextOutboundFrame_def chan_recv_def split: list.splits)

lemma closing_batch_loop:
  "a_closeCh p \<Longrightarrow> (ok, p') \<in> set (sei_batch_loop idle n i p) \<Longrightarrow>
     length (a_outboundAck p') \<le> length (a_outboundAck p)
     \<and> (ok \<longrightarrow> length (a_outboundAck p') + n \<le> length (a_outboundAck p))"
proof (induction n arbitrary: i p)
  case 0
  then show ?case by simp
next
  case (Suc n)
  from Suc.prems(2) obtain payload ok1 p1 where 1: "((payload, ok1), p1) \<in> set (nextOutboundFrame p)"
    and r: "(ok, p') \<in> set (if \<not> ok1 then [(False, p1)]
         else case payload of
                None \<Rightarrow> [(True, if 0 < i then p1 else write_sample idle p1)]
              | Some frame \<Rightarrow>
                  sei_batch_loop idle n (Suc i) (write_sample (buildVideoAccessUnit frame) p1))"
    by auto
  from closing_nextOutboundFrame [OF Suc.prems(1) 1] show ?case
  proof
    assume n: "\<not> ok1"
    have "length (a_outboundAck p1) \<le> length (a_outboundAck p)"
      using 1 by (auto simp: nextOutboundFrame_def chan_recv_def split: list.splits if_splits)
    with n r show ?case by simp
  next
    assume "\<exists>f. payload = Some f \<and> a_outboundAck p = f # a_outboundAck p1 \<and> a_closeCh p1"
    then obtain f where f: "payload = Some f" "a_outboundAck p = f # a_outboundAck p1" "a_closeCh p1"
      by blast
    show ?case
    proof (cases ok1)
      case True
      with r f Suc.IH [of "write_sample (buildVideoAccessUnit f) p1" "Suc i"] show ?thesis
        by (auto simp: write_sample_def)
    next
      case False
      with r f show ?thesis by simp
    qed
  qed
qed

section \<open>Receiving what the writer wrote\<close>

lemma sei_handle_access_unit:
  assumes "reader_splits reader frame" and "frame \<noteq> []"
  shows "sei_handleSample reader (buildVideoAccessUnit frame) p =
    (case dispatchFrame sei_magic frame p of
       (p', None) \<Rightarrow> [p']
     | (p', Some (sq, crc)) \<Rightarrow> sendAck sei_magic sq crc p')"
proof -
  have ps: "concat (map (sei_handle_payloads []) ps) = ps" for ps :: "'b sei list"
    by (induction ps) simp_all
  show ?thesis
    by (simp add: ps sei_handleSample_def extract_access_unit [OF assms] split: prod.splits option.splits)
qed

section \<open>The closing contract\<close>

interpretation sei_closing: closable a_closed sei_close_begin "sei_CanSend stream"
  "\<lambda>data p. sei_send_begin data p = Some (Inl ErrTransportClosed)" for stream
  by unfold_locales
    (auto simp: sei_close_begin_def arq_close_def sei_CanSend_def sei_send_begin_def send_begin_def)

section \<open>Properties\<close>

text \<open>On an open transport one batch of the writer has exactly one outcome: it takes up to
  \<open>batchSize\<close> frames, acknowledgements before data and each queue in order, writes each as its
  own access unit, and writes the idle access unit when both queues are empty.\<close>

lemma writer_batch_order:
  assumes "\<not> a_closeCh p"
  shows "sei_writeBatch (buildVideoAccessUnit []) p =
    (let b = nat (sei_effectiveBatchSize p); queued = a_outboundAck p @ a_outbound p in
     [(True, p\<lparr>a_outboundAck := drop b (a_outboundAck p),
               a_outbound := drop (b - length (a_outboundAck p)) (a_outbound p),
               t_written := t_written p @
                 (if queued = [] then [buildVideoAccessUnit []]
                  else map buildVideoAccessUnit (take b queued))\<rparr>)])"
  unfolding sei_writeBatch_open [OF assms] Let_def
  by (auto simp: write_sample_def drained_def taken_def)

text \<open>After \<open>Close\<close> the writer ends: a round of its loop either is the last one or has
  sent one of the acknowledgements still queued, so it ends after at most as many rounds as
  there are queued acknowledgements, plus one; and it can end at once.\<close>

lemma closed_writer_ends:
  assumes "a_closeCh p"
  shows "(\<forall>r\<in>set (sei_writer_round p).
            fst r \<longrightarrow> length (a_outboundAck (snd r)) < length (a_outboundAck p))
     \<and> (False, p\<lparr>t_writerDone := True\<rparr>) \<in> set (sei_writer_round p)"
proof
  show "\<forall>r\<in>set (sei_writer_round p).
      fst r \<longrightarrow> length (a_outboundAck (snd r)) < length (a_outboundAck p)"
  proof
    fix r assume "r \<in> set (sei_writer_round p)"
    then consider "\<not> fst r"
      | ok p' where "(ok, p') \<in> set (sei_writeBatch (buildVideoAccessUnit []) p)" "r = (ok, if ok then p' else p'\<lparr>t_writerDone := True\<rparr>)"
      by (auto simp: sei_writer_round_def)
    then show "fst r \<longrightarrow> length (a_outboundAck (snd r)) < length (a_outboundAck p)"
    proof cases
      case 2
      from 2(1) have "ok \<longrightarrow> length (a_outboundAck p') + nat (sei_effectiveBatchSize p) \<le> length (a_outboundAck p)"
        using closing_batch_loop [OF assms] by (simp add: sei_writeBatch_def)
      with 2(2) sei_effective_pos(4) [of p] show ?thesis by auto
    qed simp
  qed
qed (use assms in \<open>simp add: sei_writer_round_def\<close>)

text \<open>A frame written by the peer's writer and read back from its access unit is handled
  exactly as the frame itself, for every frame the engine encodes.\<close>

lemma sei_wire_transparent:
  assumes "reader_splits reader (encodeDataFrame sei_magic sq c tot idx n frag)"
  shows "sei_handleSample reader (buildVideoAccessUnit (encodeDataFrame sei_magic sq c tot idx n frag)) p =
    (case handleInboundFrame
            \<lparr>f_typ = frameTypeData, f_seq = sq, f_crc = c, f_totalLen = word_of_nat tot,
             f_fragIdx = word_of_nat idx, f_fragTotal = word_of_nat n, f_payload = frag\<rparr> p of
       (p', None) \<Rightarrow> [p']
     | (p', Some (q, v)) \<Rightarrow> sendAck sei_magic q v p')"
proof -
  have "encodeDataFrame sei_magic sq c tot idx n frag \<noteq> []" by (simp add: encodeDataFrame_def)
  from sei_handle_access_unit [OF assms this] show ?thesis
    by (simp add: dispatchFrame_def frame_consts)
qed

text \<open>Whatever the configuration, \<open>Send\<close> never panics on the fragment size, and its
  fragments concatenate to the payload; the effective fragment size, acknowledgement timeout,
  frame interval and batch size are positive.\<close>

lemma sei_settings_usable:
  "sei_send_begin data p \<noteq> None
   \<and> (\<forall>p' c. sei_send_begin data p = Some (Inr (p', c)) \<longrightarrow>
        concat (c_frags c) = data \<and> c_frags c \<noteq> [] \<and> c_crc c = ChecksumIEEE data)
   \<and> 0 < sei_effectiveFragmentSize p \<and> 0 < sei_effectiveAckTimeout p
   \<and> 0 < sei_effectiveFrameInterval p \<and> 0 < sei_effectiveBatchSize p"
  using sei_send_begin_total sei_send_begin_fragments sei_effective_pos by blast

section \<open>Witnesses\<close>

definition example_sei :: "bytes list \<Rightarrow> bytes list \<Rightarrow> bool \<Rightarrow> unit sei" where
  "example_sei acks out closing =
     arq.extend ((arq_new True)\<lparr>a_outboundAck := acks, a_outbound := out, a_closeCh := closing,
                   a_closed := closing\<rparr>)
       (sei.fields () [] True False 900 (3 * second) (50 * millisecond) 2)"

lemmas example_sei_simps = example_sei_def sei.defs arq.defs arq_new_def sei_effectiveBatchSize_def

end
