(* ===== verification/Ffmpeg.thy ===== *)
theory Ffmpeg
  imports Layers Go_Std
begin

text \<open>
  \<open>videochannel/ffmpeg.go\<close>: the external encoder and decoder processes the videochannel drives
  over pipes. Codec tables and command lines, the frame channels and the goroutines that fill
  them, error recording, the IVF container written to the decoder.

  The processes themselves are outside: what the encoder prints reaches \<open>readIVF\<close> or
  \<open>readRawH264\<close> as a sequence of results. The codec names of pion/webrtc are the parameter
  \<open>mt\<close>. A standard pipe is modelled by \<open>pipe\<close>.
\<close>

section \<open>Writers\<close>

text \<open>\<open>io.Writer\<close>: a write returns how much it took and an error. Its documentation requires an
  error when it takes less than everything; the loop below needs only that it takes something.\<close>

locale io_writer =
  fixes wr :: "bytes \<Rightarrow> 'w \<Rightarrow> (nat \<times> go_error option) \<times> 'w"
    and written :: "'w \<Rightarrow> bytes"
  assumes write_ok: "wr d w = ((n, None), w') \<Longrightarrow> d \<noteq> [] \<Longrightarrow>
      0 < n \<and> n \<le> length d \<and> written w' = written w @ take n d"
    and write_err: "wr d w = ((n, Some e), w') \<Longrightarrow> \<exists>k. written w' = written w @ take k d"

partial_function (option) writeAll ::
    "(bytes \<Rightarrow> 'w \<Rightarrow> (nat \<times> go_error option) \<times> 'w) \<Rightarrow> 'w \<Rightarrow> bytes \<Rightarrow> (go_error option \<times> 'w) option" where
  "writeAll wr w data =
     (if data = [] then Some (None, w)
      else (case wr data w of
              ((n, Some err), w') \<Rightarrow> Some (Some (Ctx ''write'' err), w')
            | ((n, None), w') \<Rightarrow> writeAll wr w' (drop n data)))"

context io_writer begin

lemma writeAll_returns:
  "\<exists>r w' k. writeAll wr w data = Some (r, w') \<and> written w' = written w @ take k data
     \<and> (r = None \<longrightarrow> written w' = written w @ data)"
proof (induction "length data" arbitrary: data w rule: less_induct)
  case less
  show ?case
  proof (cases "data = []")
    case True
    then show ?thesis by (subst writeAll.simps) simp
  next
    case False
    obtain n e w1 where w: "wr data w = ((n, e), w1)" by (metis prod.collapse)
    show ?thesis
    proof (cases e)
      case (Some err)
      with w write_err obtain k where "written w1 = written w @ take k data" by blast
      with w Some False show ?thesis by (subst writeAll.simps) auto
    next
      case None
      with w False write_ok have n: "0 < n" "n \<le> length data" "written w1 = written w @ take n data"
        by blast+
      from less [of "drop n data" w1] n(1) False obtain r w' k where
        r: "writeAll wr w1 (drop n data) = Some (r, w')" "written w' = written w1 @ take k (drop n data)"
          "r = None \<longrightarrow> written w' = written w1 @ drop n data"
        by (metis diff_less length_drop length_greater_0_conv)
      have "take n data @ take k (drop n data) = take (n + k) data" by (simp add: take_add)
      with r n w None False show ?thesis
        by (subst writeAll.simps) (auto intro!: exI [of _ "n + k"])
    qed
  qed
qed

lemma writeAll_ok:
  "writeAll wr w data = Some (None, w') \<Longrightarrow> written w' = written w @ data"
  using writeAll_returns [of w data] by auto

lemma writeAll_terminates: "writeAll wr w data \<noteq> None"
  using writeAll_returns [of w data] by auto

end

text \<open>The standard input of a child: bytes are taken until it is closed or the child has gone,
  after \<open>pp_limit\<close> bytes; a write in between takes everything.\<close>

record pipe =
  pp_written :: bytes
  pp_closed :: bool
  pp_limit :: nat

definition pipe_Write :: "bytes \<Rightarrow> pipe \<Rightarrow> (nat \<times> go_error option) \<times> pipe" where
  "pipe_Write d p =
     (if pp_closed p then ((0, Some (Base ''file already closed'')), p)
      else if length (pp_written p) + length d \<le> pp_limit p
        then ((length d, None), p\<lparr>pp_written := pp_written p @ d\<rparr>)
      else (let k = pp_limit p - length (pp_written p)
            in ((min k (length d), Some (Base ''broken pipe'')), p\<lparr>pp_written := pp_written p @ take k d\<rparr>)))"

interpretation pipe: io_writer pipe_Write pp_written
proof
  show "0 < n \<and> n \<le> length d \<and> pp_written w' = pp_written w @ take n d"
    if "pipe_Write d w = ((n, None), w')" "d \<noteq> []" for d w n w'
    using that by (auto simp: pipe_Write_def Let_def split: if_splits)
  show "\<exists>k. pp_written w' = pp_written w @ take k d" if "pipe_Write d w = ((n, Some e), w')" for d w n e w'
  proof (cases "pp_closed w")
    case True
    with that show ?thesis by (auto simp: pipe_Write_def intro: exI [of _ 0])
  next
    case False
    with that show ?thesis by (auto simp: pipe_Write_def Let_def split: if_splits)
  qed
qed

section \<open>Codecs\<close>

record mime_types =
  MimeTypeH264 :: string
  MimeTypeVP8 :: string
  MimeTypeVP9 :: string
  MimeTypeAV1 :: string

datatype depacketizer = H264Packet | VP9Packet | VP8Packet

record codecSpec =
  k_mimeType :: string
  k_fourCC :: string
  k_encoder :: string
  k_clockRate :: nat
  k_depacketizer :: depacketizer
  k_encodeArgs :: "string list"

definition h264CodecSpec :: "mime_types \<Rightarrow> codecSpec" where
  "h264CodecSpec mt =
     \<lparr>k_mimeType = MimeTypeH264 mt, k_fourCC = ''H264'', k_encoder = ''libx264'', k_clockRate = 90000,
      k_depacketizer = H264Packet,
      k_encodeArgs = [''-c:v'', ''libx264'', ''-preset'', ''ultrafast'', ''-tune'', ''zerolatency'',
                      ''-g'', ''1'', ''-pix_fmt'', ''yuv420p'']\<rparr>"

definition vp9CodecSpec :: "mime_types \<Rightarrow> codecSpec" where
  "vp9CodecSpec mt =
     \<lparr>k_mimeType = MimeTypeVP9 mt, k_fourCC = ''VP90'', k_encoder = ''libvpx-vp9'', k_clockRate = 90000,
      k_depacketizer = VP9Packet,
      k_encodeArgs = [''-c:v'', ''libvpx-vp9'', ''-deadline'', ''realtime'', ''-cpu-used'', ''8'',
                      ''-lag-in-frames'', ''0'', ''-error-resilient'', ''1'', ''-static-thresh'', ''0'',
                      ''-g'', ''1'', ''-pix_fmt'', ''yuv420p'']\<rparr>"

definition vp8CodecSpec :: "mime_types \<Rightarrow> codecSpec" where
  "vp8CodecSpec mt =
     \<lparr>k_mimeType = MimeTypeVP8 mt, k_fourCC = ''VP80'', k_encoder = ''libvpx'', k_clockRate = 90000,
      k_depacketizer = VP8Packet,
      k_encodeArgs = [''-c:v'', ''libvpx'', ''-deadline'', ''realtime'', ''-cpu-used'', ''8'',
                      ''-lag-in-frames'', ''0'', ''-error-resilient'', ''1'', ''-static-thresh'', ''0'',
                      ''-g'', ''1'', ''-pix_fmt'', ''yuv420p'']\<rparr>"

definition codecSpecForCarrier :: "mime_types \<Rightarrow> string \<Rightarrow> codecSpec" where
  "codecSpecForCarrier mt carrier = vp8CodecSpec mt"

definition codecSpecForMime :: "mime_types \<Rightarrow> string \<Rightarrow> codecSpec option" where
  "codecSpecForMime mt mimeType =
     (if ToLower mimeType = ToLower (MimeTypeH264 mt) then Some (h264CodecSpec mt)
      else if ToLower mimeType = ToLower (MimeTypeVP9 mt) then Some (vp9CodecSpec mt)
      else if ToLower mimeType = ToLower (MimeTypeVP8 mt) then Some (vp8CodecSpec mt)
      else None)"

definition resolveEncoderCodec :: "mime_types \<Rightarrow> codecSpec \<Rightarrow> string \<Rightarrow> string" where
  "resolveEncoderCodec mt spec hw =
     (if hw \<noteq> ''nvenc'' then k_encoder spec
      else if k_mimeType spec = MimeTypeH264 mt then ''h264_nvenc''
      else if k_mimeType spec = MimeTypeVP8 mt then ''vp8_nvenc''
      else if k_mimeType spec = MimeTypeVP9 mt then ''vp9_nvenc''
      else if k_mimeType spec = MimeTypeAV1 mt then ''av1_nvenc''
      else k_encoder spec)"

definition buildEncoderArgs ::
    "mime_types \<Rightarrow> codecSpec \<Rightarrow> string \<Rightarrow> int \<Rightarrow> int \<Rightarrow> int \<Rightarrow> string \<Rightarrow> string list" where
  "buildEncoderArgs mt spec vcodec width height fps bitrate =
     (let args = [''-loglevel'', ''error'', ''-threads'', ''1'', ''-f'', ''rawvideo'',
                  ''-pix_fmt'', ''gray'', ''-video_size'', Itoa width @ ''x'' @ Itoa height,
                  ''-framerate'', Itoa fps, ''-i'', ''pipe:0'', ''-an''];
          args = (if HasSuffix vcodec ''_nvenc''
                  then args @ [''-c:v'', vcodec, ''-preset'', ''p1'', ''-tune'', ''ull'', ''-rc'', ''vbr'']
                  else args @ k_encodeArgs spec);
          args = args @ [''-g'', ''1'', ''-pix_fmt'', ''yuv420p'', ''-b:v'', bitrate]
      in if k_mimeType spec = MimeTypeH264 mt then args @ [''-f'', ''h264'', ''pipe:1'']
         else args @ [''-f'', ''ivf'', ''pipe:1''])"

definition resolveDecoderName :: "mime_types \<Rightarrow> codecSpec \<Rightarrow> string \<Rightarrow> string" where
  "resolveDecoderName mt spec hw =
     (let base = ToLower (TrimPrefix (k_mimeType spec) ''video/'')
      in if hw \<noteq> ''nvenc'' then base
         else if k_mimeType spec = MimeTypeH264 mt then ''h264_cuvid''
         else if k_mimeType spec = MimeTypeVP8 mt then ''vp8_cuvid''
         else if k_mimeType spec = MimeTypeVP9 mt then ''vp9_cuvid''
         else base)"

definition buildDecoderArgs ::
    "mime_types \<Rightarrow> codecSpec \<Rightarrow> string \<Rightarrow> int \<Rightarrow> int \<Rightarrow> string \<Rightarrow> string list" where
  "buildDecoderArgs mt spec decoderName width height outputPixFmt =
     (let args = [''-loglevel'', ''error'', ''-threads'', ''1''];
          args = args @ (if k_mimeType spec = MimeTypeH264 mt then [''-f'', ''h264''] else [''-f'', ''ivf'']);
          vfFilter = ''scale='' @ Itoa width @ '':'' @ Itoa height @ '':flags=neighbor,format='' @ outputPixFmt
      in args @ [''-flags'', ''low_delay'', ''-vcodec'', decoderName, ''-i'', ''pipe:0'', ''-an'',
                 ''-vf'', vfFilter, ''-pix_fmt'', outputPixFmt, ''-f'', ''rawvideo'', ''pipe:1''])"

section \<open>The child processes\<close>

definition ErrFFmpegUnavailable :: go_error where
  "ErrFFmpegUnavailable = Base ''ffmpeg is required for videochannel''"
definition ErrEncoderTimeout :: go_error where "ErrEncoderTimeout = Base ''encoder timeout''"
definition ErrPopFrameTimeout :: go_error where "ErrPopFrameTimeout = Base ''pop frame timeout''"
definition ErrUnexpectedFrameSize :: go_error where
  "ErrUnexpectedFrameSize = Base ''unexpected encoder frame size''"
definition video_ErrTransportClosed :: go_error where
  "video_ErrTransportClosed = Base ''videochannel transport closed''"

text \<open>The part of encoder and decoder that both have; the frame channel is its queue and whether
  it is closed. \<open>closeOnce\<close> has run exactly when \<open>closed\<close> is set, as the flag is set in it.\<close>

record child =
  ff_stdin :: pipe
  ff_stderr :: string
  ff_frames :: "bytes list"
  ff_framesClosed :: bool
  ff_frameSize :: int
  ff_closed :: bool
  ff_err :: "go_error option"

record ffmpegDecoder = child +
  d_pts :: u64
  d_mimeType :: string

definition withStderr :: "go_error \<Rightarrow> string \<Rightarrow> go_error" where
  "withStderr err stderr =
     (let msg = TrimSpace stderr in if msg = [] then err else Detail err ('': '' @ msg))"

definition setErr :: "go_error \<Rightarrow> 'a child_scheme \<Rightarrow> 'a child_scheme" where
  "setErr err e = (if ff_err e = None then e\<lparr>ff_err := Some (withStderr err (ff_stderr e))\<rparr> else e)"

definition processErr :: "'a child_scheme \<Rightarrow> go_error option" where
  "processErr e =
     (if ff_err e \<noteq> None then ff_err e
      else if ff_closed e then Some video_ErrTransportClosed
      else None)"

definition child_Close :: "'a child_scheme \<Rightarrow> 'a child_scheme" where
  "child_Close e =
     (if ff_closed e then e
      else e\<lparr>ff_closed := True, ff_stdin := (ff_stdin e)\<lparr>pp_closed := True\<rparr>\<rparr>)"

text \<open>Starting a process: the operator's path, the environment, and the operating system's
  answers.\<close>

record os_env =
  FFmpegPath :: string
  env_FFMPEG_BIN :: string
  LookPath_ffmpeg :: "go_error option"
  os_Stat :: "string \<Rightarrow> go_error option"
  StdinPipe :: "go_error + pipe"
  StdoutPipe :: "go_error option"
  cmd_Start :: "string \<Rightarrow> string list \<Rightarrow> go_error option"

definition ffmpeg_bin :: "os_env \<Rightarrow> string" where
  "ffmpeg_bin env = (if env_FFMPEG_BIN env \<noteq> [] then env_FFMPEG_BIN env else FFmpegPath env)"

definition check_bin :: "os_env \<Rightarrow> go_error option" where
  "check_bin env =
     (if ffmpeg_bin env = ''ffmpeg''
      then (case LookPath_ffmpeg env of None \<Rightarrow> None | Some _ \<Rightarrow> Some ErrFFmpegUnavailable)
      else (case os_Stat env (ffmpeg_bin env) of
              None \<Rightarrow> None | Some err \<Rightarrow> Some (Join ErrFFmpegUnavailable err)))"

definition start_child :: "os_env \<Rightarrow> string \<Rightarrow> string list \<Rightarrow> go_error + pipe" where
  "start_child env what args =
     (case StdinPipe env of
        Inl err \<Rightarrow> Inl (Ctx (what @ '' stdin'') err)
      | Inr p \<Rightarrow>
     (case StdoutPipe env of
        Some err \<Rightarrow> Inl (Ctx (what @ '' stdout'') err)
      | None \<Rightarrow>
     (case cmd_Start env (ffmpeg_bin env) args of
        Some err \<Rightarrow> Inl (Ctx (''start '' @ what) err)
      | None \<Rightarrow> Inr p)))"

definition new_child :: "pipe \<Rightarrow> int \<Rightarrow> int \<Rightarrow> child" where
  "new_child p width height =
     \<lparr>ff_stdin = p, ff_stderr = [], ff_frames = [], ff_framesClosed = False,
      ff_frameSize = wrap64 (width * height), ff_closed = False, ff_err = None\<rparr>"

definition newFFmpegEncoder ::
    "mime_types \<Rightarrow> os_env \<Rightarrow> codecSpec \<Rightarrow> int \<Rightarrow> int \<Rightarrow> int \<Rightarrow> string \<Rightarrow> string \<Rightarrow> go_error + child" where
  "newFFmpegEncoder mt env spec width height fps bitrate hw =
     (case check_bin env of
        Some err \<Rightarrow> Inl err
      | None \<Rightarrow>
          (let vcodec = resolveEncoderCodec mt spec hw;
               args = buildEncoderArgs mt spec vcodec width height fps bitrate
           in case start_child env ''encoder'' args of
                Inl err \<Rightarrow> Inl err
              | Inr p \<Rightarrow> Inr (new_child p width height)))"

section \<open>Reading the child's output\<close>

text \<open>One round of a reading goroutine that is still running: an error ends it, a frame goes to
  the channel; the outer \<open>None\<close> is a send that blocks. \<open>cap\<close> is the channel's capacity, \<open>what\<close>
  the context of its errors.\<close>

definition encoder_frames_cap :: nat where "encoder_frames_cap = 8"
definition decoder_frames_cap :: nat where "decoder_frames_cap = 32"

definition read_round :: "string \<Rightarrow> nat \<Rightarrow> go_error + bytes \<Rightarrow> 'a child_scheme \<Rightarrow> 'a child_scheme option" where
  "read_round what cap res e =
     (case res of
        Inl err \<Rightarrow> Some ((if ff_closed e then e else setErr (Ctx what err) e)\<lparr>ff_framesClosed := True\<rparr>)
      | Inr frame \<Rightarrow>
          if ff_closed e then Some (e\<lparr>ff_framesClosed := True\<rparr>)
          else map_option (\<lambda>q. e\<lparr>ff_frames := q\<rparr>) (chan_send cap frame (ff_frames e)))"

definition readIVF_header :: "go_error \<Rightarrow> 'a child_scheme \<Rightarrow> 'a child_scheme" where
  "readIVF_header err e = (setErr (Ctx ''encoder ivf header'' err) e)\<lparr>ff_framesClosed := True\<rparr>"

definition readIVF :: "go_error + bytes \<Rightarrow> 'a child_scheme \<Rightarrow> 'a child_scheme option" where
  "readIVF res e = read_round ''encoder ivf read'' encoder_frames_cap res e"

definition readRawH264 :: "go_error + bytes \<Rightarrow> 'a child_scheme \<Rightarrow> 'a child_scheme option" where
  "readRawH264 res e =
     (if res = Inr [] then Some e else read_round ''encoder h264 read'' encoder_frames_cap res e)"

definition readRawFrames :: "go_error + bytes \<Rightarrow> 'a child_scheme \<Rightarrow> 'a child_scheme option" where
  "readRawFrames res e = read_round ''decoder raw read'' decoder_frames_cap res e"

section \<open>Encoding a frame\<close>

text \<open>\<open>EncodeFrame\<close> up to its select, and the outcomes of the select: a frame, the closed
  channel, the timeout. The result is the pair of values the function returns.\<close>

definition EncodeFrame_begin :: "bytes \<Rightarrow> 'a child_scheme \<Rightarrow> (go_error option \<times> 'a child_scheme) option" where
  "EncodeFrame_begin frame e =
     (if int (length frame) \<noteq> ff_frameSize e
      then Some (Some (Detail ErrUnexpectedFrameSize
                    ('': got '' @ Itoa (int (length frame)) @ '' expected '' @ Itoa (ff_frameSize e))), e)
      else (case processErr e of
              Some err \<Rightarrow> Some (Some err, e)
            | None \<Rightarrow>
                map_option (\<lambda>(r, p). (wrap_err ''write encoder frame'' r, e\<lparr>ff_stdin := p\<rparr>))
                  (writeAll pipe_Write (ff_stdin e) frame)))"

definition EncodeFrame_wait ::
    "'a child_scheme \<Rightarrow> ((bytes option \<times> go_error option) \<times> 'a child_scheme) list" where
  "EncodeFrame_wait e =
     (case ff_frames e of
        sample # q \<Rightarrow> [((Some sample, None), e\<lparr>ff_frames := q\<rparr>)]
      | [] \<Rightarrow> if ff_framesClosed e then [((None, processErr e), e)] else [])
     @ [((None, case processErr e of Some err \<Rightarrow> Some err | None \<Rightarrow> Some ErrEncoderTimeout), e)]"

section \<open>Decoding\<close>

definition ivf_header :: "string \<Rightarrow> int \<Rightarrow> int \<Rightarrow> int \<Rightarrow> bytes" where
  "ivf_header fourCC width height frameRate =
     str ''DKIF'' @ le16 0 @ le16 32 @ take 4 (str fourCC @ [0, 0, 0, 0])
     @ le16 (word_of_int width) @ le16 (word_of_int height) @ le32 (word_of_int frameRate)
     @ le32 1 @ le32 0 @ le32 0"

definition writeIVFHeader :: "pipe \<Rightarrow> string \<Rightarrow> int \<Rightarrow> int \<Rightarrow> int \<Rightarrow> (go_error option \<times> pipe) option" where
  "writeIVFHeader w fourCC width height frameRate =
     writeAll pipe_Write w (ivf_header fourCC width height frameRate)"

definition ivf_frame_header :: "u64 \<Rightarrow> bytes \<Rightarrow> bytes" where
  "ivf_frame_header pts frame = le32 (word_of_nat (length frame)) @ le64 pts"

definition writeIVFFrame :: "pipe \<Rightarrow> u64 \<Rightarrow> bytes \<Rightarrow> (go_error option \<times> pipe) option" where
  "writeIVFFrame w pts frame =
     (case writeAll pipe_Write w (ivf_frame_header pts frame) of
        None \<Rightarrow> None
      | Some (Some err, w') \<Rightarrow> Some (Some err, w')
      | Some (None, w') \<Rightarrow> writeAll pipe_Write w' frame)"

definition newFFmpegDecoder ::
    "mime_types \<Rightarrow> os_env \<Rightarrow> codecSpec \<Rightarrow> int \<Rightarrow> int \<Rightarrow> int \<Rightarrow> string \<Rightarrow> (go_error + ffmpegDecoder) option" where
  "newFFmpegDecoder mt env spec width height fps hw =
     (case check_bin env of
        Some err \<Rightarrow> Some (Inl err)
      | None \<Rightarrow>
          (let decoderName = resolveDecoderName mt spec hw;
               args = buildDecoderArgs mt spec decoderName width height ''gray''
           in case start_child env ''decoder'' args of
                Inl err \<Rightarrow> Some (Inl err)
              | Inr p \<Rightarrow>
                  (let dec = child.extend (new_child p width height)
                               (ffmpegDecoder.fields 0 (k_mimeType spec))
                   in if k_mimeType spec \<noteq> MimeTypeH264 mt
                      then (case writeIVFHeader p (k_fourCC spec) width height fps of
                              None \<Rightarrow> None
                            | Some (Some err, p') \<Rightarrow> Some (Inl (Ctx ''decoder ivf header'' err))
                            | Some (None, p') \<Rightarrow> Some (Inr (dec\<lparr>ff_stdin := p'\<rparr>)))
                      else Some (Inr dec))))"

definition PushSample :: "mime_types \<Rightarrow> bytes \<Rightarrow> ffmpegDecoder \<Rightarrow> (go_error option \<times> ffmpegDecoder) option" where
  "PushSample mt sample d =
     (case processErr d of
        Some err \<Rightarrow> Some (Some err, d)
      | None \<Rightarrow>
          if d_mimeType d = MimeTypeH264 mt
          then map_option (\<lambda>(r, p). (wrap_err ''write h264 decoder frame'' r, d\<lparr>ff_stdin := p\<rparr>))
                 (writeAll pipe_Write (ff_stdin d) sample)
          else map_option (\<lambda>(r, p). case r of
                    Some err \<Rightarrow> (Some (Ctx ''write ivf decoder frame'' err), d\<lparr>ff_stdin := p\<rparr>)
                  | None \<Rightarrow> (None, d\<lparr>ff_stdin := p, d_pts := d_pts d + 1\<rparr>))
                 (writeIVFFrame (ff_stdin d) (d_pts d) sample))"

definition PopFrame :: "'a child_scheme \<Rightarrow> ((bytes option \<times> go_error option) \<times> 'a child_scheme) list" where
  "PopFrame d =
     (case ff_frames d of
        frame # q \<Rightarrow> [((Some frame, None), d\<lparr>ff_frames := q\<rparr>)]
      | [] \<Rightarrow> if ff_framesClosed d then [((None, processErr d), d)] else [])
     @ [((None, Some ErrPopFrameTimeout), d)]"

section \<open>The decoder's input is a well-formed IVF stream\<close>

text \<open>The container's frame records as its format describes them: a little-endian length, eight
  bytes of presentation time, the frame.\<close>

definition get_le32 :: "bytes \<Rightarrow> u32" where
  "get_le32 bs = get_be32 0 (rev (take 4 bs))"

function ivf_frames :: "bytes \<Rightarrow> (bytes \<times> bytes) list" where
  "ivf_frames bs =
     (if length bs < 12 \<or> length bs < 12 + unat (get_le32 bs) then []
      else (slice 4 12 bs, slice 12 (12 + unat (get_le32 bs)) bs)
           # ivf_frames (drop (12 + unat (get_le32 bs)) bs))"
  by pat_completeness auto
termination
  by (relation "measure length") auto

declare ivf_frames.simps [simp del]

lemma get_le32_le32: "get_le32 (le32 w @ rest) = w"
proof -
  have "rev (take 4 (le32 w @ rest)) = be32 w" by (simp add: le32_def be32_def)
  then show ?thesis using get_be32_be32 [of "[]" 0 w "[]"] by (simp add: get_le32_def)
qed

lemma ivf_frames_record:
  assumes "length s < 2 ^ 32"
  shows "ivf_frames (ivf_frame_header pts s @ s @ rest) = (le64 pts, s) # ivf_frames rest"
proof -
  let ?bs = "ivf_frame_header pts s @ s @ rest"
  have bs: "?bs = le32 (word_of_nat (length s)) @ le64 pts @ s @ rest"
    by (simp add: ivf_frame_header_def)
  have n: "unat (get_le32 ?bs) = length s"
    unfolding bs get_le32_le32 using assms by (simp add: unat_of_nat)
  have "slice 4 12 ?bs = le64 pts" by (simp add: bs slice_def)
  moreover have "slice 12 (12 + length s) ?bs = s" "drop (12 + length s) ?bs = rest"
    by (simp_all add: bs slice_def)
  moreover have "\<not> length ?bs < 12" "\<not> length ?bs < 12 + length s" by (simp_all add: bs)
  ultimately show ?thesis by (subst ivf_frames.simps) (simp add: n)
qed

lemma writeIVFFrame_ok:
  "writeIVFFrame w pts s = Some (None, w') \<Longrightarrow> pp_written w' = pp_written w @ ivf_frame_header pts s @ s"
  by (auto simp: writeIVFFrame_def split: option.splits prod.splits dest!: pipe.writeAll_ok)

lemma PushSample_ok:
  "PushSample mt s d = Some (None, d') \<Longrightarrow> d_mimeType d \<noteq> MimeTypeH264 mt \<Longrightarrow>
     pp_written (ff_stdin d') = pp_written (ff_stdin d) @ ivf_frame_header (d_pts d) s @ s
     \<and> d_pts d' = d_pts d + 1 \<and> d_mimeType d' = d_mimeType d"
  by (auto simp: PushSample_def split: option.splits dest!: writeIVFFrame_ok)

lemma PushSample_total: "PushSample mt s d \<noteq> None"
proof -
  have "writeIVFFrame w pts s \<noteq> None" for w pts
    using pipe.writeAll_terminates by (auto simp: writeIVFFrame_def split: option.splits prod.splits)
  then show ?thesis
    unfolding PushSample_def using pipe.writeAll_terminates
    by (simp only: option.map_disc_iff option.distinct split: option.split if_split) blast
qed

fun push_all :: "mime_types \<Rightarrow> bytes list \<Rightarrow> ffmpegDecoder \<Rightarrow> (go_error option \<times> ffmpegDecoder) option" where
  "push_all mt [] d = Some (None, d)"
| "push_all mt (s # ss) d =
     (case PushSample mt s d of
        Some (None, d') \<Rightarrow> push_all mt ss d'
      | r \<Rightarrow> r)"

lemma push_all_stream:
  "push_all mt ss d = Some (None, d') \<Longrightarrow> d_mimeType d \<noteq> MimeTypeH264 mt \<Longrightarrow>
   \<forall>s\<in>set ss. length s < 2 ^ 32 \<Longrightarrow>
   \<exists>stream. pp_written (ff_stdin d') = pp_written (ff_stdin d) @ stream
     \<and> ivf_frames stream = zip (map (\<lambda>i. le64 (d_pts d + word_of_nat i)) [0..<length ss]) ss"
proof (induction ss arbitrary: d)
  case Nil
  then show ?case by (simp add: ivf_frames.simps)
next
  case (Cons s ss)
  obtain d1 where p: "PushSample mt s d = Some (None, d1)" "push_all mt ss d1 = Some (None, d')"
    using Cons.prems(1) by (auto split: option.splits prod.splits)
  note P = PushSample_ok [OF p(1) Cons.prems(2)]
  from Cons.IH [OF p(2)] P Cons.prems obtain stream where st:
    "pp_written (ff_stdin d') = pp_written (ff_stdin d1) @ stream"
    "ivf_frames stream = zip (map (\<lambda>i. le64 (d_pts d1 + word_of_nat i)) [0..<length ss]) ss"
    by auto
  have "map (\<lambda>i. le64 (d_pts d + word_of_nat i)) [0..<length (s # ss)]
      = le64 (d_pts d) # map (\<lambda>i. le64 (d_pts d1 + word_of_nat i)) [0..<length ss]"
    using P by (simp add: upt_conv_Cons map_Suc_upt [symmetric] del: upt_Suc map_Suc_upt) (simp add: add.assoc)
  then show ?case
    using st P ivf_frames_record [of s "d_pts d" stream] Cons.prems(3)
    by (intro exI [of _ "ivf_frame_header (d_pts d) s @ s @ stream"]) (simp del: upt_Suc)
qed

section \<open>The children's invariant\<close>

text \<open>A child under every operation on it: a closed frame channel always comes with a reason.\<close>

inductive child_step :: "nat \<Rightarrow> child \<Rightarrow> child \<Rightarrow> bool" for cap where
  read: "\<not> ff_framesClosed e \<Longrightarrow> read_round what cap res e = Some e' \<Longrightarrow> child_step cap e e'"
| header: "\<not> ff_framesClosed e \<Longrightarrow> child_step cap e (readIVF_header err e)"
| close: "child_step cap e (child_Close e)"
| stderr: "child_step cap e (e\<lparr>ff_stderr := ff_stderr e @ msg\<rparr>)"
| encode: "EncodeFrame_begin frame e = Some (r, e') \<Longrightarrow> child_step cap e e'"
| wait: "((f, r), e') \<in> set (EncodeFrame_wait e) \<Longrightarrow> child_step cap e e'"
| pop: "((f, r), e') \<in> set (PopFrame e) \<Longrightarrow> child_step cap e e'"

inductive child_reachable :: "nat \<Rightarrow> child \<Rightarrow> bool" for cap where
  start: "child_reachable cap (new_child p width height)"
| step: "child_reachable cap e \<Longrightarrow> child_step cap e e' \<Longrightarrow> child_reachable cap e'"

definition child_inv :: "nat \<Rightarrow> child \<Rightarrow> bool" where
  "child_inv cap e \<longleftrightarrow> (ff_framesClosed e \<longrightarrow> processErr e \<noteq> None)
     \<and> length (ff_frames e) \<le> cap \<and> (ff_closed e \<longrightarrow> pp_closed (ff_stdin e))"

lemma setErr_processErr [simp]: "processErr (setErr err e) \<noteq> None"
  by (simp add: setErr_def processErr_def)

lemma pipe_Write_closed: "pp_closed (snd (pipe_Write d p)) = pp_closed p"
  by (simp add: pipe_Write_def Let_def)

lemma writeAll_keeps_closed:
  "writeAll pipe_Write w data = Some (r, w') \<Longrightarrow> pp_closed w' = pp_closed w"
proof (induction "length data" arbitrary: data w rule: less_induct)
  case less
  show ?case
  proof (cases "data = []")
    case True
    with less.prems show ?thesis by (subst (asm) writeAll.simps) simp
  next
    case False
    obtain n e w1 where w: "pipe_Write data w = ((n, e), w1)" by (metis prod.collapse)
    have c: "pp_closed w1 = pp_closed w" using pipe_Write_closed [of data w] w by simp
    show ?thesis
    proof (cases e)
      case (Some err)
      with less.prems w False c show ?thesis by (subst (asm) writeAll.simps) simp
    next
      case None
      with less.prems w False have "writeAll pipe_Write w1 (drop n data) = Some (r, w')"
        by (subst (asm) writeAll.simps) simp
      moreover have "0 < n" using pipe.write_ok w None False by blast
      ultimately show ?thesis using less.hyps [of "drop n data" w1] c False by simp
    qed
  qed
qed

lemma child_inv_step: "child_step cap e e' \<Longrightarrow> child_inv cap e \<Longrightarrow> child_inv cap e'"
proof (induction rule: child_step.induct)
  case (read e what res e')
  then show ?case
    by (auto simp: read_round_def child_inv_def processErr_def setErr_def chan_send_def
        split: sum.splits if_splits)
next
  case (header e err)
  then show ?case by (auto simp: readIVF_header_def child_inv_def processErr_def setErr_def)
next
  case (close e)
  then show ?case by (auto simp: child_Close_def child_inv_def processErr_def)
next
  case (stderr e msg)
  then show ?case by (auto simp: child_inv_def processErr_def)
next
  case (encode frame e r e')
  then show ?case
    using writeAll_keeps_closed
    by (auto simp: EncodeFrame_begin_def child_inv_def processErr_def split: if_splits option.splits)
next
  case (wait f r e' e)
  then show ?case
    by (auto simp: EncodeFrame_wait_def child_inv_def processErr_def split: list.splits if_splits)
next
  case (pop f r e' e)
  then show ?case
    by (auto simp: PopFrame_def child_inv_def processErr_def split: list.splits if_splits)
qed

lemma child_reachable_inv: "child_reachable cap e \<Longrightarrow> child_inv cap e"
proof (induction rule: child_reachable.induct)
  case (start p width height)
  show ?case by (simp add: child_inv_def new_child_def)
qed (rule child_inv_step)

section \<open>Properties\<close>

text \<open>C35: the bytes the decoder's process receives after its header are an IVF stream: when
  every push succeeded, it parses to exactly the pushed samples, in order, with consecutive
  presentation times, whatever bytes the samples hold.\<close>

theorem decoder_stream_parses:
  assumes "push_all mt samples d = Some (None, d')" and "d_mimeType d \<noteq> MimeTypeH264 mt"
    and "\<forall>s\<in>set samples. length s < 2 ^ 32"
  shows "\<exists>stream. pp_written (ff_stdin d') = pp_written (ff_stdin d) @ stream
     \<and> ivf_frames stream
       = zip (map (\<lambda>i. le64 (d_pts d + word_of_nat i)) [0..<length samples]) samples"
  using assms by (rule push_all_stream)

text \<open>In every reachable state of an encoder or decoder process, no outcome of waiting for
  an encoded frame or popping a decoded one is "no frame and no error": a closed frame channel
  always has an error recorded or the process closed; and the channel never exceeds its
  capacity.\<close>

lemma child_never_silent:
  assumes "child_reachable cap e"
  shows "(\<forall>r\<in>set (EncodeFrame_wait e) \<union> set (PopFrame e). fst r \<noteq> (None, None))
     \<and> length (ff_frames e) \<le> cap"
  using child_reachable_inv [OF assms]
  by (auto simp: EncodeFrame_wait_def PopFrame_def child_inv_def split: list.splits if_splits option.splits)

text \<open>Writing to a child's standard input always returns, whatever the state of the pipe,
  and when it returns nil all the data has been written, otherwise a prefix of it.\<close>

lemma writeAll_pipe:
  "\<exists>r w' k. writeAll pipe_Write w data = Some (r, w') \<and> pp_written w' = pp_written w @ take k data
     \<and> (if r = None then pp_written w' = pp_written w @ data else True)"
proof -
  obtain r w' k where "writeAll pipe_Write w data = Some (r, w')" "pp_written w' = pp_written w @ take k data"
    "r = None \<longrightarrow> pp_written w' = pp_written w @ data"
    using pipe.writeAll_returns [of w data] by blast
  then show ?thesis by (intro exI [of _ r] exI [of _ w'] exI [of _ k]) simp
qed

section \<open>Witnesses\<close>

definition example_mt :: mime_types where
  "example_mt = \<lparr>MimeTypeH264 = ''video/H264'', MimeTypeVP8 = ''video/VP8'', MimeTypeVP9 = ''video/VP9'',
     MimeTypeAV1 = ''video/AV1''\<rparr>"

definition example_decoder :: "bytes \<Rightarrow> u64 \<Rightarrow> ffmpegDecoder" where
  "example_decoder w pts =
     child.extend (new_child \<lparr>pp_written = w, pp_closed = False, pp_limit = 1000\<rparr> 2 2)
       (ffmpegDecoder.fields pts ''video/VP8'')"

theorem decoder_stream_parses_witness:
  "ivf_frames (ivf_frame_header 0 [7] @ [7] @ ivf_frame_header 1 [] @ [])
     = [(le64 0, [7]), (le64 1, [])]"
proof -
  have w0: "writeAll pipe_Write w [] = Some (None, w)" for w by (subst writeAll.simps) simp
  have w: "writeAll pipe_Write \<lparr>pp_written = xs, pp_closed = False, pp_limit = 1000\<rparr> ys =
      Some (None, \<lparr>pp_written = xs @ ys, pp_closed = False, pp_limit = 1000\<rparr>)"
    if "length xs + length ys \<le> 1000" for xs ys
    using that by (subst writeAll.simps) (auto simp: pipe_Write_def w0)
  have hl: "length (ivf_frame_header pts s) = 12" for pts s by (simp add: ivf_frame_header_def)
  have "push_all example_mt [[7], []] (example_decoder [] 0) =
      Some (None, example_decoder (ivf_frame_header 0 [7] @ [7] @ ivf_frame_header 1 []) 2)"
    by (simp add: PushSample_def example_decoder_def processErr_def child.defs ffmpegDecoder.defs
        new_child_def example_mt_def writeIVFFrame_def w w0 hl)
  from decoder_stream_parses [OF this] show ?thesis
    by (simp add: example_decoder_def child.defs ffmpegDecoder.defs new_child_def example_mt_def)
qed

lemma not_in_fst_image: "\<forall>r\<in>B \<union> A. fst r \<noteq> x \<Longrightarrow> x \<notin> fst ` A"
  by auto

end
