(* ===== verification/Videochannel.thy ===== *)
theory Videochannel
  imports Reliable Ffmpeg Stack "HOL-Library.Signed_Division"
begin

text \<open>
  The videochannel transport (\<open>transport/videochannel\<close>): \<open>frame.go\<close> and the engine of
  \<open>transport.go\<close> are a second copy of the acknowledged-delivery engine, at its own magic and
  number of attempts; \<open>visual.go\<close> renders frames as images; the transport drives an encoder
  and a decoder process. The QR and tile codecs are not in the repository: they are the record
  \<open>vis\<close>. A panic is \<open>None\<close>.
\<close>

section \<open>frame.go\<close>

definition video_magic :: u32 where "video_magic = 0x4f565632"
definition video_maxSendAttempts :: nat where "video_maxSendAttempts = 20"
definition video_defaultMaxPayloadSize :: int where "video_defaultMaxPayloadSize = 16 * 1024"
definition video_defaultFragmentSize :: int where "video_defaultFragmentSize = 256"

definition video_fragmentPayload :: "bytes \<Rightarrow> int \<Rightarrow> bytes list option" where
  "video_fragmentPayload = fragmentPayload"

definition video_encodeDataFrame :: "u32 \<Rightarrow> u32 \<Rightarrow> nat \<Rightarrow> nat \<Rightarrow> nat \<Rightarrow> bytes \<Rightarrow> bytes" where
  "video_encodeDataFrame = encodeDataFrame video_magic"

definition video_encodeAckFrame :: "u32 \<Rightarrow> u32 \<Rightarrow> bytes" where
  "video_encodeAckFrame = encodeAckFrame video_magic"

definition video_decodeTransportFrame :: "bytes \<Rightarrow> frame_error + transportFrame" where
  "video_decodeTransportFrame = decodeTransportFrame video_magic"

section \<open>visual.go\<close>

datatype ecc = ECCLow | ECCMedium | ECCQuartile | ECCHigh

text \<open>The codecs of \<open>github.com/zarazaex69/gr\<close>: their constructors, \<open>Encode\<close> and \<open>Decode\<close>, the
  error level of a configuration that sets none, the size of a tile frame.\<close>

record ('q, 't) visual =
  qr_New :: "int \<Rightarrow> int \<Rightarrow> nat \<Rightarrow> ecc \<Rightarrow> go_error + 'q"
  qr_Encode :: "'q \<Rightarrow> bytes \<Rightarrow> go_error + bytes"
  qr_Decode :: "'q \<Rightarrow> bytes \<Rightarrow> go_error + bytes"
  qr_zeroECC :: ecc
  tile_New :: "int \<Rightarrow> int \<Rightarrow> go_error + 't"
  tile_Encode :: "'t \<Rightarrow> bytes \<Rightarrow> go_error + bytes"
  tile_Decode :: "'t \<Rightarrow> bytes \<Rightarrow> go_error + bytes"
  tile_FrameW :: nat
  tile_FrameH :: nat

definition eccLevel :: "string \<Rightarrow> ecc" where
  "eccLevel level =
     (if level = ''medium'' then ECCMedium
      else if level = ''high'' then ECCQuartile
      else if level = ''highest'' then ECCHigh
      else ECCLow)"

definition renderQRFrame ::
    "('q, 't) visual \<Rightarrow> bytes \<Rightarrow> int \<Rightarrow> int \<Rightarrow> string \<Rightarrow> (go_error + bytes) option" where
  "renderQRFrame vis payload width height recoveryLevel =
     (if payload = []
      then (if width * height < 0 then None else Some (Inr (replicate (nat (width * height)) 0xff)))
      else Some (case qr_New vis width height 2 (eccLevel recoveryLevel) of
             Inl err \<Rightarrow> Inl (Ctx ''qr codec'' err)
           | Inr c \<Rightarrow> wrap ''qr encode'' (qr_Encode vis c payload)))"

definition renderTileFrame :: "('q, 't) visual \<Rightarrow> bytes \<Rightarrow> int \<Rightarrow> int \<Rightarrow> go_error + bytes" where
  "renderTileFrame vis payload tileModule tileRS =
     (if payload = [] then Inr (replicate (tile_FrameW vis * tile_FrameH vis) 0xff)
      else (case tile_New vis tileModule tileRS of
              Inl err \<Rightarrow> Inl (Ctx ''tile codec'' err)
            | Inr c \<Rightarrow> wrap ''tile encode'' (tile_Encode vis c payload)))"

definition renderVisualFrame ::
    "('q, 't) visual \<Rightarrow> bytes \<Rightarrow> int \<Rightarrow> int \<Rightarrow> string \<Rightarrow> string \<Rightarrow> int \<Rightarrow> int \<Rightarrow> (go_error + bytes) option" where
  "renderVisualFrame vis payload width height codec recoveryLevel tileModule tileRS =
     (if codec = ''tile'' then Some (renderTileFrame vis payload tileModule tileRS)
      else renderQRFrame vis payload width height recoveryLevel)"

definition ErrUnexpectedQRFrameSize :: go_error where
  "ErrUnexpectedQRFrameSize = Base ''unexpected qr frame size''"

text \<open>A nil payload with a nil error is \<open>Inr []\<close>: the callers only look at its length.\<close>

definition extractQRPayload :: "('q, 't) visual \<Rightarrow> bytes \<Rightarrow> int \<Rightarrow> int \<Rightarrow> go_error + bytes" where
  "extractQRPayload vis frame width height =
     (if int (length frame) \<noteq> wrap64 (width * height)
      then Inl (Detail ErrUnexpectedQRFrameSize
             ('': got '' @ Itoa (int (length frame)) @ '' expected '' @ Itoa width @ ''x'' @ Itoa height
              @ ''='' @ Itoa (wrap64 (width * height))))
      else (case qr_New vis width height 2 (qr_zeroECC vis) of
              Inl err \<Rightarrow> Inl (Ctx ''qr codec'' err)
            | Inr c \<Rightarrow>
                (case qr_Decode vis c frame of
                   Inl err \<Rightarrow>
                     if Contains (Error err) ''NotFoundException'' \<or> Contains (Error err) ''not found''
                     then Inr [] else Inl (Ctx ''decode'' err)
                 | Inr data \<Rightarrow> Inr data)))"

definition extractTilePayload :: "('q, 't) visual \<Rightarrow> bytes \<Rightarrow> int \<Rightarrow> int \<Rightarrow> go_error + bytes" where
  "extractTilePayload vis frame tileModule tileRS =
     (if length frame \<noteq> tile_FrameW vis * tile_FrameH vis then Inr []
      else (case tile_New vis tileModule tileRS of
              Inl err \<Rightarrow> Inl (Ctx ''tile codec'' err)
            | Inr c \<Rightarrow> (case tile_Decode vis c frame of Inl _ \<Rightarrow> Inr [] | Inr payload \<Rightarrow> Inr payload)))"

definition extractVisualPayload ::
    "('q, 't) visual \<Rightarrow> bytes \<Rightarrow> int \<Rightarrow> int \<Rightarrow> string \<Rightarrow> int \<Rightarrow> int \<Rightarrow> go_error + bytes" where
  "extractVisualPayload vis frame width height codec tileModule tileRS =
     (if codec = ''tile'' then extractTilePayload vis frame tileModule tileRS
      else extractQRPayload vis frame width height)"

section \<open>State\<close>

text \<open>Encoder and decoder processes are objects shared with their goroutines: they live in the
  lists \<open>v_encoders\<close> and \<open>v_decoders\<close>, and the transport points into these.\<close>

record 's video = arq +
  v_stream :: 's
  v_written :: "bytes list"
  v_writerUp :: bool
  v_writerDone :: bool
  v_codec :: codecSpec
  v_encoders :: "child list"
  v_encoder :: "nat option"
  v_decoders :: "ffmpegDecoder list"
  v_decoder :: "nat option"
  v_videoW :: int
  v_videoH :: int
  v_videoFPS :: int
  v_videoBitrate :: string
  v_videoHW :: string
  v_videoQRSize :: int
  v_videoQRRecovery :: string
  v_videoCodec :: string
  v_videoTileModule :: int
  v_videoTileRS :: int
  v_idleFrame :: "bytes option"

definition video_ErrVideoTrackUnsupported :: go_error where
  "video_ErrVideoTrackUnsupported = Base ''carrier does not support video tracks''"

definition video_settings :: "mime_types \<Rightarrow> 'o transport_config \<Rightarrow> 's \<Rightarrow> 's video" where
  "video_settings mt cfg st =
     (let qrSize = (if tc_VideoQRSize cfg \<le> 0 then video_defaultFragmentSize else tc_VideoQRSize cfg);
          tileModule = (if tc_VideoTileModule cfg \<le> 0 then 4 else tc_VideoTileModule cfg);
          tileRS = (if tc_VideoTileRS cfg < 0 then 20 else tc_VideoTileRS cfg)
      in arq.extend (arq_new (tc_OnData cfg \<noteq> None))
           (video.fields st [] False False (codecSpecForCarrier mt (tc_Carrier cfg)) [] None [] None
              (tc_VideoWidth cfg) (tc_VideoHeight cfg) (tc_VideoFPS cfg) (tc_VideoBitrate cfg)
              (tc_VideoHW cfg) qrSize (tc_VideoQRRecovery cfg) (tc_VideoCodec cfg) tileModule tileRS None))"

definition video_carrier_config :: "'o transport_config \<Rightarrow> 'o carrier_config" where
  "video_carrier_config cfg = (carrier_config_of cfg)\<lparr>cc_OnData := None\<rparr>"

definition video_New ::
    "('o carrier_config, ('s, 'u, 't, 'h) carrier_session) registry_map \<Rightarrow> mime_types \<Rightarrow>
     (codecSpec \<Rightarrow> go_error + 't) \<Rightarrow> 'h \<Rightarrow>
     'o transport_config \<Rightarrow> 's \<Rightarrow> go_error + ('s, 'u, 't, 'h) video_track \<times> 's video" where
  "video_New carrier_reg mt newTrack handleRemoteTrack cfg st =
     (case carrier_New carrier_reg (tc_Carrier cfg) (video_carrier_config cfg) of
        Inl err \<Rightarrow> Inl (Ctx ''create carrier transport'' err)
      | Inr session \<Rightarrow>
     (case cs_OpenVideoTrack session of
        None \<Rightarrow> Inl video_ErrVideoTrackUnsupported
      | Some (Inl err) \<Rightarrow> Inl (Ctx ''open video track'' err)
      | Some (Inr stream) \<Rightarrow>
     (case newTrack (codecSpecForCarrier mt (tc_Carrier cfg)) of
        Inl err \<Rightarrow> Inl (Ctx ''create local video track'' err)
      | Inr track \<Rightarrow>
     (case vt_AddTrack stream track st of
        (Some err, st') \<Rightarrow> Inl (Ctx ''attach local video track'' err)
      | (None, st') \<Rightarrow>
          Inr (stream, video_settings mt cfg (vt_SetTrackHandler stream handleRemoteTrack st'))))))"

section \<open>Connecting, sending, closing\<close>

definition close_at :: "nat option \<Rightarrow> 'a child_scheme list \<Rightarrow> 'a child_scheme list" where
  "close_at i es = (case i of None \<Rightarrow> es | Some n \<Rightarrow> es[n := child_Close (es ! n)])"

definition video_Connect ::
    "('s, 'u, 't, 'h) video_track \<Rightarrow> mime_types \<Rightarrow> os_env \<Rightarrow> 's video \<Rightarrow> go_error option \<times> 's video" where
  "video_Connect stream mt env p =
     (case newFFmpegEncoder mt env (v_codec p) (v_videoW p) (v_videoH p) (v_videoFPS p)
             (v_videoBitrate p) (v_videoHW p) of
        Inl err \<Rightarrow> (Some (Ctx ''new encoder'' err), p)
      | Inr encoder \<Rightarrow>
     (case vt_Connect stream (v_stream p) of
        (Some err, st) \<Rightarrow>
          (Some (Ctx ''connect stream'' err),
           p\<lparr>v_stream := st, v_encoders := v_encoders p @ [child_Close encoder]\<rparr>)
      | (None, st) \<Rightarrow>
          if a_closed p
          then (Some video_ErrTransportClosed,
                p\<lparr>v_stream := st, v_encoders := v_encoders p @ [child_Close encoder]\<rparr>)
          else (None,
                p\<lparr>v_stream := st,
                  v_encoders := close_at (v_encoder p) (v_encoders p) @ [encoder],
                  v_encoder := Some (length (v_encoders p)),
                  v_writerUp := True\<rparr>)))"

definition video_send_begin :: "bytes \<Rightarrow> 's video \<Rightarrow> (arq_error + 's video \<times> send_call) option" where
  "video_send_begin data p = send_begin (v_videoQRSize p) data p"

definition video_send_step :: "'s video \<times> send_call \<Rightarrow> ('s video \<times> send_call) list" where
  "video_send_step = send_step video_magic video_maxSendAttempts"

text \<open>\<open>Close\<close> up to the wait for the writer: the flag and the channel, then both processes. The
  locks \<open>encoderMu\<close> and \<open>decoderMu\<close> order these against the installation of a new process, which
  looks at the flag under the lock.\<close>

definition video_close_begin :: "'s video \<Rightarrow> 's video" where
  "video_close_begin p =
     (if a_closed p then p
      else (arq_close p)\<lparr>v_encoders := close_at (v_encoder p) (v_encoders p),
                         v_decoders := close_at (v_decoder p) (v_decoders p)\<rparr>)"

definition video_close_wait ::
    "('s, 'u, 't, 'h) video_track \<Rightarrow> 's video \<Rightarrow> (go_error option \<times> 's video) option" where
  "video_close_wait stream p =
     (if v_writerUp p \<and> \<not> v_writerDone p then None
      else case vt_Close stream (v_stream p) of
             (e, st) \<Rightarrow> Some (wrap_err ''close stream'' e, p\<lparr>v_stream := st\<rparr>))"

definition video_on_stream :: "('s \<Rightarrow> 's) \<Rightarrow> 's video \<Rightarrow> 's video" where
  "video_on_stream f p = p\<lparr>v_stream := f (v_stream p)\<rparr>"

definition video_SetReconnectCallback where
  "video_SetReconnectCallback stream cb = video_on_stream (vt_SetReconnectCallback stream cb)"
definition video_SetShouldReconnect where
  "video_SetShouldReconnect stream fn = video_on_stream (vt_SetShouldReconnect stream fn)"
definition video_SetEndedCallback where
  "video_SetEndedCallback stream cb = video_on_stream (vt_SetEndedCallback stream cb)"
definition video_WatchConnection where
  "video_WatchConnection stream = video_on_stream (vt_WatchConnection stream)"

definition video_CanSend :: "('s, 'u, 't, 'h) video_track \<Rightarrow> 's video \<Rightarrow> bool" where
  "video_CanSend stream p \<longleftrightarrow> \<not> a_closed p \<and> vt_CanSend stream (v_stream p)"

definition video_Features :: "'s video \<Rightarrow> features" where
  "video_Features p =
     (let maxPayload = (if video_defaultMaxPayloadSize < wrap64 (v_videoQRSize p * 64)
                        then wrap64 (v_videoQRSize p * 64) else video_defaultMaxPayloadSize)
      in \<lparr>Reliable = True, Ordered = True, MessageOriented = True, MaxPayloadSize = maxPayload\<rparr>)"

section \<open>The writer\<close>

definition renderFrame :: "('q, 't) visual \<Rightarrow> bytes \<Rightarrow> 's video \<Rightarrow> (go_error + bytes) option" where
  "renderFrame vis payload p =
     renderVisualFrame vis payload (v_videoW p) (v_videoH p) (v_videoCodec p) (v_videoQRRecovery p)
       (v_videoTileModule p) (v_videoTileRS p)"

text \<open>A whole call of \<open>EncodeFrame\<close>; \<open>between\<close> gives the states the reading goroutine may bring
  the process to while the call waits.\<close>

definition EncodeFrame ::
    "(child \<Rightarrow> child list) \<Rightarrow> bytes \<Rightarrow> child \<Rightarrow> ((bytes option \<times> go_error option) \<times> child) list" where
  "EncodeFrame between frame e =
     (case EncodeFrame_begin frame e of
        None \<Rightarrow> []
      | Some (Some err, e') \<Rightarrow> [((None, Some err), e')]
      | Some (None, e') \<Rightarrow> concat (map EncodeFrame_wait (between e')))"

definition video_sample :: "bytes \<Rightarrow> 's video \<Rightarrow> 's video" where
  "video_sample data p = p\<lparr>v_written := v_written p @ [data]\<rparr>"

definition writeIdleFrame ::
    "('q, 't) visual \<Rightarrow> (child \<Rightarrow> child list) \<Rightarrow> nat \<Rightarrow> 's video \<Rightarrow> 's video list option" where
  "writeIdleFrame vis between n p =
     (case v_idleFrame p of
        Some cached \<Rightarrow> Some [video_sample cached p]
      | None \<Rightarrow>
          (case renderFrame vis [] p of
             None \<Rightarrow> None
           | Some (Inl _) \<Rightarrow> Some [p]
           | Some (Inr rawFrame) \<Rightarrow>
               Some (map (\<lambda>((sample, err), e). let p' = p\<lparr>v_encoders := (v_encoders p)[n := e]\<rparr> in
                      case err of
                        Some _ \<Rightarrow> p'
                      | None \<Rightarrow> video_sample (case sample of None \<Rightarrow> [] | Some b \<Rightarrow> b) (p'\<lparr>v_idleFrame := sample\<rparr>))
                    (EncodeFrame between rawFrame (v_encoders p ! n)))))"

definition writePayloadFrame ::
    "('q, 't) visual \<Rightarrow> (child \<Rightarrow> child list) \<Rightarrow> nat \<Rightarrow> bytes \<Rightarrow> 's video \<Rightarrow> 's video list option" where
  "writePayloadFrame vis between n payload p =
     (case renderFrame vis payload p of
        None \<Rightarrow> None
      | Some (Inl _) \<Rightarrow> Some [p]
      | Some (Inr rawFrame) \<Rightarrow>
          Some (map (\<lambda>((sample, err), e). let p' = p\<lparr>v_encoders := (v_encoders p)[n := e]\<rparr> in
                 case err of
                   Some _ \<Rightarrow> p'
                 | None \<Rightarrow> video_sample (case sample of None \<Rightarrow> [] | Some b \<Rightarrow> b) p')
               (EncodeFrame between rawFrame (v_encoders p ! n))))"

text \<open>The interval of the writer's ticker: dividing by a zero rate panics, and so does a ticker
  whose interval is not positive.\<close>

definition video_ticker :: "int \<Rightarrow> int option" where
  "video_ticker fps =
     (if fps = 0 then None else let d = second sdiv fps in if d \<le> 0 then None else Some d)"

definition video_writer_exit :: "'s video \<Rightarrow> 's video" where
  "video_writer_exit p =
     p\<lparr>v_encoders := close_at (v_encoder p) (v_encoders p), v_writerDone := True\<rparr>"

text \<open>One round of \<open>writerLoop\<close>; the first component says whether the loop goes on.\<close>

definition video_tick ::
    "('q, 't) visual \<Rightarrow> (child \<Rightarrow> child list) \<Rightarrow> (bytes option \<times> bool) \<times> 's video \<Rightarrow> (bool \<times> 's video) list option" where
  "video_tick vis between = (\<lambda>((payload, ok), p).
     if \<not> ok then Some [(False, video_writer_exit p)]
     else (case v_encoder p of
             None \<Rightarrow> Some [(True, p)]
           | Some n \<Rightarrow>
               map_option (map (Pair True))
                 (case payload of
                    None \<Rightarrow> writeIdleFrame vis between n p
                  | Some frame \<Rightarrow> writePayloadFrame vis between n frame p)))"

definition video_writer_round ::
    "('q, 't) visual \<Rightarrow> (child \<Rightarrow> child list) \<Rightarrow> 's video \<Rightarrow> (bool \<times> 's video) list option list" where
  "video_writer_round vis between p =
     (if a_closeCh p then [Some [(False, video_writer_exit p)]] else [])
     @ map (video_tick vis between) (nextOutboundFrame p)"

section \<open>The decoder's goroutines\<close>

definition popDecoder_exit :: "nat \<Rightarrow> 's video \<Rightarrow> 's video" where
  "popDecoder_exit n p =
     p\<lparr>v_decoder := (if v_decoder p = Some n then None else v_decoder p),
       v_decoders := close_at (Some n) (v_decoders p)\<rparr>"

definition video_handleFrame ::
    "('q, 't) visual \<Rightarrow> bytes \<Rightarrow> 's video \<Rightarrow> 's video \<times> (u32 \<times> u32) option" where
  "video_handleFrame vis frame p =
     (case extractVisualPayload vis frame (v_videoW p) (v_videoH p) (v_videoCodec p)
             (v_videoTileModule p) (v_videoTileRS p) of
        Inl _ \<Rightarrow> (p, None)
      | Inr payload \<Rightarrow> if payload = [] then (p, None) else dispatchFrame video_magic payload p)"

text \<open>One round of \<open>popDecoderFrames\<close> on decoder \<open>n\<close>: whether it goes on, the state, and the
  acknowledgement it still has to send.\<close>

definition popDecoderFrames ::
    "('q, 't) visual \<Rightarrow> nat \<Rightarrow> 's video \<Rightarrow> (bool \<times> 's video \<times> (u32 \<times> u32) option) list" where
  "popDecoderFrames vis n p =
     (if a_closeCh p then [(False, popDecoder_exit n p, None)]
      else map (\<lambda>((frame, err), d). let p' = p\<lparr>v_decoders := (v_decoders p)[n := d]\<rparr> in
             case err of
               Some _ \<Rightarrow> (False, popDecoder_exit n p', None)
             | None \<Rightarrow> (True, video_handleFrame vis (case frame of None \<Rightarrow> [] | Some b \<Rightarrow> b) p'))
           (PopFrame (v_decoders p ! n)))"

text \<open>The inner loop of \<open>readDecoderInput\<close> over the samples that one packet completed; whether
  the goroutine goes on.\<close>

fun readDecoder_samples :: "mime_types \<Rightarrow> nat \<Rightarrow> bytes list \<Rightarrow> 's video \<Rightarrow> (bool \<times> 's video) option" where
  "readDecoder_samples mt n [] p = Some (True, p)"
| "readDecoder_samples mt n (sample # samples) p =
     (case PushSample mt sample (v_decoders p ! n) of
        None \<Rightarrow> None
      | Some (Some _, d) \<Rightarrow> Some (False, p\<lparr>v_decoders := (v_decoders p)[n := d]\<rparr>)
      | Some (None, d) \<Rightarrow> readDecoder_samples mt n samples (p\<lparr>v_decoders := (v_decoders p)[n := d]\<rparr>))"

text \<open>\<open>handleRemoteTrack\<close> up to the start of the two goroutines; the second component is the
  decoder they run on.\<close>

definition video_handleRemoteTrack ::
    "mime_types \<Rightarrow> os_env \<Rightarrow> string \<Rightarrow> 's video \<Rightarrow> ('s video \<times> nat option) option" where
  "video_handleRemoteTrack mt env mime p =
     (case codecSpecForMime mt mime of
        None \<Rightarrow> Some (p, None)
      | Some codec \<Rightarrow>
     (case newFFmpegDecoder mt env codec (v_videoW p) (v_videoH p) (v_videoFPS p) (v_videoHW p) of
        None \<Rightarrow> None
      | Some (Inl _) \<Rightarrow> Some (p, None)
      | Some (Inr decoder) \<Rightarrow>
          if a_closed p
          then Some (p\<lparr>v_decoders := v_decoders p @ [child_Close decoder]\<rparr>, None)
          else Some (p\<lparr>v_decoders := close_at (v_decoder p) (v_decoders p) @ [decoder],
                       v_decoder := Some (length (v_decoders p))\<rparr>, Some (length (v_decoders p)))))"

section \<open>The engine's second copy\<close>

definition video_nextOutboundFrame :: "'s video \<Rightarrow> ((bytes option \<times> bool) \<times> 's video) list" where
  "video_nextOutboundFrame = nextOutboundFrame"

definition video_enqueueFrame :: "bytes \<Rightarrow> bool \<Rightarrow> 's video \<Rightarrow> (arq_error + 's video) list" where
  "video_enqueueFrame = enqueueFrame"

definition video_upsertInbound :: "transportFrame \<Rightarrow> (u32 \<times> inboundMessage) list \<Rightarrow>
    (u32 \<times> inboundMessage) list \<times> inboundMessage option \<times> bool" where
  "video_upsertInbound = upsertInbound"

definition video_assembleMessage :: "inboundMessage \<Rightarrow> bytes" where
  "video_assembleMessage = assembleMessage"

definition video_handleInboundFrame :: "transportFrame \<Rightarrow> 's video \<Rightarrow> 's video \<times> (u32 \<times> u32) option" where
  "video_handleInboundFrame = handleInboundFrame"

definition video_sendAck :: "u32 \<Rightarrow> u32 \<Rightarrow> 's video \<Rightarrow> 's video list" where
  "video_sendAck = sendAck video_magic"

definition video_resolveAck :: "u32 \<Rightarrow> u32 \<Rightarrow> 's video \<Rightarrow> 's video" where
  "video_resolveAck = resolveAck"

end
