(* ===== verification/Video_Contract.thy ===== *)
theory Video_Contract
  imports Videochannel
begin

text \<open>
  The properties of the videochannel transport: no encoder or decoder process outlives its use,
  a rendered frame is handled as the frame it carries, the idle frame is encoded once, settings
  are usable, and the closing contract.
\<close>

section \<open>Processes are closed\<close>

text \<open>Every process of a list is closed except the current one of an open transport.\<close>

definition children_ok :: "nat option \<Rightarrow> bool \<Rightarrow> 'a child_scheme list \<Rightarrow> bool" where
  "children_ok cur closed es \<longleftrightarrow>
     (\<forall>i < length es. (cur \<noteq> Some i \<or> closed) \<longrightarrow> ff_closed (es ! i))
     \<and> (\<forall>i. cur = Some i \<longrightarrow> i < length es)"

lemma child_Close_closed [simp]: "ff_closed (child_Close e)"
  by (simp add: child_Close_def)

lemma length_close_at [simp]: "length (close_at i es) = length es"
  by (simp add: close_at_def split: option.splits)

lemma nth_close_at:
  "j < length es \<Longrightarrow> close_at i es ! j = (if i = Some j then child_Close (es ! j) else es ! j)"
  by (auto simp: close_at_def nth_list_update split: option.splits)

lemma children_ok_append_closed:
  "children_ok cur closed es \<Longrightarrow> ff_closed e \<Longrightarrow> children_ok cur closed (es @ [e])"
  by (auto simp: children_ok_def nth_append less_Suc_eq)

lemma children_ok_replace:
  "children_ok cur False es \<Longrightarrow> children_ok (Some (length es)) False (close_at cur es @ [e])"
  by (auto simp: children_ok_def nth_append nth_close_at less_Suc_eq)

lemma children_ok_close:
  "children_ok cur closed es \<Longrightarrow> children_ok cur True (close_at cur es)"
  by (auto simp: children_ok_def nth_close_at)

lemma children_ok_close_cur:
  "children_ok cur closed es \<Longrightarrow> children_ok cur closed (close_at n es)"
  by (auto simp: children_ok_def nth_close_at)

lemma children_ok_drop:
  "children_ok cur closed es \<Longrightarrow>
    children_ok (if cur = Some n then None else cur) closed (close_at (Some n) es)"
  by (auto simp: children_ok_def nth_close_at)

lemma nth_update_if: "i < length es \<Longrightarrow> es[n := e] ! i = (if n = i then e else es ! i)"
  by simp

lemma children_ok_update:
  "children_ok cur closed es \<Longrightarrow> (ff_closed (es ! n) \<longrightarrow> ff_closed e) \<Longrightarrow> children_ok cur closed (es[n := e])"
  by (simp add: children_ok_def nth_update_if)

definition video_inv :: "'s video \<Rightarrow> bool" where
  "video_inv p \<longleftrightarrow> children_ok (v_encoder p) (a_closed p) (v_encoders p)
     \<and> children_ok (v_decoder p) (a_closed p) (v_decoders p)"

section \<open>What the operations leave alone\<close>

definition same_children :: "'s video \<Rightarrow> 's video \<Rightarrow> bool" where
  "same_children p p' \<longleftrightarrow> a_closed p' = a_closed p \<and> v_encoder p' = v_encoder p
     \<and> v_encoders p' = v_encoders p \<and> v_decoder p' = v_decoder p \<and> v_decoders p' = v_decoders p"

lemma same_children_inv: "same_children p p' \<Longrightarrow> video_inv p \<Longrightarrow> video_inv p'"
  by (simp add: same_children_def video_inv_def)

lemma same_children_refl [simp]: "same_children p p"
  by (simp add: same_children_def)

lemma same_children_next: "(r, p') \<in> set (nextOutboundFrame p) \<Longrightarrow> same_children p p'"
  by (cases "a_outboundAck p"; cases "a_outbound p")
     (auto simp: nextOutboundFrame_def same_children_def split: if_splits)

lemma same_children_handle: "same_children p (fst (handleInboundFrame frame p))"
  by (auto simp: handleInboundFrame_def same_children_def Let_def
      split: prod.splits option.splits bool.splits)

lemma same_children_resolve: "same_children p (resolveAck q c p)"
  by (simp add: resolveAck_def same_children_def split: option.splits)

lemma same_children_dispatch: "same_children p (fst (dispatchFrame m raw p))"
  by (simp add: dispatchFrame_def same_children_handle same_children_resolve split: sum.splits)

lemma same_children_handleFrame: "same_children p (fst (video_handleFrame vis frame p))"
  by (simp add: video_handleFrame_def same_children_dispatch split: sum.splits)

lemma PopFrame_closed: "(r, d') \<in> set (PopFrame d) \<Longrightarrow> ff_closed d' = ff_closed d"
  by (auto simp: PopFrame_def split: list.splits if_splits)

lemma PushSample_closed:
  assumes "PushSample mt s d = Some (r, d')"
  shows "ff_closed d' = ff_closed d"
proof (cases "processErr d")
  case None
  show ?thesis
  proof (cases "d_mimeType d = MimeTypeH264 mt")
    case True
    obtain e p where w: "writeAll pipe_Write (ff_stdin d) s = Some (e, p)"
      using pipe.writeAll_terminates [of "ff_stdin d" s] by auto
    with True None assms have "d' = d\<lparr>ff_stdin := p\<rparr>" by (simp add: PushSample_def)
    then show ?thesis by simp
  next
    case False
    obtain e p where w: "writeIVFFrame (ff_stdin d) (d_pts d) s = Some (e, p)"
      using PushSample_total [of mt s d] False None
      by (cases "writeIVFFrame (ff_stdin d) (d_pts d) s") (auto simp: PushSample_def)
    with False None assms have "d' = d\<lparr>ff_stdin := p\<rparr> \<or> d' = d\<lparr>ff_stdin := p, d_pts := d_pts d + 1\<rparr>"
      by (cases e) (simp_all add: PushSample_def)
    then show ?thesis by (elim disjE) simp_all
  qed
next
  case (Some err)
  with assms show ?thesis by (simp add: PushSample_def)
qed

lemma EncodeFrame_wait_closed: "(r, e') \<in> set (EncodeFrame_wait e) \<Longrightarrow> ff_closed e' = ff_closed e"
  by (auto simp: EncodeFrame_wait_def split: list.splits if_splits)

lemma EncodeFrame_begin_closed: "EncodeFrame_begin f e = Some (r, e') \<Longrightarrow> ff_closed e' = ff_closed e"
  by (auto simp: EncodeFrame_begin_def split: if_splits option.splits)

text \<open>The reading goroutine never reopens a closed process.\<close>

definition never_reopens :: "(child \<Rightarrow> child list) \<Rightarrow> bool" where
  "never_reopens between \<longleftrightarrow> (\<forall>e. \<forall>e'\<in>set (between e). ff_closed e \<longrightarrow> ff_closed e')"

lemma EncodeFrame_closed:
  assumes "never_reopens between" and "(r, e') \<in> set (EncodeFrame between f e)" and "ff_closed e"
  shows "ff_closed e'"
proof (cases "EncodeFrame_begin f e")
  case None
  with assms(2) show ?thesis by (simp add: EncodeFrame_def)
next
  case (Some x)
  obtain b e1 where x: "x = (b, e1)" by (cases x)
  with Some assms(3) have c: "ff_closed e1" using EncodeFrame_begin_closed by blast
  show ?thesis
  proof (cases b)
    case None
    with assms(2) Some x obtain e2 where "e2 \<in> set (between e1)" "(r, e') \<in> set (EncodeFrame_wait e2)"
      by (auto simp: EncodeFrame_def)
    with assms(1) c EncodeFrame_wait_closed show ?thesis unfolding never_reopens_def by blast
  next
    case (Some err)
    with assms(2) \<open>EncodeFrame_begin f e = Some x\<close> x c show ?thesis by (simp add: EncodeFrame_def)
  qed
qed

lemma writeIdle_inv:
  assumes "never_reopens between" and "video_inv p" and "writeIdleFrame vis between n p = Some ps"
    and "p' \<in> set ps"
  shows "video_inv p'"
proof -
  have upd: "video_inv (p\<lparr>v_encoders := (v_encoders p)[n := e]\<rparr>)"
    if "(r, e) \<in> set (EncodeFrame between raw (v_encoders p ! n))" for r e raw
    using assms(1,2) EncodeFrame_closed [OF assms(1) that]
    by (auto simp: video_inv_def intro: children_ok_update)
  from assms(3,4) upd assms(2) show ?thesis
    by (fastforce simp: writeIdleFrame_def video_inv_def video_sample_def Let_def
        split: option.splits sum.splits)
qed

lemma writePayload_inv:
  assumes "never_reopens between" and "video_inv p" and "writePayloadFrame vis between n frame p = Some ps"
    and "p' \<in> set ps"
  shows "video_inv p'"
proof -
  have upd: "video_inv (p\<lparr>v_encoders := (v_encoders p)[n := e]\<rparr>)"
    if "(r, e) \<in> set (EncodeFrame between raw (v_encoders p ! n))" for r e raw
    using assms(1,2) EncodeFrame_closed [OF assms(1) that]
    by (auto simp: video_inv_def intro: children_ok_update)
  from assms(3,4) upd assms(2) show ?thesis
    by (fastforce simp: writePayloadFrame_def video_inv_def video_sample_def Let_def
        split: option.splits sum.splits)
qed

lemma writer_exit_inv: "video_inv p \<Longrightarrow> video_inv (video_writer_exit p)"
  by (simp add: video_inv_def video_writer_exit_def children_ok_close_cur)

lemma writer_round_inv:
  assumes "never_reopens between" and "video_inv p"
    and "Some rs \<in> set (video_writer_round vis between p)" and "(b, p') \<in> set rs"
  shows "video_inv p'"
proof -
  from assms(3) consider "rs = [(False, video_writer_exit p)]"
    | payload ok p1 where "((payload, ok), p1) \<in> set (nextOutboundFrame p)"
        "video_tick vis between ((payload, ok), p1) = Some rs"
    by (force simp: video_writer_round_def split: if_splits)
  then show ?thesis
  proof cases
    case 1
    with assms(2,4) writer_exit_inv show ?thesis by auto
  next
    case 2
    have inv: "video_inv p1" using same_children_next [OF 2(1)] assms(2) by (rule same_children_inv)
    show ?thesis
    proof (cases "ok")
      case False
      with 2(2) assms(4) inv writer_exit_inv show ?thesis by (auto simp: video_tick_def)
    next
      case ok: True
      show ?thesis
      proof (cases "v_encoder p1")
        case None
        with ok 2(2) assms(4) inv show ?thesis by (auto simp: video_tick_def)
      next
        case (Some n)
        with ok 2(2) assms(4) obtain ps where "p' \<in> set ps"
          "(case payload of None \<Rightarrow> writeIdleFrame vis between n p1
            | Some frame \<Rightarrow> writePayloadFrame vis between n frame p1) = Some ps"
          by (auto simp: video_tick_def)
        with writeIdle_inv [OF assms(1) inv] writePayload_inv [OF assms(1) inv] show ?thesis
          by (cases payload) auto
      qed
    qed
  qed
qed

lemma Connect_inv:
  assumes "video_inv p"
  shows "video_inv (snd (video_Connect stream mt env p))"
proof -
  have "children_ok (Some (length (v_encoders p))) False (close_at (v_encoder p) (v_encoders p) @ [e])"
    if "\<not> a_closed p" for e
    using assms that by (intro children_ok_replace) (simp add: video_inv_def)
  with assms show ?thesis
    by (auto simp: video_Connect_def video_inv_def children_ok_append_closed
        split: sum.splits prod.splits option.splits)
qed

lemma Close_inv: "video_inv p \<Longrightarrow> video_inv (video_close_begin p)"
  by (auto simp: video_close_begin_def arq_close_def video_inv_def intro: children_ok_close)

lemma Track_inv:
  assumes "video_inv p" and "video_handleRemoteTrack mt env mime p = Some (p', r)"
  shows "video_inv p'"
proof -
  have "children_ok (Some (length (v_decoders p))) False (close_at (v_decoder p) (v_decoders p) @ [d])"
    if "\<not> a_closed p" for d
    using assms that by (intro children_ok_replace) (simp add: video_inv_def)
  with assms show ?thesis
    by (auto simp: video_handleRemoteTrack_def video_inv_def children_ok_append_closed
        split: option.splits sum.splits if_splits)
qed

lemma popDecoder_exit_inv: "video_inv p \<Longrightarrow> video_inv (popDecoder_exit n p)"
  using children_ok_drop [of "v_decoder p" "a_closed p" "v_decoders p" n]
  by (simp add: video_inv_def popDecoder_exit_def)

lemma Pop_inv:
  assumes "video_inv p" and "(b, p', a) \<in> set (popDecoderFrames vis n p)"
  shows "video_inv p'"
proof (cases "a_closeCh p")
  case True
  with assms popDecoder_exit_inv show ?thesis by (auto simp: popDecoderFrames_def)
next
  case False
  with assms(2) obtain frame err d where d: "((frame, err), d) \<in> set (PopFrame (v_decoders p ! n))"
    and r: "(b, p', a) = (let p' = p\<lparr>v_decoders := (v_decoders p)[n := d]\<rparr> in
             case err of
               Some _ \<Rightarrow> (False, popDecoder_exit n p', None)
             | None \<Rightarrow> (True, video_handleFrame vis (case frame of None \<Rightarrow> [] | Some b \<Rightarrow> b) p'))"
    by (auto simp: popDecoderFrames_def)
  have "video_inv (p\<lparr>v_decoders := (v_decoders p)[n := d]\<rparr>)"
    using assms(1) PopFrame_closed [OF d] by (auto simp: video_inv_def intro: children_ok_update)
  note inv = this
  show ?thesis
  proof (cases err)
    case None
    with r have "p' = fst (video_handleFrame vis (case frame of None \<Rightarrow> [] | Some b \<Rightarrow> b)
        (p\<lparr>v_decoders := (v_decoders p)[n := d]\<rparr>))"
      by (metis (no_types, lifting) fst_conv option.simps(4) snd_conv)
    then show ?thesis using same_children_inv [OF same_children_handleFrame inv] by simp
  next
    case (Some e)
    with r popDecoder_exit_inv [OF inv] show ?thesis by simp
  qed
qed

lemma Samples_inv:
  "readDecoder_samples mt n ss p = Some (b, p') \<Longrightarrow> video_inv p \<Longrightarrow> video_inv p'"
proof (induction mt n ss p rule: readDecoder_samples.induct)
  case (1 mt n p)
  then show ?case by simp
next
  case (2 mt n s ss p)
  obtain r d where d: "PushSample mt s (v_decoders p ! n) = Some (r, d)"
    using PushSample_total [of mt s "v_decoders p ! n"] by auto
  have inv: "video_inv (p\<lparr>v_decoders := (v_decoders p)[n := d]\<rparr>)"
    using "2.prems"(2) PushSample_closed [OF d] by (auto simp: video_inv_def intro: children_ok_update)
  show ?case
  proof (cases r)
    case None
    with 2 d inv show ?thesis by auto
  next
    case (Some e)
    with 2 d inv show ?thesis by auto
  qed
qed

section \<open>Reachable transports\<close>

inductive video_step ::
    "('s, 'u, 'l, 'h) video_track \<Rightarrow> ('q, 't) visual \<Rightarrow> mime_types \<Rightarrow> 's video \<Rightarrow> 's video \<Rightarrow> bool"
  for stream vis mt where
  Connect: "video_step stream vis mt p (snd (video_Connect stream mt env p))"
| Close: "video_step stream vis mt p (video_close_begin p)"
| Write: "never_reopens between \<Longrightarrow> Some rs \<in> set (video_writer_round vis between p) \<Longrightarrow>
    (b, p') \<in> set rs \<Longrightarrow> video_step stream vis mt p p'"
| Track: "video_handleRemoteTrack mt env mime p = Some (p', n) \<Longrightarrow> video_step stream vis mt p p'"
| Push: "readDecoder_samples mt n samples p = Some (b, p') \<Longrightarrow> video_step stream vis mt p p'"
| Pop: "(b, p', a) \<in> set (popDecoderFrames vis n p) \<Longrightarrow> video_step stream vis mt p p'"

inductive video_reachable ::
    "('s, 'u, 'l, 'h) video_track \<Rightarrow> ('q, 't) visual \<Rightarrow> mime_types \<Rightarrow> 'o transport_config \<Rightarrow> 's video \<Rightarrow> bool"
  for stream vis mt cfg where
  init: "video_reachable stream vis mt cfg (video_settings mt cfg st)"
| step: "video_reachable stream vis mt cfg p \<Longrightarrow> video_step stream vis mt p p' \<Longrightarrow> video_reachable stream vis mt cfg p'"

lemmas video_settings_simps = video_settings_def Let_def video.defs arq.defs arq_new_def

lemma video_step_inv: "video_step stream vis mt p p' \<Longrightarrow> video_inv p \<Longrightarrow> video_inv p'"
  by (induction rule: video_step.induct)
    (auto intro: Connect_inv Close_inv writer_round_inv Track_inv Samples_inv Pop_inv)

lemma video_reachable_inv: "video_reachable stream vis mt cfg p \<Longrightarrow> video_inv p"
proof (induction rule: video_reachable.induct)
  case (init st)
  show ?case by (simp add: video_inv_def children_ok_def video_settings_simps)
qed (rule video_step_inv)

section \<open>The idle frame\<close>

lemma idle_cached:
  "v_idleFrame p = Some cached \<Longrightarrow> writeIdleFrame vis between n p = Some [video_sample cached p]"
  by (simp add: writeIdleFrame_def)

section \<open>Visual codecs\<close>

text \<open>The documented laws of the codecs: an image is of the configured size and decodes, under
  any error level, to the bytes it was made from.\<close>

definition codec_laws :: "('q, 't) visual \<Rightarrow> bool" where
  "codec_laws vis \<longleftrightarrow>
     (\<forall>w h e c payload frame. qr_New vis w h 2 e = Inr c \<longrightarrow> qr_Encode vis c payload = Inr frame \<longrightarrow>
        int (length frame) = wrap64 (w * h) \<and>
        (\<forall>e' c'. qr_New vis w h 2 e' = Inr c' \<longrightarrow> qr_Decode vis c' frame = Inr payload)) \<and>
     (\<forall>w h e e' c. qr_New vis w h 2 e = Inr c \<longrightarrow> (\<exists>c'. qr_New vis w h 2 e' = Inr c')) \<and>
     (\<forall>m r c payload frame. tile_New vis m r = Inr c \<longrightarrow> tile_Encode vis c payload = Inr frame \<longrightarrow>
        length frame = tile_FrameW vis * tile_FrameH vis \<and> tile_Decode vis c frame = Inr payload)"

lemma rendered_extracts:
  assumes "codec_laws vis" and "payload \<noteq> []" and "renderFrame vis payload p = Some (Inr raw)"
  shows "extractVisualPayload vis raw (v_videoW p) (v_videoH p) (v_videoCodec p)
           (v_videoTileModule p) (v_videoTileRS p) = Inr payload"
proof (cases "v_videoCodec p = ''tile''")
  case True
  with assms(2,3) obtain c where c: "tile_New vis (v_videoTileModule p) (v_videoTileRS p) = Inr c"
    "tile_Encode vis c payload = Inr raw"
    by (auto simp: renderFrame_def renderVisualFrame_def renderTileFrame_def split: sum.splits)
  with assms(1) have "length raw = tile_FrameW vis * tile_FrameH vis" "tile_Decode vis c raw = Inr payload"
    unfolding codec_laws_def by blast+
  with c True show ?thesis by (simp add: extractVisualPayload_def extractTilePayload_def)
next
  case False
  with assms(2,3) obtain c where c: "qr_New vis (v_videoW p) (v_videoH p) 2 (eccLevel (v_videoQRRecovery p)) = Inr c"
    "qr_Encode vis c payload = Inr raw"
    by (auto simp: renderFrame_def renderVisualFrame_def renderQRFrame_def split: sum.splits)
  from assms(1) c(1) obtain c' where c': "qr_New vis (v_videoW p) (v_videoH p) 2 (qr_zeroECC vis) = Inr c'"
    unfolding codec_laws_def by blast
  with assms(1) c have "int (length raw) = wrap64 (v_videoW p * v_videoH p)" "qr_Decode vis c' raw = Inr payload"
    unfolding codec_laws_def by blast+
  with c' False show ?thesis by (simp add: extractVisualPayload_def extractQRPayload_def)
qed

interpretation video_closing: closable a_closed video_close_begin "video_CanSend stream"
  "\<lambda>data p. video_send_begin data p = Some (Inl ErrTransportClosed)" for stream
  by unfold_locales
    (auto simp: video_close_begin_def arq_close_def video_CanSend_def video_send_begin_def send_begin_def)

section \<open>Properties\<close>


text \<open>For codecs that keep their laws, a frame rendered with the transport's own settings is
  handled by a peer with the same settings exactly as the transport frame it was made from, for
  both visual codecs and every recovery level.\<close>

lemma video_wire_transparent:
  assumes "codec_laws vis" and "renderFrame vis (encodeDataFrame video_magic sq c tot idx n frag) p = Some (Inr raw)"
  shows "video_handleFrame vis raw p =
     handleInboundFrame
       \<lparr>f_typ = frameTypeData, f_seq = sq, f_crc = c, f_totalLen = word_of_nat tot,
        f_fragIdx = word_of_nat idx, f_fragTotal = word_of_nat n, f_payload = frag\<rparr> p"
proof -
  have "encodeDataFrame video_magic sq c tot idx n frag \<noteq> []" by (simp add: encodeDataFrame_def)
  with rendered_extracts [OF assms(1) this assms(2)] show ?thesis
    by (simp add: video_handleFrame_def dispatchFrame_def frame_consts)
qed

text \<open>Whatever the configuration, a constructed videochannel has a positive fragment size
  and tile module and a non-negative parity, \<open>Send\<close> on it never panics, and the advertised
  payload size is at least 16 KiB.\<close>

lemma video_settings_usable:
  "0 < v_videoQRSize (video_settings mt cfg st) \<and> 0 < v_videoTileModule (video_settings mt cfg st)
   \<and> 0 \<le> v_videoTileRS (video_settings mt cfg st)
   \<and> video_send_begin data (video_settings mt cfg st) \<noteq> None
   \<and> 16 * 1024 \<le> MaxPayloadSize (video_Features (video_settings mt cfg st))"
proof -
  have q: "0 < v_videoQRSize (video_settings mt cfg st)"
    by (simp add: video_settings_simps video_defaultFragmentSize_def)
  then obtain fs where "fragmentPayload data (v_videoQRSize (video_settings mt cfg st)) = Some fs"
    using fragmentPayload_Some by blast
  then have "video_send_begin data (video_settings mt cfg st) \<noteq> None"
    by (simp add: video_send_begin_def send_begin_def Let_def)
  with q show ?thesis
    by (simp add: video_Features_def video_defaultMaxPayloadSize_def Let_def)
      (simp add: video_settings_simps)
qed

text \<open>The writer's ticker can be created exactly for rates from 1 to a billion frames per
  second; any other configured rate, a negative one included, panics.\<close>

lemma video_ticker_domain:
  "(video_ticker fps \<noteq> None) = (1 \<le> fps \<and> fps \<le> 1000000000)"
proof (cases "fps = 0")
  case True
  then show ?thesis by (simp add: video_ticker_def)
next
  case nz: False
  show ?thesis
  proof (cases "0 < fps")
    case True
    then have "second sdiv fps = second div fps" by (simp add: signed_divide_int_def second_def)
    moreover have "second div fps \<le> 0 \<longleftrightarrow> 1000000000 < fps"
    proof -
      have "0 \<le> second div fps" using True by (simp add: second_def pos_imp_zdiv_nonneg_iff)
      then show ?thesis
        using True zdiv_eq_0_iff [of second fps] by (auto simp: second_def)
    qed
    ultimately show ?thesis using True by (auto simp: video_ticker_def Let_def)
  next
    case False
    with nz have "fps < 0" by simp
    then have "second sdiv fps \<le> 0"
      by (simp add: signed_divide_int_def second_def sgn_if mult_le_0_iff pos_imp_zdiv_nonneg_iff)
    with \<open>fps < 0\<close> show ?thesis by (simp add: video_ticker_def Let_def)
  qed
qed

section \<open>Witnesses\<close>

definition example_track :: "(unit, unit, unit, unit) video_track" where
  "example_track =
     \<lparr>vt_Connect = Pair None, vt_Close = Pair None, vt_SetReconnectCallback = (\<lambda>_. id),
      vt_SetShouldReconnect = (\<lambda>_. id), vt_SetEndedCallback = (\<lambda>_. id), vt_WatchConnection = id,
      vt_CanSend = (\<lambda>_. True), vt_AddTrack = (\<lambda>_. Pair None), vt_SetTrackHandler = (\<lambda>_. id)\<rparr>"

definition example_env :: os_env where
  "example_env =
     \<lparr>FFmpegPath = ''ffmpeg'', env_FFMPEG_BIN = [], LookPath_ffmpeg = None, os_Stat = (\<lambda>_. None),
      StdinPipe = Inr \<lparr>pp_written = [], pp_closed = False, pp_limit = 100\<rparr>, StdoutPipe = None,
      cmd_Start = (\<lambda>_ _. None)\<rparr>"

definition example_tc :: "unit transport_config" where
  "example_tc =
     \<lparr>tc_Carrier = ''telemost'', tc_RoomURL = [], tc_ClientID = [], tc_Name = [], tc_OnData = Some (),
      tc_DNSServer = [], tc_ProxyAddr = [], tc_ProxyPort = 0, tc_VideoWidth = 4, tc_VideoHeight = 6,
      tc_VideoFPS = 30, tc_VideoBitrate = ''1M'', tc_VideoHW = ''none'', tc_VideoQRSize = 0,
      tc_VideoQRRecovery = ''low'', tc_VideoCodec = ''qrcode'', tc_VideoTileModule = 0,
      tc_VideoTileRS = 0, tc_VP8FPS = 0, tc_VP8BatchSize = 0, tc_SEIFPS = 0, tc_SEIBatchSize = 0,
      tc_SEIFragmentSize = 0, tc_SEIAckTimeoutMS = 0\<rparr>"

definition example_video :: "unit video" where
  "example_video = video_settings example_mt example_tc ()"

definition plain_codec :: "(int \<times> int, unit) visual" where
  "plain_codec =
     \<lparr>qr_New = (\<lambda>w h m e. Inr (w, h)),
      qr_Encode = (\<lambda>(w, h) payload. if int (length payload) = wrap64 (w * h) then Inr payload else Inl (Base ''too large'')),
      qr_Decode = (\<lambda>_ frame. Inr frame), qr_zeroECC = ECCLow,
      tile_New = (\<lambda>_ _. Inl (Base ''no tiles'')), tile_Encode = (\<lambda>_ _. Inl (Base ''no tiles'')),
      tile_Decode = (\<lambda>_ _. Inl (Base ''no tiles'')), tile_FrameW = 1, tile_FrameH = 1\<rparr>"


end
