(* ===== verification/Kcp.thy ===== *)
theory Kcp
  imports Layers Go_Std
begin

text \<open>
  \<open>vp8channel/kcp.go\<close> and \<open>kcpconn.go\<close>: the packet connection KCP runs on, and the message
  framing on top of KCP's byte stream. KCP itself (\<open>kcp-go\<close>) is not in the repository: its
  session is a writer of bytes on one side (\<open>wr\<close>) and the bytes read so far on the other.

  Selects are lists of outcomes; a deadline that is the zero time is \<open>None\<close>, and \<open>now\<close> is the
  clock.
\<close>

definition epochHdrLen :: nat where "epochHdrLen = 28"
definition inboundQueueSize :: nat where "inboundQueueSize = 1024"
definition outboundQueueSize :: nat where "outboundQueueSize = 1024"
definition kcpLenPrefix :: nat where "kcpLenPrefix = 4"
definition kcpMaxMessage :: nat where "kcpMaxMessage = 8 * 1024 * 1024"

definition ErrKCPMessageTooLarge :: go_error where
  "ErrKCPMessageTooLarge = Base ''vp8channel: kcp message exceeds maximum size''"
definition TimeoutError :: go_error where "TimeoutError = Base ''i/o timeout''"
definition net_ErrClosed :: go_error where "net_ErrClosed = Base ''use of closed network connection''"

section \<open>The packet connection\<close>

record kcpConn =
  kc_in :: "bytes list"
  kc_cap :: nat
  kc_closed :: bool
  kc_epochHdr :: bytes
  kc_rDeadline :: "int option"
  kc_wDeadline :: "int option"

definition newKCPConn :: "int \<Rightarrow> bytes \<Rightarrow> kcpConn" where
  "newKCPConn inboundCap epochHdr =
     \<lparr>kc_in = [], kc_cap = nat (if inboundCap \<le> 0 then 1024 else inboundCap), kc_closed = False,
      kc_epochHdr = epochHdr, kc_rDeadline = None, kc_wDeadline = None\<rparr>"

text \<open>\<open>deliver\<close>: with room and a closed connection either case of the select may be taken.\<close>

definition kcp_deliver_outcomes :: "bytes \<Rightarrow> kcpConn \<Rightarrow> kcpConn list" where
  "kcp_deliver_outcomes payload c =
     (let ready = (case chan_send (kc_cap c) payload (kc_in c) of None \<Rightarrow> [] | Some q \<Rightarrow> [c\<lparr>kc_in := q\<rparr>])
                  @ (if kc_closed c then [c] else [])
      in if ready = [] then [c] else ready)"

definition kcp_deliver :: "bytes \<Rightarrow> kcpConn \<Rightarrow> kcpConn" where
  "kcp_deliver payload c = hd (kcp_deliver_outcomes payload c)"

definition expired :: "int \<Rightarrow> int option \<Rightarrow> bool" where
  "expired now deadline = (case deadline of None \<Rightarrow> False | Some d \<Rightarrow> d - now \<le> 0)"

text \<open>\<open>ReadFrom\<close> into a buffer of \<open>n\<close> bytes: the bytes copied, or an error.\<close>

definition ReadFrom :: "int \<Rightarrow> nat \<Rightarrow> kcpConn \<Rightarrow> ((go_error + bytes) \<times> kcpConn) list" where
  "ReadFrom now n c =
     (if expired now (kc_rDeadline c) then [(Inl TimeoutError, c)]
      else (case kc_in c of [] \<Rightarrow> [] | msg # q \<Rightarrow> [(Inr (take n msg), c\<lparr>kc_in := q\<rparr>)])
           @ (if kc_closed c then [(Inl net_ErrClosed, c)] else [])
           @ (if kc_rDeadline c \<noteq> None then [(Inl TimeoutError, c)] else []))"

text \<open>\<open>WriteTo\<close> onto the transport's outbound queue: the count written, or an error.\<close>

definition WriteTo :: "int \<Rightarrow> bytes \<Rightarrow> kcpConn \<Rightarrow> bytes list \<Rightarrow> ((go_error + nat) \<times> bytes list) list" where
  "WriteTo now p c out =
     (let buf = kc_epochHdr c @ p in
      if expired now (kc_wDeadline c) then [(Inl TimeoutError, out)]
      else (case chan_send outboundQueueSize buf out of None \<Rightarrow> [] | Some q \<Rightarrow> [(Inr (length p), q)])
           @ (if kc_closed c then [(Inl net_ErrClosed, out)] else [])
           @ (if kc_wDeadline c \<noteq> None then [(Inl TimeoutError, out)] else []))"

lemma kcp_packets_tagged:
  "(Inr n, out') \<in> set (WriteTo now p c out) \<longleftrightarrow>
     \<not> expired now (kc_wDeadline c) \<and> length out < outboundQueueSize \<and> n = length p
     \<and> out' = out @ [kc_epochHdr c @ p]"
  by (auto simp: WriteTo_def Let_def chan_send_def split: if_splits)

definition kcpConn_Close :: "kcpConn \<Rightarrow> kcpConn" where
  "kcpConn_Close c = c\<lparr>kc_closed := True\<rparr>"

definition SetReadDeadline :: "int option \<Rightarrow> kcpConn \<Rightarrow> kcpConn" where
  "SetReadDeadline t c = c\<lparr>kc_rDeadline := t\<rparr>"

definition SetWriteDeadline :: "int option \<Rightarrow> kcpConn \<Rightarrow> kcpConn" where
  "SetWriteDeadline t c = c\<lparr>kc_wDeadline := t\<rparr>"

definition SetDeadline :: "int option \<Rightarrow> kcpConn \<Rightarrow> kcpConn" where
  "SetDeadline t c = SetWriteDeadline t (SetReadDeadline t c)"

section \<open>Message framing\<close>

definition kcp_header :: "bytes \<Rightarrow> bytes" where
  "kcp_header msg = be32 (word_of_nat (length msg))"

definition kcp_frame :: "bytes \<Rightarrow> bytes" where
  "kcp_frame msg = kcp_header msg @ msg"

text \<open>\<open>send\<close> over the session's \<open>Write\<close>.\<close>

definition kcp_send ::
    "(bytes \<Rightarrow> 'k \<Rightarrow> go_error option \<times> 'k) \<Rightarrow> bytes \<Rightarrow> 'k \<Rightarrow> go_error option \<times> 'k" where
  "kcp_send wr msg k =
     (if kcpMaxMessage < length msg then (Some ErrKCPMessageTooLarge, k)
      else (case wr (kcp_header msg) k of
              (Some err, k') \<Rightarrow> (Some (Ctx ''kcp write header'' err), k')
            | (None, k') \<Rightarrow>
                (case wr msg k' of
                   (Some err, k'') \<Rightarrow> (Some (Ctx ''kcp write payload'' err), k'')
                 | (None, k'') \<Rightarrow> (None, k''))))"

text \<open>\<open>readLoop\<close> over the bytes the session has yielded: the messages handed to \<open>onData\<close>, and
  where the loop stands: waiting inside a frame, or stopped on a size above the limit.\<close>

datatype kcp_state = Reading bytes | Corrupt

function readLoop :: "bytes \<Rightarrow> bytes list \<times> kcp_state" where
  "readLoop stream =
     (if length stream < kcpLenPrefix then ([], Reading stream)
      else (let size = unat (get_be32 0 stream); rest = drop kcpLenPrefix stream in
        if size = 0 then readLoop rest
        else if kcpMaxMessage < size then ([], Corrupt)
        else if length rest < size then ([], Reading stream)
        else (case readLoop (drop size rest) of (ms, st) \<Rightarrow> (take size rest # ms, st))))"
  by pat_completeness auto
termination
  by (relation "measure length") (auto simp: kcpLenPrefix_def)

declare readLoop.simps [simp del]

section \<open>The framing is transparent\<close>

definition kcp_ok :: "bytes \<Rightarrow> bool" where
  "kcp_ok m \<longleftrightarrow> m \<noteq> [] \<and> length m \<le> kcpMaxMessage"

lemma kcp_frame_size:
  assumes "length m \<le> kcpMaxMessage"
  shows "unat (get_be32 0 (kcp_frame m @ rest)) = length m"
proof -
  have "get_be32 0 (kcp_frame m @ rest) = word_of_nat (length m)"
    using get_be32_be32 [of "[]" 0 "word_of_nat (length m)" "m @ rest"]
    by (simp add: kcp_frame_def kcp_header_def)
  with assms show ?thesis by (simp add: unat_of_nat kcpMaxMessage_def)
qed

lemma readLoop_frame:
  assumes "kcp_ok m"
  shows "readLoop (kcp_frame m @ rest) = (case readLoop rest of (ms, st) \<Rightarrow> (m # ms, st))"
proof -
  have l: "length m \<le> kcpMaxMessage" "m \<noteq> []" using assms by (simp_all add: kcp_ok_def)
  have d: "drop kcpLenPrefix (kcp_frame m) = m" "length (kcp_frame m) = kcpLenPrefix + length m"
    by (simp_all add: kcp_frame_def kcp_header_def kcpLenPrefix_def)
  show ?thesis
    using l by (subst readLoop.simps) (simp add: d kcp_frame_size not_less)
qed

lemma readLoop_empty_message: "readLoop (kcp_frame [] @ rest) = readLoop rest"
  using kcp_frame_size [of "[]" rest]
  by (subst readLoop.simps)
    (simp add: kcp_frame_def kcp_header_def kcpLenPrefix_def Let_def)

lemma readLoop_frames:
  "\<forall>m\<in>set ms. kcp_ok m \<Longrightarrow>
     readLoop (concat (map kcp_frame ms) @ rest) = (case readLoop rest of (ns, st) \<Rightarrow> (ms @ ns, st))"
  by (induction ms) (simp_all add: readLoop_frame split: prod.splits)

lemma get_be32_append: "4 \<le> length xs \<Longrightarrow> get_be32 0 (xs @ ys) = get_be32 0 xs"
  by (auto simp: get_be32_def nth_append)

lemma readLoop_more:
  "readLoop s = (ms, Reading r) \<Longrightarrow> readLoop (s @ t) = (case readLoop (r @ t) of (ns, st) \<Rightarrow> (ms @ ns, st))"
proof (induction s arbitrary: ms rule: readLoop.induct)
  case (1 s)
  let ?size = "unat (get_be32 0 s)" and ?rest = "drop kcpLenPrefix s"
  show ?case
  proof (cases "length s < kcpLenPrefix")
    case True
    with "1.prems" show ?thesis by (simp add: readLoop.simps [of s])
  next
    case long: False
    then have g: "get_be32 0 (s @ t) = get_be32 0 s" "drop kcpLenPrefix (s @ t) = ?rest @ t"
      "\<not> length (s @ t) < kcpLenPrefix"
      using get_be32_append [of s t] by (simp_all add: kcpLenPrefix_def)
    show ?thesis
    proof (cases "?size = 0")
      case True
      with "1.prems" long have "readLoop ?rest = (ms, Reading r)" by (simp add: readLoop.simps [of s])
      from "1.IH"(1) [OF long refl refl True this] True long g show ?thesis
        by (subst readLoop.simps) (simp add: Let_def)
    next
      case nz: False
      show ?thesis
      proof (cases "kcpMaxMessage < ?size")
        case True
        with "1.prems" long nz show ?thesis by (simp add: readLoop.simps [of s])
      next
        case small: False
        show ?thesis
        proof (cases "length ?rest < ?size")
          case True
          with "1.prems" long nz small have "ms = []" "r = s" by (simp_all add: readLoop.simps [of s])
          then show ?thesis by (simp split: prod.splits)
        next
          case full: False
          obtain ns where ns: "readLoop (drop ?size ?rest) = (ns, Reading r)" "ms = take ?size ?rest # ns"
            using "1.prems" long nz small full
            by (cases "readLoop (drop ?size ?rest)") (simp add: readLoop.simps [of s] Let_def)
          from "1.IH"(2) [OF long refl refl nz small full ns(1)] full g nz small long show ?thesis
            by (subst readLoop.simps) (simp add: Let_def ns(2) split: prod.splits)
        qed
      qed
    qed
  qed
qed

lemma readLoop_corrupt: "readLoop s = (ms, Corrupt) \<Longrightarrow> readLoop (s @ t) = (ms, Corrupt)"
proof (induction s arbitrary: ms rule: readLoop.induct)
  case (1 s)
  let ?size = "unat (get_be32 0 s)" and ?rest = "drop kcpLenPrefix s"
  have long: "\<not> length s < kcpLenPrefix" using "1.prems" by (auto simp: readLoop.simps [of s])
  then have g: "get_be32 0 (s @ t) = get_be32 0 s" "drop kcpLenPrefix (s @ t) = ?rest @ t"
    "\<not> length (s @ t) < kcpLenPrefix"
    using get_be32_append [of s t] by (simp_all add: kcpLenPrefix_def)
  show ?case
  proof (cases "?size = 0")
    case True
    with "1.prems" long have "readLoop ?rest = (ms, Corrupt)" by (simp add: readLoop.simps [of s])
    from "1.IH"(1) [OF long refl refl True this] True long g show ?thesis
      by (subst readLoop.simps) (simp add: Let_def)
  next
    case nz: False
    show ?thesis
    proof (cases "kcpMaxMessage < ?size")
      case True
      with "1.prems" long nz g show ?thesis by (simp add: readLoop.simps [of s] readLoop.simps [of "s @ t"])
    next
      case small: False
      with "1.prems" long nz have full: "\<not> length ?rest < ?size" by (auto simp: readLoop.simps [of s])
      obtain ns where ns: "readLoop (drop ?size ?rest) = (ns, Corrupt)" "ms = take ?size ?rest # ns"
        using "1.prems" long nz small full
        by (cases "readLoop (drop ?size ?rest)") (simp add: readLoop.simps [of s] Let_def)
      from "1.IH"(2) [OF long refl refl nz small full ns(1)] full g nz small long show ?thesis
        by (subst readLoop.simps) (simp add: Let_def ns(2))
    qed
  qed
qed

section \<open>A session as a message channel\<close>

text \<open>The stream of a healthy session: what \<open>Write\<close> has taken so far, which KCP hands to the
  peer in order and without gaps.\<close>

definition stream_Write :: "bytes \<Rightarrow> bytes \<Rightarrow> go_error option \<times> bytes" where
  "stream_Write d stream = (None, stream @ d)"

definition kcp_delivered :: "bytes \<Rightarrow> bytes list" where
  "kcp_delivered stream = fst (readLoop stream)"

definition kcp_aligned :: "bytes \<Rightarrow> bool" where
  "kcp_aligned stream \<longleftrightarrow> snd (readLoop stream) = Reading []"

lemma kcp_send_stream:
  "length msg \<le> kcpMaxMessage \<Longrightarrow> kcp_send stream_Write msg stream = (None, stream @ kcp_frame msg)"
  by (simp add: kcp_send_def stream_Write_def kcp_frame_def)

lemma readLoop_empty [simp]: "readLoop [] = ([], Reading [])"
  by (simp add: readLoop.simps kcpLenPrefix_def)

lemma readLoop_aligned:
  assumes "kcp_aligned s" and "kcp_ok m"
  shows "readLoop (s @ kcp_frame m) = (kcp_delivered s @ [m], Reading [])"
proof -
  have "readLoop s = (kcp_delivered s, Reading [])"
    using assms(1) by (cases "readLoop s") (simp add: kcp_aligned_def kcp_delivered_def)
  from readLoop_more [OF this, of "kcp_frame m"] readLoop_frame [OF assms(2), of "[]"]
  show ?thesis by simp
qed

interpretation kcp_channel: message_channel
  "\<lambda>m s. snd (kcp_send stream_Write m s)" kcp_delivered kcp_aligned kcp_ok
proof
  show "kcp_delivered (snd (kcp_send stream_Write m s)) = kcp_delivered s @ [m]"
    if "kcp_aligned s" "kcp_ok m" for s m
    using readLoop_aligned [OF that] that(2) kcp_send_stream [of m s]
    by (simp add: kcp_ok_def kcp_delivered_def)
  show "kcp_aligned (snd (kcp_send stream_Write m s))" if "kcp_aligned s" "kcp_ok m" for s m
    using readLoop_aligned [OF that] that(2) kcp_send_stream [of m s]
    by (simp add: kcp_ok_def kcp_aligned_def)
qed

section \<open>The inbound queue\<close>

lemma kcp_deliver_open:
  "\<not> kc_closed c \<Longrightarrow> kcp_deliver_outcomes payload c = [c\<lparr>kc_in := chan_offer (kc_cap c) payload (kc_in c)\<rparr>]"
  by (simp add: kcp_deliver_outcomes_def chan_offer_def split: option.splits)

lemma kcp_deliver_eq:
  "\<not> kc_closed c \<Longrightarrow> kcp_deliver payload c = c\<lparr>kc_in := chan_offer (kc_cap c) payload (kc_in c)\<rparr>"
  by (simp add: kcp_deliver_def kcp_deliver_open)

interpretation kcp_inbound: lossy_queue kcp_deliver kc_in kc_cap "\<lambda>c. \<not> kc_closed c"
  by unfold_locales (auto simp: kcp_deliver_eq chan_offer_if)

section \<open>Properties\<close>

text \<open>C26: the length-prefix framing over KCP's byte stream preserves messages: for every
  sequence of non-empty messages within the size limit, the peer's read loop hands over exactly
  those messages, in order, once the whole stream has arrived; and whatever part of the stream
  has arrived, it has handed over exactly the messages complete in it, and later bytes never
  change what was handed over.\<close>

theorem kcp_framing_transparent:
  assumes "\<forall>m\<in>set ms. kcp_ok m"
  shows "kcp_delivered (fold (\<lambda>m s. snd (kcp_send stream_Write m s)) ms []) = ms
     \<and> (\<forall>s t. fold (\<lambda>m s. snd (kcp_send stream_Write m s)) ms [] = s @ t \<longrightarrow>
          (\<exists>rest. ms = kcp_delivered s @ rest))"
proof -
  let ?all = "fold (\<lambda>m s. snd (kcp_send stream_Write m s)) ms []"
  have all: "kcp_delivered ?all = ms"
    using kcp_channel.send_all [of "[]" ms] assms by (simp add: kcp_aligned_def kcp_delivered_def)
  have al: "kcp_aligned (fold (\<lambda>m s. snd (kcp_send stream_Write m s)) ns [])"
    if "\<forall>m\<in>set ns. kcp_ok m" for ns
    using that by (induction ns rule: rev_induct) (simp_all add: kcp_aligned_def [of "[]"] kcp_channel.send_wf)
  have "\<exists>rest. ms = kcp_delivered s @ rest" if st: "?all = s @ t" for s t
  proof (cases "readLoop s")
    case (Pair ds st)
    show ?thesis
    proof (cases st)
      case (Reading r)
      with Pair readLoop_more [of s ds r t] all st show ?thesis
        by (cases "readLoop (r @ t)") (auto simp: kcp_delivered_def)
    next
      case Corrupt
      have "readLoop (s @ t) = (ds, Corrupt)" if "readLoop s = (ds, Corrupt)" for s ds
        using that by (rule readLoop_corrupt)
      with Pair Corrupt st al [OF assms] show ?thesis by (simp add: kcp_aligned_def)
    qed
  qed
  with all show ?thesis by blast
qed

text \<open>The inbound queue of the packet connection never exceeds its capacity, never reorders,
  and while it is open keeps exactly the packets that arrive before it is full.\<close>

lemma kcp_inbound_lossy:
  assumes "\<not> kc_closed c"
  shows "kc_in (fold kcp_deliver ps c) = kc_in c @ take (kc_cap c - length (kc_in c)) ps"
  using assms by (rule kcp_inbound.items_fold_put)

section \<open>Witnesses\<close>

theorem kcp_framing_transparent_witness:
  "kcp_delivered (kcp_frame [1, 2] @ kcp_frame [3]) = [[1, 2], [3]]
   \<and> (\<exists>rest. [[1, 2], [3]] = kcp_delivered (kcp_frame [1, 2] @ [0, 0]) @ rest)"
proof -
  have all: "fold (\<lambda>m s. snd (kcp_send stream_Write m s)) [[1, 2], [3]] [] = kcp_frame [1, 2] @ kcp_frame [3]"
    by (simp add: kcp_send_stream kcpMaxMessage_def)
  have k: "kcp_frame [3] = [0, 0] @ [0, 1, 3]" by (simp add: kcp_frame_def kcp_header_def be32_def)
  have "\<forall>m\<in>set [[1, 2], [3]]. kcp_ok m" by (simp add: kcp_ok_def kcpMaxMessage_def)
  from kcp_framing_transparent [OF this] have t:
    "kcp_delivered (kcp_frame [1, 2] @ kcp_frame [3]) = [[1, 2], [3]]"
    "\<forall>s t. kcp_frame [1, 2] @ kcp_frame [3] = s @ t \<longrightarrow> (\<exists>rest. [[1, 2], [3]] = kcp_delivered s @ rest)"
    unfolding all by blast+
  have "kcp_frame [1, 2] @ kcp_frame [3] = (kcp_frame [1, 2] @ [0, 0]) @ [0, 1, 3]" by (simp add: k)
  with t show ?thesis by blast
qed

end
