(* ===== verification/Vp8channel.thy ===== *)
theory Vp8channel
  imports Kcp Stack "HOL-Library.Signed_Division"
begin

text \<open>
  The vp8channel transport (\<open>vp8channel/transport.go\<close>): KCP packets behind a VP8 key frame, a
  binding token and the sender's epoch; the reset of the KCP session when the peer's epoch
  changes; reassembly of VP8 frames from RTP packets; the writer with its keepalives.

  The KCP session's constructor is the parameter \<open>newSess\<close>, the RTP and VP8 parsers of pion are
  applied before the model sees a packet. \<open>'w\<close> is the world the reconnect callback acts on. A
  panic is \<open>None\<close>.
\<close>

definition canSendHighWatermark :: nat where "canSendHighWatermark = 90"
definition keepaliveIdlePeriod :: int where "keepaliveIdlePeriod = 100 * millisecond"
definition vp8_defaultMaxPayloadSize :: int where "vp8_defaultMaxPayloadSize = 60 * 1024"
definition tokenOff :: nat where "tokenOff = 20"
definition epochOff :: nat where "epochOff = 24"

definition vp8_ErrTransportClosed :: go_error where
  "vp8_ErrTransportClosed = Base ''vp8channel transport closed''"

definition vp8_ErrVideoTrackUnsupported :: go_error where
  "vp8_ErrVideoTrackUnsupported = Base ''carrier does not support video tracks''"

definition vp8Keepalive :: bytes where
  "vp8Keepalive =
     [0x30, 0x01, 0x00, 0x9d, 0x01, 0x2a, 0x10, 0x00, 0x10, 0x00, 0x00, 0x47, 0x08, 0x85, 0x85, 0x88,
      0x99, 0x84, 0x88, 0xfc]"

section \<open>State\<close>

record 'k kcpRuntime =
  rt_conn :: kcpConn
  rt_sess :: 'k
  rt_closed :: bool

record ('s, 'k, 'w) vp8 =
  p_stream :: 's
  p_written :: "bytes list"
  p_hasOnData :: bool
  p_outbound :: "bytes list"
  p_closeCh :: bool
  p_closed :: bool
  p_writerUp :: bool
  p_writerDone :: bool
  p_kcpOnce :: bool
  p_frameInterval :: int
  p_batchSize :: int
  p_bindingToken :: u32
  p_localEpoch :: u32
  p_peerEpoch :: u32
  p_hadPeer :: bool
  p_kcp :: "'k kcpRuntime option"
  p_reconnectFn :: "('w \<Rightarrow> 'w) option"

definition startKCP :: "go_error + 'k \<Rightarrow> bytes \<Rightarrow> go_error + 'k kcpRuntime" where
  "startKCP newSess epochHdr =
     (let c = newKCPConn (int inboundQueueSize) epochHdr in
      case newSess of
        Inl err \<Rightarrow> Inl (Ctx ''kcp new conn'' err)
      | Inr sess \<Rightarrow> Inr \<lparr>rt_conn = c, rt_sess = sess, rt_closed = False\<rparr>)"

definition rt_close :: "'k kcpRuntime \<Rightarrow> 'k kcpRuntime" where
  "rt_close r = (if rt_closed r then r else r\<lparr>rt_closed := True, rt_conn := kcpConn_Close (rt_conn r)\<rparr>)"

definition rt_deliver :: "bytes \<Rightarrow> 'k kcpRuntime \<Rightarrow> 'k kcpRuntime" where
  "rt_deliver payload r = r\<lparr>rt_conn := kcp_deliver payload (rt_conn r)\<rparr>"

definition bindingToken :: "string \<Rightarrow> u32" where
  "bindingToken clientID = (let token = fnv32a (str clientID) in if token = 0 then 1 else token)"

text \<open>\<open>rand.Read\<close> gives four bytes or fails; \<open>nanos\<close> is the clock.\<close>

definition randomEpoch :: "bytes option \<Rightarrow> int \<Rightarrow> u32" where
  "randomEpoch rand nanos =
     (case rand of
        None \<Rightarrow> word_of_int nanos
      | Some b \<Rightarrow> let e = get_be32 0 b in if e = 0 then 1 else e)"

definition vp8_settings :: "bytes option \<Rightarrow> int \<Rightarrow> 'o transport_config \<Rightarrow> 's \<Rightarrow> ('s, 'k, 'w) vp8 option" where
  "vp8_settings rand nanos cfg st =
     (if tc_VP8FPS cfg = 0 then None
      else Some \<lparr>p_stream = st, p_written = [], p_hasOnData = (tc_OnData cfg \<noteq> None), p_outbound = [],
             p_closeCh = False, p_closed = False, p_writerUp = False, p_writerDone = False,
             p_kcpOnce = False, p_frameInterval = second sdiv tc_VP8FPS cfg,
             p_batchSize = tc_VP8BatchSize cfg, p_bindingToken = bindingToken (tc_ClientID cfg),
             p_localEpoch = randomEpoch rand nanos, p_peerEpoch = 0, p_hadPeer = False,
             p_kcp = None, p_reconnectFn = None\<rparr>)"

definition vp8_New ::
    "('o carrier_config, ('s, 'u, 't, 'h) carrier_session) registry_map \<Rightarrow> (go_error + 't) \<Rightarrow> 'h \<Rightarrow>
     bytes option \<Rightarrow> int \<Rightarrow> 'o transport_config \<Rightarrow> 's \<Rightarrow>
     (go_error + ('s, 'u, 't, 'h) video_track \<times> ('s, 'k, 'w) vp8) option" where
  "vp8_New carrier_reg newTrack handleRemoteTrack rand nanos cfg st =
     (case carrier_New carrier_reg (tc_Carrier cfg) ((carrier_config_of cfg)\<lparr>cc_OnData := None\<rparr>) of
        Inl err \<Rightarrow> Some (Inl (Ctx ''create carrier transport'' err))
      | Inr session \<Rightarrow>
     (case cs_OpenVideoTrack session of
        None \<Rightarrow> Some (Inl vp8_ErrVideoTrackUnsupported)
      | Some (Inl err) \<Rightarrow> Some (Inl (Ctx ''open video track'' err))
      | Some (Inr stream) \<Rightarrow>
     (case newTrack of
        Inl err \<Rightarrow> Some (Inl (Ctx ''create local video track'' err))
      | Inr track \<Rightarrow>
     (case vp8_settings rand nanos cfg st of
        None \<Rightarrow> None
      | Some p \<Rightarrow>
     (case vt_AddTrack stream track (p_stream p) of
        (Some err, st') \<Rightarrow> Some (Inl (Ctx ''attach local video track'' err))
      | (None, st') \<Rightarrow>
          Some (Inr (stream, p\<lparr>p_stream := vt_SetTrackHandler stream handleRemoteTrack st'\<rparr>)))))))"

section \<open>Operations\<close>

definition vp8_Connect ::
    "('s, 'u, 't, 'h) video_track \<Rightarrow> ('s, 'k, 'w) vp8 \<Rightarrow> go_error option \<times> ('s, 'k, 'w) vp8" where
  "vp8_Connect stream p =
     (case vt_Connect stream (p_stream p) of
        (Some err, st) \<Rightarrow> (Some (Ctx ''connect stream'' err), p\<lparr>p_stream := st\<rparr>)
      | (None, st) \<Rightarrow> (None, p\<lparr>p_stream := st, p_writerUp := True\<rparr>))"

definition epochHeader :: "('s, 'k, 'w) vp8 \<Rightarrow> bytes" where
  "epochHeader p = vp8Keepalive @ be32 (p_bindingToken p) @ be32 (p_localEpoch p)"

definition vp8_Send ::
    "(bytes \<Rightarrow> 'k \<Rightarrow> go_error option \<times> 'k) \<Rightarrow> bytes \<Rightarrow> ('s, 'k, 'w) vp8 \<Rightarrow> go_error option \<times> ('s, 'k, 'w) vp8" where
  "vp8_Send wr data p =
     (if p_closed p then (Some vp8_ErrTransportClosed, p)
      else (case p_kcp p of
              None \<Rightarrow> (Some vp8_ErrTransportClosed, p)
            | Some rt \<Rightarrow>
                (case kcp_send wr data (rt_sess rt) of
                   (e, k) \<Rightarrow> (e, p\<lparr>p_kcp := Some (rt\<lparr>rt_sess := k\<rparr>)\<rparr>))))"

definition vp8_close_begin :: "('s, 'k, 'w) vp8 \<Rightarrow> ('s, 'k, 'w) vp8" where
  "vp8_close_begin p =
     (if p_closed p then p
      else p\<lparr>p_closed := True, p_closeCh := True, p_kcp := map_option rt_close (p_kcp p)\<rparr>)"

definition vp8_close_wait ::
    "('s, 'u, 't, 'h) video_track \<Rightarrow> ('s, 'k, 'w) vp8 \<Rightarrow> (go_error option \<times> ('s, 'k, 'w) vp8) option" where
  "vp8_close_wait stream p =
     (if p_writerUp p \<and> \<not> p_writerDone p then None
      else case vt_Close stream (p_stream p) of
             (e, st) \<Rightarrow> Some (wrap_err ''close stream'' e, p\<lparr>p_stream := st\<rparr>))"

definition drainOutbound :: "('s, 'k, 'w) vp8 \<Rightarrow> ('s, 'k, 'w) vp8" where
  "drainOutbound p = p\<lparr>p_outbound := []\<rparr>"

definition resetKCP :: "go_error + 'k \<Rightarrow> ('s, 'k, 'w) vp8 \<Rightarrow> ('s, 'k, 'w) vp8" where
  "resetKCP newSess p =
     (let p1 = (drainOutbound p)\<lparr>p_kcp := None\<rparr> in
      case startKCP newSess (epochHeader p1) of
        Inl _ \<Rightarrow> p1
      | Inr rt \<Rightarrow> p1\<lparr>p_kcp := Some rt\<rparr>)"

text \<open>The callback given to the carrier resets the session and then runs the client's.\<close>

definition vp8_SetReconnectCallback ::
    "('s, ('s, 'k, 'w) vp8 \<times> 'w, 't, 'h) video_track \<Rightarrow> go_error + 'k \<Rightarrow> ('w \<Rightarrow> 'w) option \<Rightarrow>
     ('s, 'k, 'w) vp8 \<Rightarrow> ('s, 'k, 'w) vp8" where
  "vp8_SetReconnectCallback stream newSess cb p =
     p\<lparr>p_reconnectFn := cb,
       p_stream := vt_SetReconnectCallback stream
         (Some (\<lambda>(q, w). (resetKCP newSess q, case cb of None \<Rightarrow> w | Some f \<Rightarrow> f w))) (p_stream p)\<rparr>"

definition vp8_on_stream :: "('s \<Rightarrow> 's) \<Rightarrow> ('s, 'k, 'w) vp8 \<Rightarrow> ('s, 'k, 'w) vp8" where
  "vp8_on_stream f p = p\<lparr>p_stream := f (p_stream p)\<rparr>"

definition vp8_SetShouldReconnect where
  "vp8_SetShouldReconnect stream fn = vp8_on_stream (vt_SetShouldReconnect stream fn)"
definition vp8_SetEndedCallback where
  "vp8_SetEndedCallback stream cb = vp8_on_stream (vt_SetEndedCallback stream cb)"
definition vp8_WatchConnection where
  "vp8_WatchConnection stream = vp8_on_stream (vt_WatchConnection stream)"

definition vp8_CanSend :: "('s, 'u, 't, 'h) video_track \<Rightarrow> ('s, 'k, 'w) vp8 \<Rightarrow> bool" where
  "vp8_CanSend stream p \<longleftrightarrow>
     \<not> p_closed p \<and> p_kcp p \<noteq> None \<and> vt_CanSend stream (p_stream p)
     \<and> length (p_outbound p) < outboundQueueSize * canSendHighWatermark div 100"

definition vp8_Features :: "('s, 'k, 'w) vp8 \<Rightarrow> features" where
  "vp8_Features p =
     \<lparr>Reliable = True, Ordered = True, MessageOriented = True, MaxPayloadSize = vp8_defaultMaxPayloadSize\<rparr>"

section \<open>The writer\<close>

definition sampleInterval :: "('s, 'k, 'w) vp8 \<Rightarrow> int" where
  "sampleInterval p =
     (if 1 < p_batchSize p then p_frameInterval p sdiv p_batchSize p else p_frameInterval p)"

text \<open>The start of \<open>writerLoop\<close>: the ticker panics on an interval that is not positive.\<close>

definition keepaliveEvery :: "('s, 'k, 'w) vp8 \<Rightarrow> int option" where
  "keepaliveEvery p =
     (if sampleInterval p \<le> 0 then None else Some (max (keepaliveIdlePeriod sdiv sampleInterval p) 1))"

text \<open>One tick with the loop's counter.\<close>

definition vp8_tick :: "int \<Rightarrow> int \<times> ('s, 'k, 'w) vp8 \<Rightarrow> int \<times> ('s, 'k, 'w) vp8" where
  "vp8_tick every = (\<lambda>(idleTicks, p).
     case chan_recv (p_outbound p) of
       Some (frame, q) \<Rightarrow> (0, p\<lparr>p_outbound := q, p_written := p_written p @ [frame]\<rparr>)
     | None \<Rightarrow>
         if idleTicks + 1 < every then (idleTicks + 1, p)
         else (0, p\<lparr>p_written := p_written p @ [epochHeader p]\<rparr>))"

definition vp8_writer_round ::
    "int \<Rightarrow> int \<times> ('s, 'k, 'w) vp8 \<Rightarrow> (bool \<times> int \<times> ('s, 'k, 'w) vp8) list" where
  "vp8_writer_round every = (\<lambda>(idleTicks, p).
     (if p_closeCh p then [(False, idleTicks, p\<lparr>p_writerDone := True\<rparr>)] else [])
     @ [(True, vp8_tick every (idleTicks, p))])"

section \<open>RTP\<close>

text \<open>An RTP packet as parsed: its sequence number, its marker bit, and its VP8 payload with the
  start bit, or \<open>None\<close> when the VP8 descriptor does not parse.\<close>

record rtp_packet =
  pk_seq :: u16
  pk_marker :: bool
  pk_vp8 :: "(bool \<times> bytes) option"

record vp8FrameState =
  fs_frameBuf :: bytes
  fs_lastSeq :: u16
  fs_haveLastSeq :: bool
  fs_frameValid :: bool

definition vp8FrameState_zero :: vp8FrameState where
  "vp8FrameState_zero = \<lparr>fs_frameBuf = [], fs_lastSeq = 0, fs_haveLastSeq = False, fs_frameValid = False\<rparr>"

definition processRTPPacket :: "rtp_packet \<Rightarrow> vp8FrameState \<Rightarrow> bytes option \<times> vp8FrameState" where
  "processRTPPacket pkt s =
     (let s1 = (if fs_haveLastSeq s \<and> pk_seq pkt \<noteq> fs_lastSeq s + 1
                then s\<lparr>fs_frameValid := False, fs_frameBuf := []\<rparr> else s);
          s2 = s1\<lparr>fs_lastSeq := pk_seq pkt, fs_haveLastSeq := True\<rparr>
      in case pk_vp8 pkt of
           None \<Rightarrow> (None, s2\<lparr>fs_frameValid := False, fs_frameBuf := []\<rparr>)
         | Some (S, vp8Payload) \<Rightarrow>
             (let s3 = (if S then s2\<lparr>fs_frameBuf := [], fs_frameValid := True\<rparr> else s2) in
              if \<not> fs_frameValid s3 then (None, s3)
              else (let s4 = s3\<lparr>fs_frameBuf := fs_frameBuf s3 @ vp8Payload\<rparr> in
                if \<not> pk_marker pkt then (None, s4)
                else ((if epochHdrLen \<le> length (fs_frameBuf s4) then Some (fs_frameBuf s4) else None),
                      s4\<lparr>fs_frameBuf := [], fs_frameValid := False\<rparr>))))"

section \<open>Incoming frames\<close>

definition handleFirstPeer :: "go_error + 'k \<Rightarrow> u32 \<Rightarrow> ('s, 'k, 'w) vp8 \<Rightarrow> ('s, 'k, 'w) vp8" where
  "handleFirstPeer newSess peerEpoch p =
     (let p1 = p\<lparr>p_peerEpoch := peerEpoch\<rparr> in
      if p_kcpOnce p1 then p1
      else (case startKCP newSess (epochHeader p1) of
              Inl _ \<Rightarrow> p1\<lparr>p_kcpOnce := True\<rparr>
            | Inr rt \<Rightarrow> p1\<lparr>p_kcpOnce := True, p_kcp := Some rt\<rparr>))"

definition deliver_to_kcp :: "bytes \<Rightarrow> ('s, 'k, 'w) vp8 \<Rightarrow> ('s, 'k, 'w) vp8" where
  "deliver_to_kcp kcpPayload p =
     (if kcpPayload = [] then p else p\<lparr>p_kcp := map_option (rt_deliver kcpPayload) (p_kcp p)\<rparr>)"

text \<open>Frames come from \<open>processRTPPacket\<close>, so they are at least as long as the header.\<close>

definition handleIncomingFrame ::
    "go_error + 'k \<Rightarrow> bytes \<Rightarrow> ('s, 'k, 'w) vp8 \<times> 'w \<Rightarrow> ('s, 'k, 'w) vp8 \<times> 'w" where
  "handleIncomingFrame newSess frame = (\<lambda>(p, w).
     let frameToken = get_be32 tokenOff frame; peerEpoch = get_be32 epochOff frame;
         kcpPayload = drop epochHdrLen frame
     in if frameToken \<noteq> p_bindingToken p then (p, w)
        else if peerEpoch = p_localEpoch p then (p, w)
        else if \<not> p_hadPeer p
          then (deliver_to_kcp kcpPayload (handleFirstPeer newSess peerEpoch (p\<lparr>p_hadPeer := True\<rparr>)), w)
        else if p_peerEpoch p \<noteq> peerEpoch
          then (let p1 = resetKCP newSess (p\<lparr>p_peerEpoch := peerEpoch\<rparr>)
                in (p1, case p_reconnectFn p1 of None \<Rightarrow> w | Some fn \<Rightarrow> fn w))
        else (deliver_to_kcp kcpPayload p, w))"

text \<open>\<open>readVP8Track\<close> over a list of parsed packets.\<close>

fun readVP8Track ::
    "go_error + 'k \<Rightarrow> rtp_packet list \<Rightarrow> vp8FrameState \<Rightarrow> ('s, 'k, 'w) vp8 \<times> 'w \<Rightarrow> ('s, 'k, 'w) vp8 \<times> 'w" where
  "readVP8Track newSess [] s pw = pw"
| "readVP8Track newSess (pkt # pkts) s pw =
     (case processRTPPacket pkt s of
        (None, s') \<Rightarrow> readVP8Track newSess pkts s' pw
      | (Some frame, s') \<Rightarrow> readVP8Track newSess pkts s' (handleIncomingFrame newSess frame pw))"

end
