(* ===== verification/Vp8_Contract.thy ===== *)
theory Vp8_Contract
  imports Vp8channel
begin

text \<open>
  The properties of the vp8channel transport: every frame on the wire names its sender, resets
  happen only when the peer's epoch really changes, RTP reassembly never glues packets of
  different frames, the keepalive cadence, and the closing contract.
\<close>

section \<open>The header\<close>

lemma length_vp8Keepalive [simp]: "length vp8Keepalive = 20"
  by (simp add: vp8Keepalive_def)

lemma length_epochHeader [simp]: "length (epochHeader p) = 28"
  by (simp add: epochHeader_def)

lemma epochHeader_parses:
  "get_be32 tokenOff (epochHeader p @ packet) = p_bindingToken p"
  "get_be32 epochOff (epochHeader p @ packet) = p_localEpoch p"
  "drop epochHdrLen (epochHeader p @ packet) = packet"
proof -
  show "get_be32 tokenOff (epochHeader p @ packet) = p_bindingToken p"
    using get_be32_be32 [of vp8Keepalive 20 "p_bindingToken p" "be32 (p_localEpoch p) @ packet"]
    by (simp add: epochHeader_def tokenOff_def)
  show "get_be32 epochOff (epochHeader p @ packet) = p_localEpoch p"
    using get_be32_be32 [of "vp8Keepalive @ be32 (p_bindingToken p)" 24 "p_localEpoch p" packet]
    by (simp add: epochHeader_def epochOff_def)
  show "drop epochHdrLen (epochHeader p @ packet) = packet"
    by (simp add: epochHdrLen_def)
qed

lemma epochHeader_eq:
  "p_bindingToken p = p_bindingToken q \<Longrightarrow> p_localEpoch p = p_localEpoch q \<Longrightarrow> epochHeader p = epochHeader q"
  by (simp add: epochHeader_def)

section \<open>Steps\<close>

text \<open>\<open>Output\<close> is KCP writing a packet through its connection, at any time it likes.\<close>

inductive vp8_step :: "go_error + 'k \<Rightarrow> ('s, 'k, 'w) vp8 \<times> 'w \<Rightarrow> ('s, 'k, 'w) vp8 \<times> 'w \<Rightarrow> bool" for newSess where
  Output: "p_kcp p = Some rt \<Longrightarrow> (Inr n, out) \<in> set (WriteTo now pkt (rt_conn rt) (p_outbound p)) \<Longrightarrow>
    vp8_step newSess (p, w) (p\<lparr>p_outbound := out\<rparr>, w)"
| Send: "vp8_step newSess (p, w) (snd (vp8_Send wr data p), w)"
| Write: "(b, i', p') \<in> set (vp8_writer_round every (i, p)) \<Longrightarrow> vp8_step newSess (p, w) (p', w)"
| Frame: "vp8_step newSess pw (handleIncomingFrame newSess frame pw)"
| Reset: "vp8_step newSess (p, w) (resetKCP newSess p, w')"
| Close: "vp8_step newSess (p, w) (vp8_close_begin p, w)"

inductive vp8_reachable ::
    "go_error + 'k \<Rightarrow> 'o transport_config \<Rightarrow> ('s, 'k, 'w) vp8 \<times> 'w \<Rightarrow> bool" for newSess cfg where
  init: "vp8_settings rand nanos cfg st = Some p \<Longrightarrow> vp8_reachable newSess cfg (p, w)"
| step: "vp8_reachable newSess cfg pw \<Longrightarrow> vp8_step newSess pw pw' \<Longrightarrow> vp8_reachable newSess cfg pw'"

definition tagged :: "('s, 'k, 'w) vp8 \<Rightarrow> bool" where
  "tagged p \<longleftrightarrow>
     (\<forall>f\<in>set (p_outbound p) \<union> set (p_written p). \<exists>packet. f = epochHeader p @ packet)
     \<and> (\<forall>rt. p_kcp p = Some rt \<longrightarrow> kc_epochHdr (rt_conn rt) = epochHeader p)"

lemma kcp_deliver_hdr [simp]: "kc_epochHdr (kcp_deliver payload c) = kc_epochHdr c"
  by (cases "chan_send (kc_cap c) payload (kc_in c)")
    (simp_all add: kcp_deliver_def kcp_deliver_outcomes_def Let_def)

lemma startKCP_hdr: "startKCP newSess h = Inr rt \<Longrightarrow> kc_epochHdr (rt_conn rt) = h"
  by (auto simp: startKCP_def newKCPConn_def Let_def split: sum.splits)

lemma epochHeader_upd [simp]:
  "epochHeader (p\<lparr>p_kcp := k\<rparr>) = epochHeader p"
  "epochHeader (p\<lparr>p_outbound := out\<rparr>) = epochHeader p"
  "epochHeader (p\<lparr>p_written := ws\<rparr>) = epochHeader p"
  "epochHeader (p\<lparr>p_peerEpoch := e\<rparr>) = epochHeader p"
  "epochHeader (p\<lparr>p_hadPeer := b\<rparr>) = epochHeader p"
  "epochHeader (p\<lparr>p_kcpOnce := b\<rparr>) = epochHeader p"
  "epochHeader (p\<lparr>p_closed := b\<rparr>) = epochHeader p"
  "epochHeader (p\<lparr>p_closeCh := b\<rparr>) = epochHeader p"
  "epochHeader (p\<lparr>p_writerDone := b\<rparr>) = epochHeader p"
  "epochHeader (drainOutbound p) = epochHeader p"
  by (simp_all add: epochHeader_def drainOutbound_def)

lemma resetKCP_tagged:
  assumes "tagged p"
  shows "tagged (resetKCP newSess p)" and "epochHeader (resetKCP newSess p) = epochHeader p"
proof -
  show "epochHeader (resetKCP newSess p) = epochHeader p"
    by (simp add: resetKCP_def Let_def split: sum.splits)
  show "tagged (resetKCP newSess p)"
    using assms startKCP_hdr [of newSess "epochHeader p"]
    by (auto simp: resetKCP_def tagged_def Let_def drainOutbound_def epochHeader_def split: sum.splits)
qed

lemma handleFirstPeer_tagged: "tagged p \<Longrightarrow> tagged (handleFirstPeer newSess e p)"
  using startKCP_hdr [of newSess "epochHeader p"]
  by (auto simp: handleFirstPeer_def tagged_def Let_def split: sum.splits)

lemma deliver_tagged: "tagged p \<Longrightarrow> tagged (deliver_to_kcp payload p)"
  by (auto simp: deliver_to_kcp_def tagged_def rt_deliver_def)

lemma tagged_flags:
  "tagged (p\<lparr>p_hadPeer := b\<rparr>) = tagged p" "tagged (p\<lparr>p_peerEpoch := e\<rparr>) = tagged p"
  by (simp_all add: tagged_def)

lemma handleIncomingFrame_tagged: "tagged (fst pw) \<Longrightarrow> tagged (fst (handleIncomingFrame newSess frame pw))"
  by (cases pw)
    (simp add: handleIncomingFrame_def Let_def deliver_tagged handleFirstPeer_tagged resetKCP_tagged
      tagged_flags)

lemma tick_tagged: "tagged p \<Longrightarrow> tagged (snd (vp8_tick every (i, p)))"
  by (auto simp: vp8_tick_def tagged_def split: option.splits list.splits
      intro: exI [of _ "[]"] simp: chan_recv_def)

lemma vp8_step_tagged: "vp8_step newSess pw pw' \<Longrightarrow> tagged (fst pw) \<Longrightarrow> tagged (fst pw')"
proof (induction rule: vp8_step.induct)
  case (Output p rt n out now pkt w)
  then have "out = p_outbound p @ [epochHeader p @ pkt]"
    by (auto simp: kcp_packets_tagged tagged_def)
  with Output show ?case by (auto simp: tagged_def)
next
  case (Send p w wr data)
  then show ?case by (auto simp: vp8_Send_def tagged_def split: option.splits prod.splits)
next
  case (Write b i' p' every i p w)
  from Write(1) have "p' = p\<lparr>p_writerDone := True\<rparr> \<or> p' = snd (vp8_tick every (i, p))"
    by (auto simp: vp8_writer_round_def split: if_splits) (metis snd_conv)+
  then show ?case
  proof
    assume "p' = p\<lparr>p_writerDone := True\<rparr>"
    then show ?thesis using Write(2) by (simp add: tagged_def)
  next
    assume "p' = snd (vp8_tick every (i, p))"
    then show ?thesis using Write(2) by (simp add: tick_tagged)
  qed
next
  case (Frame pw frame)
  then show ?case by (rule handleIncomingFrame_tagged)
next
  case (Reset p w w')
  then show ?case by (simp add: resetKCP_tagged)
next
  case (Close p w)
  then show ?case
    by (auto simp: vp8_close_begin_def tagged_def rt_close_def kcpConn_Close_def)
qed

lemma vp8_reachable_tagged: "vp8_reachable newSess cfg pw \<Longrightarrow> tagged (fst pw)"
proof (induction rule: vp8_reachable.induct)
  case (init rand nanos st p w)
  then show ?case by (auto simp: vp8_settings_def tagged_def split: if_splits)
qed (rule vp8_step_tagged)

section \<open>Reset discipline\<close>

text \<open>Frames that are foreign, an echo of our own, or from a peer with epoch \<open>e\<close>.\<close>

definition expected :: "u32 \<Rightarrow> ('s, 'k, 'w) vp8 \<Rightarrow> bytes \<Rightarrow> bool" where
  "expected e p frame \<longleftrightarrow>
     get_be32 tokenOff frame \<noteq> p_bindingToken p \<or> get_be32 epochOff frame = p_localEpoch p
     \<or> get_be32 epochOff frame = e"

lemma handle_keeps:
  "p_bindingToken (fst (handleIncomingFrame newSess frame (p, w))) = p_bindingToken p"
  "p_localEpoch (fst (handleIncomingFrame newSess frame (p, w))) = p_localEpoch p"
  "p_reconnectFn (fst (handleIncomingFrame newSess frame (p, w))) = p_reconnectFn p"
  by (auto simp: handleIncomingFrame_def Let_def deliver_to_kcp_def handleFirstPeer_def resetKCP_def
      drainOutbound_def split: sum.splits)

lemma handle_settled:
  assumes "p_hadPeer p" and "p_peerEpoch p = e" and "expected e p frame"
  shows "snd (handleIncomingFrame newSess frame (p, w)) = w"
    and "p_hadPeer (fst (handleIncomingFrame newSess frame (p, w)))"
    and "p_peerEpoch (fst (handleIncomingFrame newSess frame (p, w))) = e"
    and "p_kcp (fst (handleIncomingFrame newSess frame (p, w))) = None \<longleftrightarrow> p_kcp p = None"
  using assms by (auto simp: handleIncomingFrame_def Let_def expected_def deliver_to_kcp_def)

lemma handle_unsettled:
  assumes "expected e p frame"
  shows "handleIncomingFrame newSess frame (p, w) = (p, w)
    \<or> p_hadPeer (fst (handleIncomingFrame newSess frame (p, w)))
      \<and> p_peerEpoch (fst (handleIncomingFrame newSess frame (p, w))) = e
      \<and> snd (handleIncomingFrame newSess frame (p, w))
          \<in> {w, case p_reconnectFn p of None \<Rightarrow> w | Some fn \<Rightarrow> fn w}"
  using assms
  by (auto simp: handleIncomingFrame_def Let_def expected_def deliver_to_kcp_def handleFirstPeer_def
      resetKCP_def drainOutbound_def split: sum.splits)

lemma expected_handle: "expected e (fst (handleIncomingFrame newSess frame (p, w))) f = expected e p f"
  by (simp add: expected_def handle_keeps)

lemma settled_fold:
  "p_hadPeer (fst pw) \<Longrightarrow> p_peerEpoch (fst pw) = e \<Longrightarrow> \<forall>f\<in>set frames. expected e (fst pw) f \<Longrightarrow>
     snd (fold (handleIncomingFrame newSess) frames pw) = snd pw
     \<and> p_peerEpoch (fst (fold (handleIncomingFrame newSess) frames pw)) = e"
proof (induction frames arbitrary: pw)
  case Nil
  then show ?case by simp
next
  case (Cons f frames)
  obtain p w where pw: "pw = (p, w)" by (cases pw)
  have "expected e p f" using Cons.prems pw by simp
  note S = handle_settled [of p e f newSess w, OF _ _ this]
  have "\<forall>g\<in>set frames. expected e (fst (handleIncomingFrame newSess f pw)) g"
    using Cons.prems(3) by (simp add: pw expected_handle)
  with Cons.IH [of "handleIncomingFrame newSess f pw"] S Cons.prems pw show ?case by simp
qed

lemma resets_fold:
  "\<forall>f\<in>set frames. expected e (fst pw) f \<Longrightarrow>
     snd (fold (handleIncomingFrame newSess) frames pw)
       \<in> {snd pw, case p_reconnectFn (fst pw) of None \<Rightarrow> snd pw | Some fn \<Rightarrow> fn (snd pw)}"
proof (induction frames arbitrary: pw)
  case Nil
  then show ?case by simp
next
  case (Cons f frames)
  obtain p w where pw: "pw = (p, w)" by (cases pw)
  let ?h = "handleIncomingFrame newSess f pw"
  have ex: "\<forall>g\<in>set frames. expected e (fst ?h) g"
    using Cons.prems by (simp add: pw expected_handle)
  have "expected e p f" using Cons.prems pw by simp
  from handle_unsettled [OF this, of newSess w] show ?case
  proof
    assume "handleIncomingFrame newSess f (p, w) = (p, w)"
    with Cons.IH [OF ex] show ?thesis by (simp add: pw cong: option.case_cong)
  next
    assume h: "p_hadPeer (fst (handleIncomingFrame newSess f (p, w)))
      \<and> p_peerEpoch (fst (handleIncomingFrame newSess f (p, w))) = e
      \<and> snd (handleIncomingFrame newSess f (p, w)) \<in> {w, case p_reconnectFn p of None \<Rightarrow> w | Some fn \<Rightarrow> fn w}"
    then show ?thesis using settled_fold [of ?h e frames newSess] ex
      by (simp add: pw cong: option.case_cong)
  qed
qed

section \<open>RTP reassembly\<close>

text \<open>Packets that together are one frame so far: consecutive sequence numbers, the start bit on
  the first and on no other, no marker before the last.\<close>

definition pk_start :: "rtp_packet \<Rightarrow> bool" where
  "pk_start pkt = (case pk_vp8 pkt of Some (S, _) \<Rightarrow> S | None \<Rightarrow> False)"

definition pk_payload :: "rtp_packet \<Rightarrow> bytes" where
  "pk_payload pkt = (case pk_vp8 pkt of Some (_, b) \<Rightarrow> b | None \<Rightarrow> [])"

fun consecutive :: "rtp_packet list \<Rightarrow> bool" where
  "consecutive (p # q # ps) \<longleftrightarrow> pk_seq q = pk_seq p + 1 \<and> consecutive (q # ps)"
| "consecutive _ \<longleftrightarrow> True"

definition one_frame :: "rtp_packet list \<Rightarrow> bool" where
  "one_frame run \<longleftrightarrow> run \<noteq> [] \<and> consecutive run \<and> pk_start (hd run)
     \<and> (\<forall>p\<in>set (tl run). \<not> pk_start p) \<and> (\<forall>p\<in>set run. pk_vp8 p \<noteq> None)
     \<and> (\<forall>p\<in>set (butlast run). \<not> pk_marker p)"

lemma consecutive_snoc:
  "run \<noteq> [] \<Longrightarrow> consecutive (run @ [p]) \<longleftrightarrow> consecutive run \<and> pk_seq p = pk_seq (last run) + 1"
  by (induction run rule: consecutive.induct) auto

definition ends_in_frame :: "rtp_packet list \<Rightarrow> bool \<Rightarrow> bytes \<Rightarrow> bool" where
  "ends_in_frame hist marker buf \<longleftrightarrow>
     (\<exists>pre run. hist = pre @ run \<and> one_frame run \<and> pk_marker (last run) = marker
        \<and> buf = concat (map pk_payload run))"

definition rtp_inv :: "rtp_packet list \<Rightarrow> vp8FrameState \<Rightarrow> bool" where
  "rtp_inv hist s \<longleftrightarrow>
     (hist \<noteq> [] \<longrightarrow> fs_haveLastSeq s \<and> fs_lastSeq s = pk_seq (last hist))
     \<and> (fs_frameValid s \<longrightarrow> ends_in_frame hist False (fs_frameBuf s))"

lemma rtp_step:
  assumes inv: "rtp_inv hist s" and st: "processRTPPacket pkt s = (r, s')"
  shows "rtp_inv (hist @ [pkt]) s'"
    and "r = Some frame \<Longrightarrow> ends_in_frame (hist @ [pkt]) True frame \<and> epochHdrLen \<le> length frame"
proof -
  have both: "rtp_inv (hist @ [pkt]) s' \<and> (\<forall>frame. r = Some frame \<longrightarrow>
     (ends_in_frame (hist @ [pkt]) True frame \<and> epochHdrLen \<le> length frame))"
  proof (cases "pk_vp8 pkt")
    case None
    with st show ?thesis by (auto simp: processRTPPacket_def rtp_inv_def Let_def)
  next
    case (Some sv)
    obtain S b where sv: "sv = (S, b)" by (cases sv)
    have pl: "pk_payload pkt = b" "pk_start pkt = S" using Some sv by (simp_all add: pk_payload_def pk_start_def)
    show ?thesis
    proof (cases S)
      case True
      have "one_frame [pkt]" using True pl Some by (simp add: one_frame_def)
      then have run: "ends_in_frame (hist @ [pkt]) (pk_marker pkt) b"
        using pl unfolding ends_in_frame_def by (intro exI [of _ hist] exI [of _ "[pkt]"]) simp
      show ?thesis
      proof (cases "pk_marker pkt")
        case mk: True
        with st Some sv True run show ?thesis
          by (auto simp: processRTPPacket_def rtp_inv_def Let_def split: if_splits)
      next
        case mk: False
        with st Some sv True run show ?thesis
          by (auto simp: processRTPPacket_def rtp_inv_def Let_def split: if_splits)
      qed
    next
      case ns: False
      show ?thesis
      proof (cases "fs_frameValid s \<and> (fs_haveLastSeq s \<longrightarrow> pk_seq pkt = fs_lastSeq s + 1)")
        case False
        with st Some sv ns show ?thesis
          by (auto simp: processRTPPacket_def rtp_inv_def Let_def split: if_splits)
      next
        case True
        with inv obtain pre run where run: "hist = pre @ run" "one_frame run" "\<not> pk_marker (last run)"
          "fs_frameBuf s = concat (map pk_payload run)" by (auto simp: rtp_inv_def ends_in_frame_def)
        then have ne: "run \<noteq> []" by (simp add: one_frame_def)
        with run inv have "fs_haveLastSeq s" "fs_lastSeq s = pk_seq (last run)"
          by (auto simp: rtp_inv_def)
        with True have sq: "pk_seq pkt = pk_seq (last run) + 1" by simp
        have "\<forall>p\<in>set run. \<not> pk_marker p"
          using run(2,3) ne by (metis one_frame_def append_butlast_last_id insert_iff list.simps(15)
              rotate1.simps(2) set_rotate1)
        then have "one_frame (run @ [pkt])"
          using run(2) ne sq ns pl Some by (auto simp: one_frame_def consecutive_snoc)
        then have ext: "ends_in_frame (hist @ [pkt]) (pk_marker pkt) (fs_frameBuf s @ b)"
          using run pl unfolding ends_in_frame_def
          by (intro exI [of _ pre] exI [of _ "run @ [pkt]"]) simp
        show ?thesis
        proof (cases "pk_marker pkt")
          case mk: True
          with st Some sv ns True ext show ?thesis
            by (auto simp: processRTPPacket_def rtp_inv_def Let_def split: if_splits)
        next
          case mk: False
          with st Some sv ns True ext show ?thesis
            by (auto simp: processRTPPacket_def rtp_inv_def Let_def split: if_splits)
        qed
      qed
    qed
  qed
  then show "rtp_inv (hist @ [pkt]) s'" by blast
  from both show "r = Some frame \<Longrightarrow> ends_in_frame (hist @ [pkt]) True frame \<and> epochHdrLen \<le> length frame" by blast
qed

definition rtp_run :: "rtp_packet list \<Rightarrow> vp8FrameState" where
  "rtp_run pkts = fold (\<lambda>pkt s. snd (processRTPPacket pkt s)) pkts vp8FrameState_zero"

lemma rtp_run_inv: "rtp_inv pkts (rtp_run pkts)"
proof (induction pkts rule: rev_induct)
  case Nil
  show ?case by (simp add: rtp_inv_def rtp_run_def vp8FrameState_zero_def)
next
  case (snoc pkt pkts)
  obtain r s' where p: "processRTPPacket pkt (rtp_run pkts) = (r, s')" by (cases "processRTPPacket pkt (rtp_run pkts)")
  have "rtp_run (pkts @ [pkt]) = s'" using p by (simp add: rtp_run_def)
  with rtp_step(1) [OF snoc p] show ?case by simp
qed

interpretation vp8_closing: closable p_closed vp8_close_begin "vp8_CanSend stream"
  "\<lambda>data p. fst (vp8_Send wr data p) = Some vp8_ErrTransportClosed" for stream wr
  by unfold_locales (auto simp: vp8_close_begin_def vp8_CanSend_def vp8_Send_def)

section \<open>The keepalive cadence\<close>

text \<open>Ticks with whatever KCP queues before each of them.\<close>

definition fed_tick :: "int \<Rightarrow> bytes list \<Rightarrow> int \<times> ('s, 'k, 'w) vp8 \<Rightarrow> int \<times> ('s, 'k, 'w) vp8" where
  "fed_tick every queued ip = vp8_tick every (fst ip, (snd ip)\<lparr>p_outbound := p_outbound (snd ip) @ queued\<rparr>)"

lemma fed_tick_progress:
  assumes "fst ip < every"
  shows "length (p_written (snd (fed_tick every q ip))) = Suc (length (p_written (snd ip)))
           \<and> fst (fed_tick every q ip) = 0
         \<or> length (p_written (snd (fed_tick every q ip))) = length (p_written (snd ip))
           \<and> fst (fed_tick every q ip) = fst ip + 1 \<and> fst ip + 1 < every"
  using assms by (auto simp: fed_tick_def vp8_tick_def split: option.splits)

lemma fed_ticks_progress:
  "0 < every \<Longrightarrow> fst ip < every \<Longrightarrow>
     (let ip' = fold (fed_tick every) qs ip in
        fst ip' < every \<and> length (p_written (snd ip)) \<le> length (p_written (snd ip'))
        \<and> (length (p_written (snd ip')) = length (p_written (snd ip)) \<longrightarrow> fst ip' = fst ip + int (length qs)))"
proof (induction qs arbitrary: ip)
  case Nil
  then show ?case by (simp add: Let_def)
next
  case (Cons q qs)
  from Cons.IH [of "fed_tick every q ip"] Cons.prems fed_tick_progress [of ip every q]
  show ?case by (auto simp: Let_def)
qed

section \<open>Properties\<close>

text \<open>C28: everything a vp8channel peer writes to its video track starts with the 28 byte header
  that carries its own binding token and its own epoch, however sends, KCP output, session
  resets, keepalives and the close interleave; so no packet of an abandoned KCP session leaves under
  another identity.\<close>

theorem vp8_wire_tagged:
  assumes "vp8_reachable newSess cfg (p, w)" and "f \<in> set (p_written p)"
  shows "epochHdrLen \<le> length f \<and> get_be32 tokenOff f = p_bindingToken p
    \<and> get_be32 epochOff f = p_localEpoch p"
proof -
  from vp8_reachable_tagged [OF assms(1)] assms(2) obtain packet where "f = epochHeader p @ packet"
    by (auto simp: tagged_def)
  then show ?thesis by (simp add: epochHeader_parses epochHdrLen_def)
qed

definition vp8_demo :: "(unit, unit, nat) vp8" where
  "vp8_demo =
     \<lparr>p_stream = (), p_written = [], p_hasOnData = True, p_outbound = [], p_closeCh = False,
      p_closed = False, p_writerUp = True, p_writerDone = False, p_kcpOnce = False,
      p_frameInterval = second sdiv 30, p_batchSize = 8, p_bindingToken = 7, p_localEpoch = 11,
      p_peerEpoch = 0, p_hadPeer = False, p_kcp = None, p_reconnectFn = Some (\<lambda>n. n + 1)\<rparr>"

definition vp8_demo_frame :: "u32 \<Rightarrow> bytes" where
  "vp8_demo_frame epoch = vp8Keepalive @ be32 7 @ be32 epoch"

lemma vp8_demo_frame_parses:
  "get_be32 tokenOff (vp8_demo_frame e) = 7" "get_be32 epochOff (vp8_demo_frame e) = e"
  using epochHeader_parses [of "vp8_demo\<lparr>p_localEpoch := e\<rparr>" "[]"]
  by (simp_all add: epochHeader_def vp8_demo_def vp8_demo_frame_def)

theorem vp8_wire_tagged_witness:
  "\<exists>cfg :: unit transport_config. \<exists>p :: (unit, unit, nat) vp8.
     vp8_reachable (Inr ()) cfg (p, 0) \<and> p_written p \<noteq> [] \<and> get_be32 epochOff (hd (p_written p)) = 11"
proof -
  obtain cfg :: "unit transport_config" where cfg: "tc_VP8FPS cfg = 30" "tc_VP8BatchSize cfg = 8"
    "tc_ClientID cfg = ''c''" by (metis transport_config.select_convs)
  let ?p0 = "the (vp8_settings (Some [0, 0, 0, 11]) 0 cfg ()) :: (unit, unit, nat) vp8"
  have "vp8_settings (Some [0, 0, 0, 11]) 0 cfg () = Some ?p0" using cfg by (simp add: vp8_settings_def)
  note r = vp8_reachable.init [OF this, of "Inr ()" "0 :: nat"]
  have "(True, 0, snd (vp8_tick 1 (0, ?p0))) \<in> set (vp8_writer_round 1 (0, ?p0))"
    using cfg by (simp add: vp8_writer_round_def vp8_tick_def vp8_settings_def chan_recv_def)
  from vp8_reachable.step [OF r vp8_step.Write [OF this]]
  have R: "vp8_reachable (Inr ()) cfg (snd (vp8_tick 1 (0, ?p0)), 0)" .
  have e: "randomEpoch (Some [0, 0, 0, 11]) 0 = 11" by (simp add: randomEpoch_def get_be32_def)
  have w: "p_written (snd (vp8_tick 1 (0, ?p0))) = [epochHeader ?p0]"
    "p_localEpoch (snd (vp8_tick 1 (0, ?p0))) = 11"
    using cfg e by (simp_all add: vp8_tick_def vp8_settings_def chan_recv_def)
  from vp8_wire_tagged [OF R, of "epochHeader ?p0"] w R show ?thesis
    by (intro exI [of _ cfg] exI [of _ "snd (vp8_tick 1 (0, ?p0))"]) simp
qed

text \<open>C10: a peer that keeps its epoch cannot put the transport into a reset loop: over any
  sequence of frames that are foreign, echoes of our own, or from that one peer, the reconnect
  callback runs at most once, and not at all once that peer's epoch is known.\<close>

theorem vp8_no_reset_loop:
  assumes "\<forall>f\<in>set frames. expected e p f"
  shows "snd (fold (handleIncomingFrame newSess) frames (p, w))
      \<in> (if p_hadPeer p \<and> p_peerEpoch p = e then {w}
         else {w, case p_reconnectFn p of None \<Rightarrow> w | Some fn \<Rightarrow> fn w})"
  using resets_fold [of frames e "(p, w)" newSess] settled_fold [of "(p, w)" e frames newSess] assms
  by (simp cong: option.case_cong)

theorem vp8_no_reset_loop_witness:
  "snd (fold (handleIncomingFrame (Inl net_ErrClosed)) [vp8_demo_frame 5, vp8_demo_frame 11, vp8_demo_frame 5]
      (vp8_demo\<lparr>p_hadPeer := True, p_peerEpoch := 5\<rparr>, 0)) = 0"
  using vp8_no_reset_loop [of "[vp8_demo_frame 5, vp8_demo_frame 11, vp8_demo_frame 5]" 5
      "vp8_demo\<lparr>p_hadPeer := True, p_peerEpoch := 5\<rparr>" "Inl net_ErrClosed" 0]
  by (simp add: expected_def vp8_demo_frame_parses) (simp add: vp8_demo_def)

text \<open>C32: RTP reassembly never glues packets of different VP8 frames: whatever packets arrive, each
  frame it yields is the concatenation of the payloads of a run of packets with consecutive
  sequence numbers, the start bit on the first only and the marker on the last only, and is
  long enough for the header that is then read from it.\<close>

theorem rtp_frames_whole:
  assumes "processRTPPacket pkt (rtp_run pkts) = (Some frame, s')"
  shows "ends_in_frame (pkts @ [pkt]) True frame \<and> epochHdrLen \<le> length frame"
  using rtp_step(2) [OF rtp_run_inv assms refl] .

definition rtp_demo :: "nat \<Rightarrow> rtp_packet" where
  "rtp_demo n = \<lparr>pk_seq = of_nat n, pk_marker = (n = 1), pk_vp8 = Some (n = 0, replicate 20 (of_nat n))\<rparr>"

theorem rtp_frames_whole_witness:
  "ends_in_frame [rtp_demo 5, rtp_demo 0, rtp_demo 1] True (replicate 20 0 @ replicate 20 1)"
proof -
  have "processRTPPacket (rtp_demo 1) (rtp_run [rtp_demo 5, rtp_demo 0])
      = (Some (replicate 20 0 @ replicate 20 1),
         \<lparr>fs_frameBuf = [], fs_lastSeq = 1, fs_haveLastSeq = True, fs_frameValid = False\<rparr>)"
    by (simp add: rtp_run_def rtp_demo_def processRTPPacket_def vp8FrameState_zero_def epochHdrLen_def)
  from rtp_frames_whole [OF this] show ?thesis by simp
qed

text \<open>C34: the writer keeps the track alive: among any \<open>every\<close> consecutive ticks, whatever is
  queued in between, at least one frame is written.\<close>

theorem vp8_keepalive_cadence:
  assumes "keepaliveEvery p = Some every" and "0 \<le> i" and "i < every" and "int (length queued) = every"
  shows "length (p_written p) < length (p_written (snd (fold (fed_tick every) queued (i, p))))"
proof -
  have "0 < every" using assms(1) by (auto simp: keepaliveEvery_def split: if_splits)
  from fed_ticks_progress [OF this, of "(i, p)" queued] assms(2-4) show ?thesis
    by (auto simp: Let_def order_le_less)
qed

theorem vp8_keepalive_cadence_witness:
  "0 < length (p_written (snd (fold (fed_tick 24) (replicate 24 []) (3, vp8_demo))))"
  using vp8_keepalive_cadence [of vp8_demo 24 3 "replicate 24 []"]
  by (simp add: keepaliveEvery_def sampleInterval_def vp8_demo_def second_def millisecond_def
      keepaliveIdlePeriod_def)

end
