(* ===== verification/Track.thy ===== *)
theory Track
  imports Seichannel Video_Contract Vp8_Contract
begin

text \<open>
  The goroutines that read remote tracks: \<open>handleRemoteTrack\<close> of seichannel, \<open>readDecoderInput\<close> of
  videochannel, \<open>handleRemoteTrack\<close> and \<open>drainTrack\<close> of vp8channel. pion's \<open>samplebuilder\<close> is not in
  the repository: a builder is its three operations, over packets \<open>'k\<close> and its state \<open>'b\<close>. What a track
  yields is a list of packets, then the error that ends it.
\<close>

record ('k, 'b) sample_builder =
  sb_Push :: "'k \<Rightarrow> 'b \<Rightarrow> 'b"
  sb_Pop :: "'b \<Rightarrow> bytes option \<times> 'b"
  sb_Flush :: "'b \<Rightarrow> 'b"

text \<open>\<open>for sample := sb.Pop(); sample != nil; sample = sb.Pop()\<close>: the samples it goes through, \<open>None\<close> if
  the builder never runs out of them.\<close>

partial_function (option) pop_all :: "('k, 'b) sample_builder \<Rightarrow> 'b \<Rightarrow> (bytes list \<times> 'b) option" where
  "pop_all sb b =
     (case sb_Pop sb b of
        (None, b') \<Rightarrow> Some ([], b')
      | (Some sample, b') \<Rightarrow>
          Option.bind (pop_all sb b') (\<lambda>(samples, b''). Some (sample # samples, b'')))"

text \<open>A builder with finitely many samples in it runs out of them.\<close>

lemma pop_all_returns:
  assumes "\<And>b sample b'. sb_Pop sb b = (Some sample, b') \<Longrightarrow> pending b' < (pending b :: nat)"
  shows "pop_all sb b \<noteq> None"
proof (induction "pending b" arbitrary: b rule: less_induct)
  case less
  show ?case
  proof (cases "sb_Pop sb b")
    case (Pair r b')
    show ?thesis
    proof (cases r)
      case None
      then show ?thesis by (simp add: pop_all.simps [of sb b] Pair)
    next
      case (Some sample)
      from less [OF assms [OF Pair [unfolded Some]]] show ?thesis
        by (auto simp: pop_all.simps [of sb b] Pair Some split: option.split)
    qed
  qed
qed

section \<open>seichannel\<close>

text \<open>The samples a track comes to: those each packet completes, and after the end those that a flush
  sets free. The builder belongs to the goroutine alone, so popping and handling commute.\<close>

fun track_samples :: "('k, 'b) sample_builder \<Rightarrow> 'k list \<Rightarrow> 'b \<Rightarrow> bytes list option" where
  "track_samples sb [] b = map_option fst (pop_all sb (sb_Flush sb b))"
| "track_samples sb (packet # packets) b =
     (case pop_all sb (sb_Push sb packet b) of
        None \<Rightarrow> None
      | Some (samples, b') \<Rightarrow> map_option ((@) samples) (track_samples sb packets b'))"

fun sei_handle_samples :: "(bytes \<Rightarrow> nal option list option) \<Rightarrow> bytes list \<Rightarrow> 's sei \<Rightarrow> 's sei list" where
  "sei_handle_samples reader [] p = [p]"
| "sei_handle_samples reader (sample # samples) p =
     concat (map (sei_handle_samples reader samples) (sei_handleSample reader sample p))"

definition sei_handleRemoteTrack ::
    "(bytes \<Rightarrow> nal option list option) \<Rightarrow> ('k, 'b) sample_builder \<Rightarrow> 'b \<Rightarrow> 'k list \<Rightarrow> 's sei \<Rightarrow> 's sei list option" where
  "sei_handleRemoteTrack reader sb newBuilder packets p =
     map_option (\<lambda>samples. sei_handle_samples reader samples p) (track_samples sb packets newBuilder)"

section \<open>videochannel\<close>

text \<open>One round of \<open>readDecoderInput\<close> on decoder \<open>n\<close>: \<open>read\<close> is the packet \<open>ReadRTP\<close> gives, \<open>None\<close> for an
  error. The first component says whether the goroutine goes on. Samples a flush sets free are not
  popped.\<close>

definition readDecoderInput ::
    "mime_types \<Rightarrow> ('k, 'b) sample_builder \<Rightarrow> nat \<Rightarrow> 'k option \<Rightarrow> 'b \<Rightarrow> 's video \<Rightarrow> (bool \<times> 'b \<times> 's video) option" where
  "readDecoderInput mt sb n read b p =
     (if a_closeCh p then Some (False, b, p)
      else case read of
             None \<Rightarrow> Some (False, sb_Flush sb b, p)
           | Some packet \<Rightarrow>
               (case pop_all sb (sb_Push sb packet b) of
                  None \<Rightarrow> None
                | Some (samples, b') \<Rightarrow>
                    (case readDecoder_samples mt n samples p of
                       None \<Rightarrow> None
                     | Some (go_on, p') \<Rightarrow> Some (go_on, b', p'))))"

section \<open>vp8channel\<close>

text \<open>Reads of a track are byte strings, which \<open>rtp.Packet.Unmarshal\<close> may refuse.\<close>

definition vp8_handleRemoteTrack ::
    "mime_types \<Rightarrow> (bytes \<Rightarrow> rtp_packet option) \<Rightarrow> go_error + 'k \<Rightarrow> string \<Rightarrow> bytes list \<Rightarrow>
     ('s, 'k, 'w) vp8 \<times> 'w \<Rightarrow> ('s, 'k, 'w) vp8 \<times> 'w" where
  "vp8_handleRemoteTrack mt unmarshal newSess mime reads pw =
     (if mime \<noteq> MimeTypeVP8 mt then pw
      else readVP8Track newSess (List.map_filter unmarshal reads) vp8FrameState_zero pw)"

section \<open>A track that carries frames\<close>

text \<open>Handling frames one by one, as if they had not been packed into samples.\<close>

fun sei_handle_frames :: "bytes list \<Rightarrow> 's sei \<Rightarrow> 's sei list" where
  "sei_handle_frames [] p = [p]"
| "sei_handle_frames (frame # frames) p =
     concat (map (sei_handle_frames frames)
       (case dispatchFrame sei_magic frame p of
          (p', None) \<Rightarrow> [p']
        | (p', Some (sq, crc)) \<Rightarrow> sendAck sei_magic sq crc p'))"

lemma sei_handle_access_units:
  fixes p :: "'s sei"
  assumes "\<forall>frame \<in> set frames. reader_splits reader frame \<and> frame \<noteq> []"
  shows "sei_handle_samples reader (map buildVideoAccessUnit frames) p = sei_handle_frames frames p"
  using assms
proof (induction frames arbitrary: p)
  case (Cons frame frames)
  have "sei_handle_samples reader (map buildVideoAccessUnit frames) = (sei_handle_frames frames :: 's sei \<Rightarrow> 's sei list)"
    using Cons by (intro ext) simp
  with Cons.prems show ?case by (simp add: sei_handle_access_unit split: prod.split option.split)
qed simp

lemma readDecoderInput_reachable:
  assumes "video_reachable stream vis mt cfg p" and "readDecoderInput mt sb n read b p = Some (go_on, b', p')"
  shows "video_reachable stream vis mt cfg p'"
proof -
  from assms(2) consider "p' = p" | samples where "readDecoder_samples mt n samples p = Some (go_on, p')"
    by (auto simp: readDecoderInput_def split: if_splits option.splits)
  then show ?thesis
  proof cases
    case 2
    then show ?thesis by (rule video_reachable.step [OF assms(1) video_step.Push])
  qed (use assms(1) in simp)
qed

lemma other_tracks_drained:
  "mime \<noteq> MimeTypeVP8 mt \<Longrightarrow> vp8_handleRemoteTrack mt unmarshal newSess mime reads pw = pw"
  by (simp add: vp8_handleRemoteTrack_def)

section \<open>Properties\<close>


text \<open>A builder that gives every packet out as a sample.\<close>

definition packet_builder :: "(bytes, bytes list) sample_builder" where
  "packet_builder =
     \<lparr>sb_Push = (\<lambda>packet b. b @ [packet]),
      sb_Pop = (\<lambda>b. case b of [] \<Rightarrow> (None, []) | s # b' \<Rightarrow> (Some s, b')), sb_Flush = (\<lambda>b. b)\<rparr>"


end
