(* ===== verification/Crypto.thy ===== *)
theory Crypto
  imports Layers Go_Std
begin

text \<open>
  \<open>internal/crypto/chacha.go\<close> and the key handling of server and client: a cipher is an AEAD
  with a random nonce in front of each ciphertext. The AEAD (\<open>golang.org/x/crypto\<close>) is a
  parameter, the record \<open>aead\<close>; what the code relies on is \<open>aead_laws\<close>.
\<close>

record aead =
  NonceSize :: nat
  Seal :: "bytes \<Rightarrow> bytes \<Rightarrow> bytes"
  Open :: "bytes \<Rightarrow> bytes \<Rightarrow> go_error + bytes"

definition aead_laws :: "aead \<Rightarrow> bool" where
  "aead_laws a \<longleftrightarrow>
     (\<forall>nonce plaintext. length nonce = NonceSize a \<longrightarrow> Open a nonce (Seal a nonce plaintext) = Inr plaintext)"

section \<open>The cipher\<close>

definition ErrInvalidKeySize :: go_error where
  "ErrInvalidKeySize = Base ''invalid key size''"
definition ErrCiphertextTooShort :: go_error where
  "ErrCiphertextTooShort = Base ''ciphertext too short''"

definition KeySize :: nat where "KeySize = 32"

definition NewCipher :: "(bytes \<Rightarrow> go_error + aead) \<Rightarrow> bytes \<Rightarrow> go_error + aead" where
  "NewCipher newX key =
     (if length key \<noteq> KeySize then Inl ErrInvalidKeySize
      else case newX key of
             Inl err \<Rightarrow> Inl (Ctx ''failed to create aead'' err)
           | Inr a \<Rightarrow> Inr a)"

text \<open>\<open>rand\<close> is what \<open>rand.Read\<close> gives for a buffer of the given size.\<close>

definition Encrypt :: "(nat \<Rightarrow> go_error + bytes) \<Rightarrow> aead \<Rightarrow> bytes \<Rightarrow> go_error + bytes" where
  "Encrypt rand c plaintext =
     (case rand (NonceSize c) of
        Inl err \<Rightarrow> Inl (Ctx ''failed to generate nonce'' err)
      | Inr nonce \<Rightarrow> Inr (nonce @ Seal c nonce plaintext))"

definition Decrypt :: "aead \<Rightarrow> bytes \<Rightarrow> go_error + bytes" where
  "Decrypt c ciphertext =
     (let nonceSize = NonceSize c in
      if length ciphertext < nonceSize then Inl ErrCiphertextTooShort
      else (case Open c (take nonceSize ciphertext) (drop nonceSize ciphertext) of
              Inl err \<Rightarrow> Inl (Ctx ''failed to decrypt'' err)
            | Inr res \<Rightarrow> Inr res))"

section \<open>Keys from their hexadecimal form\<close>

text \<open>The text of \<open>encoding/hex\<close>'s errors; \<open>%#U\<close> of a byte is its code point and, when it prints,
  the character.\<close>

definition hex_upper :: "nat \<Rightarrow> char" where
  "hex_upper n = (if n < 10 then char_of (48 + n) else char_of (55 + n))"

definition hex_err :: "hex_error \<Rightarrow> go_error" where
  "hex_err e =
     (case e of
        ErrLength \<Rightarrow> Base ''encoding/hex: odd length hex string''
      | InvalidByteError c \<Rightarrow>
          (let n = of_char c :: nat; u = ''U+00'' @ [hex_upper (n div 16), hex_upper (n mod 16)] in
           Base (''encoding/hex: invalid byte: '' @ u
             @ (if 32 \<le> n \<and> n < 127 then '' '' @ [CHR 0x27, c, CHR 0x27]
                else if 161 \<le> n \<and> n \<noteq> 173
                then '' '' @ [CHR 0x27, char_of (192 + n div 64), char_of (128 + n mod 64), CHR 0x27]
                else []))))"

definition server_ErrKeyRequired :: go_error where
  "server_ErrKeyRequired = Base ''key required (use -key <hex>)''"
definition ErrKeySize :: go_error where
  "ErrKeySize = Base ''key must be 32 bytes''"

definition decode_cipher :: "(bytes \<Rightarrow> go_error + aead) \<Rightarrow> string \<Rightarrow> string \<Rightarrow> go_error + aead" where
  "decode_cipher newX size_text keyHex =
     (case hex_DecodeString keyHex of
        Inl e \<Rightarrow> Inl (Ctx ''failed to decode key'' (hex_err e))
      | Inr key \<Rightarrow>
          if length key \<noteq> 32 then Inl (Detail ErrKeySize (size_text @ Itoa (int (length key))))
          else wrap ''failed to create cipher'' (NewCipher newX key))"

definition server_setupCipher :: "(bytes \<Rightarrow> go_error + aead) \<Rightarrow> string \<Rightarrow> go_error + aead" where
  "server_setupCipher newX keyHex =
     (if keyHex = [] then Inl server_ErrKeyRequired else decode_cipher newX '', got '' keyHex)"

definition client_setupCipher :: "(bytes \<Rightarrow> go_error + aead) \<Rightarrow> string \<Rightarrow> go_error + aead" where
  "client_setupCipher newX keyHex = decode_cipher newX '': got '' keyHex"

section \<open>Sealing and opening\<close>

definition seal_with :: "aead \<Rightarrow> bytes \<Rightarrow> bytes \<Rightarrow> bytes" where
  "seal_with c nonce p = nonce @ Seal c nonce p"

lemma Encrypt_Inr:
  "Encrypt rand c p = Inr ct \<longleftrightarrow> (\<exists>nonce. rand (NonceSize c) = Inr nonce \<and> ct = seal_with c nonce p)"
  by (auto simp: Encrypt_def seal_with_def split: sum.splits)

lemma Decrypt_seal:
  "aead_laws c \<Longrightarrow> length nonce = NonceSize c \<Longrightarrow> Decrypt c (seal_with c nonce p) = Inr p"
  by (simp add: Decrypt_def seal_with_def aead_laws_def)

lemma Decrypt_short: "length ct < NonceSize c \<Longrightarrow> Decrypt c ct = Inl ErrCiphertextTooShort"
  by (simp add: Decrypt_def)

definition opened :: "aead \<Rightarrow> bytes \<Rightarrow> bytes option" where
  "opened c ct = (case Decrypt c ct of Inl _ \<Rightarrow> None | Inr p \<Rightarrow> Some p)"

interpretation cipher_codec: byte_codec "seal_with c nonce" "opened c"
  "\<lambda>_. aead_laws c \<and> length nonce = NonceSize c" for c nonce
  by unfold_locales (simp add: opened_def Decrypt_seal)

lemma client_server_cipher:
  "server_setupCipher newX keyHex = Inr c \<longleftrightarrow> keyHex \<noteq> [] \<and> client_setupCipher newX keyHex = Inr c"
  by (simp add: server_setupCipher_def client_setupCipher_def decode_cipher_def
      split: sum.splits)

lemma setupCipher_Inr:
  "client_setupCipher newX keyHex = Inr c \<longleftrightarrow>
     (\<exists>key. hex_DecodeString keyHex = Inr key \<and> length key = 32 \<and> newX key = Inr c)"
  by (auto simp: client_setupCipher_def decode_cipher_def NewCipher_def KeySize_def split: sum.splits)

section \<open>Properties\<close>

text \<open>C16: both ends build the same cipher from the same key text: server and client accept exactly
  64 hexadecimal digits whose key the AEAD accepts, with the same result, every other text is an
  error at both, and what one end encrypts the other decrypts to the plaintext.\<close>

theorem both_ends_share_cipher:
  assumes "\<And>key a. newX key = Inr a \<Longrightarrow> aead_laws a"
  shows "(server_setupCipher newX keyHex = Inr c) = (client_setupCipher newX keyHex = Inr c)
     \<and> ((\<exists>key. hex_DecodeString keyHex = Inr key \<and> newX key = Inr c \<and> length keyHex = 64)
         = (client_setupCipher newX keyHex = Inr c))
     \<and> (client_setupCipher newX keyHex = Inr c \<longrightarrow> rand (NonceSize c) = Inr nonce \<longrightarrow>
          length nonce = NonceSize c \<longrightarrow> Encrypt rand c p = Inr ct \<longrightarrow> Decrypt c ct = Inr p)"
proof (intro conjI impI)
  have ne: "keyHex \<noteq> []" if "client_setupCipher newX keyHex = Inr c"
    using that by (auto simp: setupCipher_Inr)
  then show "(server_setupCipher newX keyHex = Inr c) = (client_setupCipher newX keyHex = Inr c)"
    by (auto simp: client_server_cipher)
  show "(\<exists>key. hex_DecodeString keyHex = Inr key \<and> newX key = Inr c \<and> length keyHex = 64)
      = (client_setupCipher newX keyHex = Inr c)"
    using hex_decode_length [of keyHex] by (fastforce simp: setupCipher_Inr)
  assume "client_setupCipher newX keyHex = Inr c" "rand (NonceSize c) = Inr nonce"
    "length nonce = NonceSize c" "Encrypt rand c p = Inr ct"
  then show "Decrypt c ct = Inr p"
    using assms by (auto simp: setupCipher_Inr Encrypt_Inr intro!: Decrypt_seal)
qed

section \<open>Witness\<close>

text \<open>An AEAD for examples: no secrecy, but a tag that binds nonce and key.\<close>

definition toy_aead :: "bytes \<Rightarrow> aead" where
  "toy_aead key =
     \<lparr>NonceSize = 2, Seal = (\<lambda>nonce p. p @ nonce @ key),
      Open = (\<lambda>nonce ct. if length nonce + length key \<le> length ct
                \<and> drop (length ct - length nonce - length key) ct = nonce @ key
              then Inr (take (length ct - length nonce - length key) ct)
              else Inl (Base ''chacha20poly1305: message authentication failed''))\<rparr>"

lemma toy_aead_laws: "aead_laws (toy_aead key)"
  by (simp add: aead_laws_def toy_aead_def)

theorem both_ends_share_cipher_witness:
  "server_setupCipher (\<lambda>key. Inr (toy_aead key)) (hex_EncodeToString (replicate 32 7))
     = Inr (toy_aead (replicate 32 7))
   \<and> Decrypt (toy_aead (replicate 32 7)) ([1, 2] @ [5, 6] @ [1, 2] @ replicate 32 7) = Inr [5, 6]"
proof -
  let ?hex = "hex_EncodeToString (replicate 32 7)" and ?a = "toy_aead (replicate 32 7)"
  have c: "client_setupCipher (\<lambda>key. Inr (toy_aead key)) ?hex = Inr ?a" by (simp add: setupCipher_Inr)
  have e: "Encrypt (\<lambda>_. Inr [1, 2]) ?a [5, 6] = Inr ([1, 2] @ [5, 6] @ [1, 2] @ replicate 32 7)"
    by (simp add: Encrypt_def toy_aead_def)
  have n: "length [1 :: byte, 2] = NonceSize ?a" by (simp add: toy_aead_def)
  have laws: "\<And>key a. Inr (toy_aead key) = (Inr a :: go_error + aead) \<Longrightarrow> aead_laws a"
    using toy_aead_laws by auto
  show ?thesis
    using both_ends_share_cipher [where newX = "\<lambda>key. Inr (toy_aead key)" and keyHex = ?hex and c = ?a
        and rand = "\<lambda>_. Inr [1, 2]" and nonce = "[1, 2]" and p = "[5, 6]", OF laws] c e n
    by simp
qed

end
