(* ===== verification/Muxconn.thy ===== *)
theory Muxconn
  imports Crypto Kcp
begin

text \<open>
  \<open>internal/muxconn/conn.go\<close>: the byte stream smux runs on, over a link that carries messages.
  \<open>Push\<close> decrypts one message and appends it to the buffer, \<open>Read\<close> drains the buffer, \<open>Write\<close> waits
  for the link, encrypts and sends one message.
\<close>

definition mux_ErrClosed :: go_error where "mux_ErrClosed = Base ''muxconn: closed''"
definition io_EOF :: go_error where "io_EOF = Base ''EOF''"

record mux =
  mx_buf :: bytes
  mx_closed :: bool

text \<open>The fields of smux's configuration that the sources set.\<close>

record smux_config =
  Version :: int
  KeepAliveDisabled :: bool
  MaxFrameSize :: int
  MaxReceiveBuffer :: int
  MaxStreamBuffer :: int
  KeepAliveInterval :: int
  KeepAliveTimeout :: int

definition mux_New :: mux where
  "mux_New = \<lparr>mx_buf = [], mx_closed = False\<rparr>"

definition Push :: "aead \<Rightarrow> bytes \<Rightarrow> mux \<Rightarrow> mux" where
  "Push cipher ciphertext c =
     (case Decrypt cipher ciphertext of
        Inl _ \<Rightarrow> c
      | Inr pt \<Rightarrow> if mx_closed c then c else c\<lparr>mx_buf := mx_buf c @ pt\<rparr>)"

text \<open>\<open>Read\<close> into a slice of \<open>n\<close> bytes; \<open>None\<close> is waiting on the condition variable.\<close>

definition mux_Read :: "nat \<Rightarrow> mux \<Rightarrow> ((go_error + bytes) \<times> mux) option" where
  "mux_Read n c =
     (if \<not> mx_closed c \<and> mx_buf c = [] then None
      else if mx_buf c = [] then Some (Inl io_EOF, c)
      else Some (Inr (take n (mx_buf c)), c\<lparr>mx_buf := drop n (mx_buf c)\<rparr>))"

definition mux_Close :: "mux \<Rightarrow> mux" where
  "mux_Close c = (if mx_closed c then c else c\<lparr>mx_closed := True\<rparr>)"

section \<open>Write\<close>

definition fastSpinAttempts :: nat where "fastSpinAttempts = 200"
definition slowPollDelay :: int where "slowPollDelay = 2 * millisecond"

text \<open>The pause after an unsuccessful attempt: a yield, or the poll delay.\<close>

definition attempt_delay :: "nat \<Rightarrow> int" where
  "attempt_delay attempt = (if attempt < fastSpinAttempts then 0 else slowPollDelay)"

text \<open>
  The waiting loop: \<open>env attempt\<close> is what \<open>isClosed\<close> and \<open>CanSend\<close> answer in that round. The result
  is the round the loop left in and whether it left to send; a loop that never leaves is \<open>None\<close>.
\<close>

partial_function (option) Write_wait :: "(nat \<Rightarrow> bool \<times> bool) \<Rightarrow> nat \<Rightarrow> (nat \<times> bool) option" where
  "Write_wait env attempt =
     (if fst (env attempt) then Some (attempt, False)
      else if snd (env attempt) then Some (attempt, True)
      else Write_wait env (Suc attempt))"

definition mux_Write ::
    "(nat \<Rightarrow> bool \<times> bool) \<Rightarrow> (nat \<Rightarrow> go_error + bytes) \<Rightarrow> aead \<Rightarrow> ('s, 'u) link \<Rightarrow> bytes \<Rightarrow> 's \<Rightarrow>
     ((go_error + nat) \<times> 's) option" where
  "mux_Write env rand cipher ln p s =
     (case Write_wait env 0 of
        None \<Rightarrow> None
      | Some (_, False) \<Rightarrow> Some (Inl mux_ErrClosed, s)
      | Some (_, True) \<Rightarrow>
          Some (case Encrypt rand cipher p of
                  Inl err \<Rightarrow> (Inl (Ctx ''encrypt'' err), s)
                | Inr enc \<Rightarrow>
                    (case ln_Send ln enc s of
                       (Some err, s') \<Rightarrow> (Inl (Ctx ''send'' err), s')
                     | (None, s') \<Rightarrow> (Inr (length p), s'))))"

declare Write_wait.simps [simp del]

definition ready :: "(nat \<Rightarrow> bool \<times> bool) \<Rightarrow> nat \<Rightarrow> bool" where
  "ready env n \<longleftrightarrow> fst (env n) \<or> snd (env n)"

lemma Write_wait_skip:
  "(\<forall>m\<in>{n..<n + k}. \<not> ready env m) \<Longrightarrow> Write_wait env n = Write_wait env (n + k)"
proof (induction k arbitrary: n)
  case (Suc k)
  then have "Write_wait env n = Write_wait env (Suc n)"
    by (simp add: Write_wait.simps [of env n] ready_def)
  also have "\<dots> = Write_wait env (Suc n + k)" using Suc by auto
  finally show ?case by simp
qed simp

lemma Write_wait_ready: "Write_wait env n = Some r \<Longrightarrow> \<exists>m\<ge>n. ready env m"
proof (erule Write_wait.raw_induct [rotated])
  fix W :: "(nat \<Rightarrow> bool \<times> bool) \<Rightarrow> nat \<Rightarrow> (nat \<times> bool) option" and env n r
  assume IH: "\<And>env n r. W env n = Some r \<Longrightarrow> \<exists>m\<ge>n. ready env m"
    and eq: "(if fst (env n) then Some (n, False) else if snd (env n) then Some (n, True) else W env (Suc n)) = Some r"
  show "\<exists>m\<ge>n. ready env m"
  proof (cases "ready env n")
    case True
    then show ?thesis by (intro exI [of _ n]) simp
  next
    case False
    with eq have "W env (Suc n) = Some r" by (simp add: ready_def)
    from IH [OF this] obtain m where "Suc n \<le> m" "ready env m" by auto
    then show ?thesis by (intro exI [of _ m]) simp
  qed
qed

lemma Write_wait_at:
  assumes "ready env k" and "\<forall>m<k. \<not> ready env m"
  shows "Write_wait env 0 = Some (k, \<not> fst (env k))"
proof -
  have "Write_wait env 0 = Write_wait env k" using Write_wait_skip [of 0 k env] assms(2) by simp
  then show ?thesis using assms(1) by (simp add: Write_wait.simps [of env k] ready_def) blast
qed

section \<open>The buffer is a pipe\<close>

lemma Push_closed [simp]: "mx_closed (Push cipher ct c) = mx_closed c"
  by (simp add: Push_def split: sum.splits)

lemma Push_opened:
  "Push cipher ct c = (case opened cipher ct of
     Some pt \<Rightarrow> if mx_closed c then c else c\<lparr>mx_buf := mx_buf c @ pt\<rparr> | None \<Rightarrow> c)"
  by (simp add: Push_def opened_def split: sum.splits)

definition plaintexts :: "aead \<Rightarrow> bytes list \<Rightarrow> bytes list" where
  "plaintexts cipher cts = List.map_filter (opened cipher) cts"

lemma plaintexts_simps [simp]:
  "plaintexts cipher [] = []"
  "plaintexts cipher (ct # cts) =
     (case opened cipher ct of None \<Rightarrow> plaintexts cipher cts | Some p \<Rightarrow> p # plaintexts cipher cts)"
  by (simp_all add: plaintexts_def map_filter_simps cong: option.case_cong)

lemma plaintexts_all: "map (opened cipher) ms = map Some ps \<Longrightarrow> plaintexts cipher ms = ps"
  by (induction ms arbitrary: ps) auto

lemma plaintexts_filter: "plaintexts cipher (filter (\<lambda>ct. opened cipher ct \<noteq> None) cts) = plaintexts cipher cts"
  by (induction cts) (auto split: option.split)

lemma fold_Push: "\<not> mx_closed c \<Longrightarrow> mx_buf (fold (Push cipher) cts c) = mx_buf c @ concat (plaintexts cipher cts)"
proof (induction cts arbitrary: c)
  case (Cons ct cts)
  show ?case
  proof (cases "opened cipher ct")
    case None
    with Cons show ?thesis by (simp add: Push_opened)
  next
    case (Some pt)
    with Cons.IH [of "c\<lparr>mx_buf := mx_buf c @ pt\<rparr>"] Cons.prems show ?thesis by (simp add: Push_opened)
  qed
qed simp

text \<open>Reads of given sizes, as long as bytes are there: what they return, concatenated.\<close>

fun read_all :: "nat list \<Rightarrow> mux \<Rightarrow> bytes \<times> mux" where
  "read_all [] c = ([], c)"
| "read_all (n # ns) c =
     (case mux_Read n c of
        Some (Inr b, c') \<Rightarrow> (case read_all ns c' of (bs, c'') \<Rightarrow> (b @ bs, c''))
      | _ \<Rightarrow> ([], c))"

lemma read_all_prefix:
  "read_all ns c = (bs, c') \<Longrightarrow> mx_buf c = bs @ mx_buf c' \<and> bs = take (sum_list ns) (mx_buf c)"
proof (induction ns arbitrary: c bs c')
  case (Cons n ns)
  show ?case
  proof (cases "mx_buf c = []")
    case True
    then have "read_all (n # ns) c = ([], c)" by (simp add: mux_Read_def)
    with Cons.prems True show ?thesis by simp
  next
    case False
    obtain bs1 c1 where r: "read_all ns (c\<lparr>mx_buf := drop n (mx_buf c)\<rparr>) = (bs1, c1)"
      by (rule prod.exhaust)
    have "read_all (n # ns) c = (take n (mx_buf c) @ bs1, c1)" using False by (simp add: mux_Read_def r)
    with Cons.prems have e: "bs = take n (mx_buf c) @ bs1" "c' = c1" by simp_all
    have d: "drop n (mx_buf c) = bs1 @ mx_buf c1 \<and> bs1 = take (sum_list ns) (drop n (mx_buf c))"
    proof -
      have b: "mx_buf (c\<lparr>mx_buf := drop n (mx_buf c)\<rparr>) = drop n (mx_buf c)" by simp
      show ?thesis using Cons.IH [OF r] unfolding b .
    qed
    have "mx_buf c = take n (mx_buf c) @ (bs1 @ mx_buf c1)"
      unfolding d [THEN conjunct1, symmetric] by (rule append_take_drop_id [symmetric])
    moreover have "take (sum_list (n # ns)) (mx_buf c) = take n (mx_buf c) @ bs1"
      by (subst d [THEN conjunct2]) (simp only: sum_list.Cons take_add)
    ultimately show ?thesis unfolding e by (simp only: append_assoc)
  qed
qed simp

context message_channel
begin

text \<open>Over any message channel, what is sealed and sent arrives in a fresh connection's buffer.\<close>

lemma pushed_stream:
  assumes "wf s" and "delivered s = []" and "\<forall>m\<in>set ms. ok m"
    and "map (opened cipher) ms = map Some ps"
  shows "mx_buf (fold (Push cipher) (delivered (fold send ms s)) mux_New) = concat ps"
proof -
  have "delivered (fold send ms s) = ms" using send_all [OF assms(1,3)] assms(2) by simp
  then show ?thesis
    using fold_Push [of mux_New cipher ms] plaintexts_all [OF assms(4)] by (simp add: mux_New_def)
qed

end

section \<open>Properties\<close>

text \<open>C11: the connection is a byte pipe over the KCP channel: whatever nonces the writers drew, the
  sealed writes of one side, framed by KCP's length prefix and pushed by the peer, read back in
  any slice sizes as the concatenation of the writes, cut only at what has been read.\<close>

theorem mux_stream_over_kcp:
  assumes "aead_laws cipher" and "\<forall>(nonce, p)\<in>set ws. length nonce = NonceSize cipher"
    and "\<forall>(nonce, p)\<in>set ws. kcp_ok (seal_with cipher nonce p)"
    and "read_all sizes (fold (Push cipher) (kcp_delivered
           (fold (\<lambda>(nonce, p) s. snd (kcp_send stream_Write (seal_with cipher nonce p) s)) ws [])) mux_New)
         = (bs, c)"
  shows "bs = take (sum_list sizes) (concat (map snd ws)) \<and> concat (map snd ws) = bs @ mx_buf c"
proof -
  let ?ms = "map (\<lambda>(nonce, p). seal_with cipher nonce p) ws"
  have f: "fold (\<lambda>(nonce, p) s. snd (kcp_send stream_Write (seal_with cipher nonce p) s)) ws s
      = fold (\<lambda>m s. snd (kcp_send stream_Write m s)) ?ms s" for s
    by (induction ws arbitrary: s) auto
  have o: "map (opened cipher) ?ms = map Some (map snd ws)"
    using assms(1,2) by (auto simp: opened_def Decrypt_seal)
  have buf: "mx_buf (fold (Push cipher) (kcp_delivered (fold (\<lambda>m s. snd (kcp_send stream_Write m s)) ?ms [])) mux_New)
      = concat (map snd ws)"
    by (rule kcp_channel.pushed_stream [OF _ _ _ o])
      (use assms(3) in \<open>auto simp: kcp_aligned_def kcp_delivered_def\<close>)
  from read_all_prefix [OF assms(4)] show ?thesis unfolding f buf by blast
qed

text \<open>A message that was tampered with, truncated or foreign, that is, does not decrypt, leaves the
  stream as it is: only the messages that decrypt contribute, in their order.\<close>

lemma mux_drops_undecryptable:
  assumes "\<not> mx_closed c"
  shows "mx_buf (fold (Push cipher) cts c)
     = mx_buf (fold (Push cipher) (filter (\<lambda>ct. opened cipher ct \<noteq> None) cts) c)"
  by (simp only: fold_Push [OF assms] plaintexts_filter)

text \<open>C36: \<open>Write\<close> returns exactly when the connection is closed or the link can send at some round, in
  the first such round; it spins without delay for 200 rounds and sleeps two milliseconds in each
  later one; and a connection closed in that round gets \<open>ErrClosed\<close> with nothing sent.\<close>

theorem mux_Write_returns:
  "(case mux_Write env rand cipher ln p s of
      None \<Rightarrow> (\<forall>n. \<not> ready env n)
    | Some (r, s') \<Rightarrow>
        (\<exists>k. ready env k \<and> (\<forall>m<k. \<not> ready env m)
           \<and> sum_list (map attempt_delay [0..<k]) = slowPollDelay * int (k - fastSpinAttempts)
           \<and> (if fst (env k) then r = Inl mux_ErrClosed \<and> s' = s
              else if (\<exists>enc. Encrypt rand cipher p = Inr enc)
              then s' = snd (ln_Send ln (projr (Encrypt rand cipher p)) s)
                \<and> (r = Inr (length p)) = (fst (ln_Send ln (projr (Encrypt rand cipher p)) s) = None)
              else s' = s \<and> isl r)))"
proof -
  have delay: "sum_list (map attempt_delay [0..<k]) = slowPollDelay * int (k - fastSpinAttempts)" for k
    by (induction k) (auto simp: attempt_delay_def Suc_diff_le algebra_simps)
  show ?thesis
  proof (cases "\<exists>n. ready env n")
    case False
    then have "Write_wait env 0 = None" using Write_wait_ready [of env 0] by (cases "Write_wait env 0") auto
    with False show ?thesis by (simp add: mux_Write_def)
  next
    case True
    define k where "k = (LEAST n. ready env n)"
    have k: "ready env k" "\<forall>m<k. \<not> ready env m"
      using True not_less_Least by (auto simp: k_def intro: LeastI)
    let ?good = "\<lambda>r s'. if fst (env k) then r = Inl mux_ErrClosed \<and> s' = s
              else if (\<exists>enc. Encrypt rand cipher p = Inr enc)
              then s' = snd (ln_Send ln (projr (Encrypt rand cipher p)) s)
                \<and> (r = Inr (length p)) = (fst (ln_Send ln (projr (Encrypt rand cipher p)) s) = None)
              else s' = s \<and> isl r"
    have "\<exists>r s'. mux_Write env rand cipher ln p s = Some (r, s') \<and> ?good r s'"
    proof (cases "fst (env k)")
      case True
      with Write_wait_at [OF k] show ?thesis by (simp add: mux_Write_def)
    next
      case False
      with Write_wait_at [OF k] show ?thesis
        by (cases "Encrypt rand cipher p"; cases "ln_Send ln (projr (Encrypt rand cipher p)) s";
            cases "fst (ln_Send ln (projr (Encrypt rand cipher p)) s)")
          (simp_all add: mux_Write_def)
    qed
    then obtain r s' where w: "mux_Write env rand cipher ln p s = Some (r, s')" "?good r s'" by blast
    show ?thesis unfolding w(1) option.case prod.case
      by (intro exI [of _ k] conjI k delay w(2))
  qed
qed

section \<open>Witnesses\<close>

theorem mux_stream_over_kcp_witness:
  "fst (read_all [1] (fold (Push (toy_aead [9])) (kcp_delivered
      (fold (\<lambda>(nonce, p) s. snd (kcp_send stream_Write (seal_with (toy_aead [9]) nonce p) s))
         [([1, 2], [5, 6]), ([3, 4], [7])] [])) mux_New)) = [5]"
proof -
  let ?a = "toy_aead [9]" and ?ws = "[([1, 2], [5, 6]), ([3, 4], [7 :: byte])]"
  obtain bs c where r: "read_all [1] (fold (Push ?a) (kcp_delivered
      (fold (\<lambda>(nonce, p) s. snd (kcp_send stream_Write (seal_with ?a nonce p) s)) ?ws [])) mux_New) = (bs, c)"
    by (rule prod.exhaust)
  have "\<forall>(nonce, p)\<in>set ?ws. length nonce = NonceSize ?a" by (simp add: toy_aead_def)
  moreover have "\<forall>(nonce, p)\<in>set ?ws. kcp_ok (seal_with ?a nonce p)"
    by (simp add: toy_aead_def seal_with_def kcp_ok_def kcpMaxMessage_def)
  ultimately show ?thesis
    unfolding r using mux_stream_over_kcp [OF toy_aead_laws _ _ r] by simp
qed

theorem mux_Write_returns_witness:
  "\<forall>ln :: (nat, unit) link. mux_Write (\<lambda>n. (n = 300, False)) (\<lambda>_. Inr [1, 2]) (toy_aead [9]) ln [5] 7
     = Some (Inl mux_ErrClosed, 7)"
proof
  fix ln :: "(nat, unit) link"
  let ?env = "\<lambda>n :: nat. (n = 300, False)"
  let ?w = "mux_Write ?env (\<lambda>_. Inr [1, 2]) (toy_aead [9]) ln [5] 7"
  have r: "ready ?env k \<longleftrightarrow> k = 300" for k by (simp add: ready_def)
  show "?w = Some (Inl mux_ErrClosed, 7)"
    using mux_Write_returns [where env = ?env and rand = "\<lambda>_. Inr [1, 2]" and cipher = "toy_aead [9]"
        and ln = ln and p = "[5]" and s = 7]
    by (cases ?w) (auto simp: r)
qed

end
