(* ===== verification/Io.thy ===== *)
theory Io
  imports Layers Go_Std
begin

text \<open>
  Operations that can fail and change a state: a function from the state to an error or a value,
  with the state after it, and the composition of such functions in the way of Go's early
  returns. \<open>io_ctx\<close> is the wrapping by \<open>fmt.Errorf("context: %w", err)\<close>.
\<close>

definition io_return :: "'a \<Rightarrow> 's \<Rightarrow> (go_error + 'a) \<times> 's" where
  "io_return x s = (Inr x, s)"

definition io_fail :: "go_error \<Rightarrow> 's \<Rightarrow> (go_error + 'a) \<times> 's" where
  "io_fail e s = (Inl e, s)"

definition io_bind ::
    "('s \<Rightarrow> (go_error + 'a) \<times> 's) \<Rightarrow> ('a \<Rightarrow> 's \<Rightarrow> (go_error + 'b) \<times> 's) \<Rightarrow> 's \<Rightarrow> (go_error + 'b) \<times> 's" where
  "io_bind m f s = (case m s of (Inl e, s') \<Rightarrow> (Inl e, s') | (Inr x, s') \<Rightarrow> f x s')"

definition io_ctx :: "string \<Rightarrow> ('s \<Rightarrow> (go_error + 'a) \<times> 's) \<Rightarrow> 's \<Rightarrow> (go_error + 'a) \<times> 's" where
  "io_ctx c m s = (case m s of (Inl e, s') \<Rightarrow> (Inl (Ctx c e), s') | (Inr x, s') \<Rightarrow> (Inr x, s'))"

text \<open>The same for an operation that returns only an error.\<close>

definition io_check :: "('s \<Rightarrow> go_error option \<times> 's) \<Rightarrow> 's \<Rightarrow> (go_error + unit) \<times> 's" where
  "io_check m s = (case m s of (None, s') \<Rightarrow> (Inr (), s') | (Some e, s') \<Rightarrow> (Inl e, s'))"

text \<open>A string from its bytes.\<close>

definition gostr :: "bytes \<Rightarrow> string" where
  "gostr bs = map (\<lambda>b. char_of (unat b)) bs"

section \<open>Laws\<close>

lemma io_bind_Inr:
  "io_bind m f s = (Inr y, s'') \<longleftrightarrow> (\<exists>x s'. m s = (Inr x, s') \<and> f x s' = (Inr y, s''))"
  by (auto simp: io_bind_def split: prod.splits sum.splits)

lemma io_return_Inr [simp]: "io_return x s = (Inr y, s') \<longleftrightarrow> y = x \<and> s' = s"
  by (auto simp: io_return_def)

lemma io_fail_Inr [simp]: "\<not> io_fail e s = (Inr y, s')"
  by (simp add: io_fail_def)

lemma io_check_Inr [simp]: "io_check m s = (Inr u, s') \<longleftrightarrow> m s = (None, s')"
  by (auto simp: io_check_def split: prod.splits option.splits)

lemma io_ctx_Inr [simp]: "io_ctx c m s = (Inr x, s') \<longleftrightarrow> m s = (Inr x, s')"
  by (auto simp: io_ctx_def split: prod.splits sum.splits)

lemma gostr_str [simp]: "gostr (str s) = s"
proof (induction s)
  case (Cons c s)
  have "unat (byte_of_char c) = of_char c"
    by (simp add: byte_of_char_def unat_of_nat)
  with Cons show ?case by (simp add: gostr_def)
qed (simp add: gostr_def)

lemma io_bind_assoc: "io_bind (io_bind m f) g = io_bind m (\<lambda>x. io_bind (f x) g)"
  by (rule ext) (simp add: io_bind_def split: prod.split sum.split)

lemma io_bind_return [simp]: "io_bind (io_return x) f = f x"
  by (rule ext) (simp add: io_bind_def io_return_def)

end
