(* ===== verification/Socks.thy ===== *)
theory Socks
  imports Io
begin

text \<open>
  The SOCKS5 code of the tunnel's two ends: the proxy side of the client (\<open>socks5Handshake\<close>,
  \<open>socks5UserPassAuth\<close>, \<open>socks5Request\<close>, \<open>readSocks5Addr\<close> and the replies in
  \<open>client/client.go\<close>) and the requesting side of the server (\<open>socks5Connect\<close> in
  \<open>server/server.go\<close>).

  A connection is what its peer will still send, the error after that, what has been written to
  it and how much it takes before writing fails. An operation that can fail is a function from
  the connection to an error or a value, with the connection after it.
\<close>

section \<open>Connections\<close>

record sock =
  sk_in :: bytes
  sk_rerr :: go_error
  sk_out :: bytes
  sk_room :: nat
  sk_werr :: go_error

definition EOF :: go_error where "EOF = Base ''EOF''"
definition ErrUnexpectedEOF :: go_error where "ErrUnexpectedEOF = Base ''unexpected EOF''"

definition ReadFull :: "nat \<Rightarrow> sock \<Rightarrow> (go_error + bytes) \<times> sock" where
  "ReadFull n s =
     (if n \<le> length (sk_in s) then (Inr (take n (sk_in s)), s\<lparr>sk_in := drop n (sk_in s)\<rparr>)
      else (Inl (if sk_in s \<noteq> [] \<and> sk_rerr s = EOF then ErrUnexpectedEOF else sk_rerr s), s\<lparr>sk_in := []\<rparr>))"

definition sock_Write :: "bytes \<Rightarrow> sock \<Rightarrow> (go_error + unit) \<times> sock" where
  "sock_Write data s =
     (if length data \<le> sk_room s
      then (Inr (), s\<lparr>sk_out := sk_out s @ data, sk_room := sk_room s - length data\<rparr>)
      else (Inl (sk_werr s), s\<lparr>sk_out := sk_out s @ take (sk_room s) data, sk_room := 0\<rparr>))"

definition read_full :: "string \<Rightarrow> nat \<Rightarrow> sock \<Rightarrow> (go_error + bytes) \<times> sock" where
  "read_full c n = io_ctx c (ReadFull n)"

definition write_all :: "string \<Rightarrow> bytes \<Rightarrow> sock \<Rightarrow> (go_error + unit) \<times> sock" where
  "write_all c data = io_ctx c (sock_Write data)"

section \<open>The client's proxy side\<close>

definition ErrInvalidSOCKSVersion :: go_error where
  "ErrInvalidSOCKSVersion = Base ''invalid socks version''"
definition ErrUnsupportedSOCKSCommand :: go_error where
  "ErrUnsupportedSOCKSCommand = Base ''unsupported socks command''"
definition ErrUnsupportedAddressType :: go_error where
  "ErrUnsupportedAddressType = Base ''unsupported address type''"
definition ErrSOCKSAuthFailed :: go_error where
  "ErrSOCKSAuthFailed = Base ''SOCKS5 authentication failed''"

definition byte_text :: "byte \<Rightarrow> string" where
  "byte_text b = Itoa (uint b)"

definition socks5UserPassAuth :: "bytes \<Rightarrow> bytes \<Rightarrow> sock \<Rightarrow> (go_error + unit) \<times> sock" where
  "socks5UserPassAuth socksUser socksPass =
     io_bind (read_full ''read socks5 auth header'' 2) (\<lambda>header.
       if header ! 0 \<noteq> 1
       then io_fail (Detail ErrInvalidSOCKSVersion ('': expected auth version 1, got '' @ byte_text (header ! 0)))
       else io_bind (read_full ''read socks5 username'' (unat (header ! 1))) (\<lambda>userBuf.
            io_bind (read_full ''read socks5 plen'' 1) (\<lambda>plenBuf.
            io_bind (read_full ''read socks5 password'' (unat (plenBuf ! 0))) (\<lambda>passBuf.
              if userBuf \<noteq> socksUser \<or> passBuf \<noteq> socksPass
              then (\<lambda>s. (Inl ErrSOCKSAuthFailed, snd (sock_Write [1, 1] s)))
              else write_all ''write socks5 auth success'' [1, 0]))))"

definition socks5Handshake :: "bytes \<Rightarrow> bytes \<Rightarrow> sock \<Rightarrow> (go_error + unit) \<times> sock" where
  "socks5Handshake socksUser socksPass =
     io_bind (read_full ''read socks5 header'' 2) (\<lambda>buf.
       if buf ! 0 \<noteq> 5
       then io_fail (Detail ErrInvalidSOCKSVersion ('': '' @ byte_text (buf ! 0)))
       else io_bind (read_full ''read socks5 methods'' (unat (buf ! 1))) (\<lambda>methods.
         if socksUser \<noteq> []
         then io_bind (write_all ''write socks5 auth method'' [5, 2])
                (\<lambda>_. socks5UserPassAuth socksUser socksPass)
         else write_all ''write socks5 auth'' [5, 0]))"

text \<open>\<open>net.IP(buf).String()\<close> of four bytes.\<close>

definition ipv4_text :: "bytes \<Rightarrow> string" where
  "ipv4_text b = byte_text (b ! 0) @ ''.'' @ byte_text (b ! 1) @ ''.'' @ byte_text (b ! 2) @ ''.'' @ byte_text (b ! 3)"

definition readSocks5Addr :: "byte \<Rightarrow> sock \<Rightarrow> (go_error + string) \<times> sock" where
  "readSocks5Addr addrType =
     (if addrType = 1
      then io_bind (read_full ''read socks5 ipv4'' 4) (\<lambda>buf. io_return (ipv4_text buf))
      else if addrType = 3
      then io_bind (read_full ''read socks5 domain len'' 1) (\<lambda>lenBuf.
           io_bind (read_full ''read socks5 domain'' (unat (lenBuf ! 0))) (\<lambda>buf. io_return (gostr buf)))
      else io_fail (Detail ErrUnsupportedAddressType ('': '' @ byte_text addrType)))"

definition socks5Request :: "sock \<Rightarrow> (go_error + string \<times> int) \<times> sock" where
  "socks5Request =
     io_bind (read_full ''read socks5 request'' 4) (\<lambda>header.
       if header ! 1 \<noteq> 1
       then io_fail (Detail ErrUnsupportedSOCKSCommand ('': '' @ byte_text (header ! 1)))
       else io_bind (readSocks5Addr (header ! 3)) (\<lambda>addr.
            io_bind (read_full ''read socks5 port'' 2) (\<lambda>portBuf.
              io_return (addr, uint (get_be16 0 portBuf)))))"

definition replySuccess :: bytes where
  "replySuccess = [5, 0, 0, 1, 0, 0, 0, 0, 0, 0]"

definition replyHostUnreachable :: bytes where
  "replyHostUnreachable = [5, 4, 0, 1, 0, 0, 0, 0, 0, 0]"

section \<open>The server's requesting side\<close>

definition ErrSocks5AuthFailed :: go_error where
  "ErrSocks5AuthFailed = Base ''SOCKS5 auth failed''"
definition ErrSocks5ConnectFailed :: go_error where
  "ErrSocks5ConnectFailed = Base ''SOCKS5 connect failed''"

text \<open>The connect request; an address over 255 bytes is cut.\<close>

definition connect_bytes :: "string \<Rightarrow> int \<Rightarrow> bytes" where
  "connect_bytes targetAddr targetPort =
     (let addr = take 255 (str targetAddr) in
      [5, 1, 0, 3, word_of_nat (length addr)] @ addr
      @ [word_of_int (targetPort div 256), word_of_int targetPort])"

definition socks5Connect :: "string \<Rightarrow> int \<Rightarrow> sock \<Rightarrow> (go_error + unit) \<times> sock" where
  "socks5Connect targetAddr targetPort =
     io_bind (write_all ''failed to write socks5 auth'' [5, 1, 0]) (\<lambda>_.
     io_bind (read_full ''failed to read socks5 auth resp'' 2) (\<lambda>resp.
       if resp ! 0 \<noteq> 5 \<or> resp ! 1 \<noteq> 0 then io_fail ErrSocks5AuthFailed
       else io_bind (write_all ''failed to write socks5 connect req'' (connect_bytes targetAddr targetPort)) (\<lambda>_.
            io_bind (read_full ''failed to read socks5 connect resp'' 10) (\<lambda>resp.
              if resp ! 0 \<noteq> 5 \<or> resp ! 1 \<noteq> 0
              then io_fail (Detail ErrSocks5ConnectFailed ('': '' @ byte_text (resp ! 1)))
              else io_return ()))))"

section \<open>Reading and writing\<close>

lemma read_full_Inr:
  "read_full c n s = (Inr b, s') \<longleftrightarrow>
     (\<exists>rest. sk_in s = b @ rest \<and> length b = n \<and> s' = s\<lparr>sk_in := rest\<rparr>)"
proof
  assume "read_full c n s = (Inr b, s')"
  then have "n \<le> length (sk_in s)" "b = take n (sk_in s)" "s' = s\<lparr>sk_in := drop n (sk_in s)\<rparr>"
    by (auto simp: read_full_def io_ctx_def ReadFull_def split: if_splits)
  then show "\<exists>rest. sk_in s = b @ rest \<and> length b = n \<and> s' = s\<lparr>sk_in := rest\<rparr>"
    by (intro exI [of _ "drop n (sk_in s)"]) simp
qed (auto simp: read_full_def io_ctx_def ReadFull_def)

lemma write_all_Inr:
  "write_all c data s = (Inr u, s') \<longleftrightarrow>
     length data \<le> sk_room s \<and> s' = s\<lparr>sk_out := sk_out s @ data, sk_room := sk_room s - length data\<rparr>"
  by (auto simp: write_all_def io_ctx_def sock_Write_def)

lemma read_bind:
  "sk_in s = b @ rest \<Longrightarrow> length b = n \<Longrightarrow> io_bind (read_full c n) f s = f b (s\<lparr>sk_in := rest\<rparr>)"
  by (simp add: io_bind_def read_full_def io_ctx_def ReadFull_def)

lemma write_bind:
  "length data \<le> sk_room s \<Longrightarrow> io_bind (write_all c data) f s
     = f () (s\<lparr>sk_out := sk_out s @ data, sk_room := sk_room s - length data\<rparr>)"
  by (simp add: io_bind_def write_all_def io_ctx_def sock_Write_def)

lemmas io_simps = io_bind_Inr read_full_Inr write_all_Inr


lemma length_2: "length b = 2 \<longleftrightarrow> (\<exists>x y. b = [x, y])"
  by (auto simp: numeral_2_eq_2 length_Suc_conv)

lemma length_1: "length b = Suc 0 \<longleftrightarrow> (\<exists>x. b = [x])"
  by (auto simp: length_Suc_conv)

section \<open>The handshake\<close>

lemma UserPassAuth_Inr:
  "socks5UserPassAuth user pass s = (Inr u, s') \<longleftrightarrow>
     (\<exists>ulen plen rest. sk_in s = 1 # ulen # user @ plen # pass @ rest
        \<and> length user = unat ulen \<and> length pass = unat plen \<and> 2 \<le> sk_room s
        \<and> s' = s\<lparr>sk_in := rest, sk_out := sk_out s @ [1, 0], sk_room := sk_room s - 2\<rparr>)"
    (is "?run \<longleftrightarrow> ?spec")
proof
  assume ?run
  then show ?spec
    unfolding socks5UserPassAuth_def by (auto simp: io_simps length_2 length_1 split: if_splits)
next
  assume ?spec
  then obtain ulen plen rest where *: "sk_in s = 1 # ulen # user @ plen # pass @ rest"
    "length user = unat ulen" "length pass = unat plen" "2 \<le> sk_room s"
    "s' = s\<lparr>sk_in := rest, sk_out := sk_out s @ [1, 0], sk_room := sk_room s - 2\<rparr>" by blast
  show ?run
    unfolding socks5UserPassAuth_def
    by (simp add: read_bind [of _ "[1, ulen]" "user @ plen # pass @ rest"]
        read_bind [of _ user "plen # pass @ rest"] read_bind [of _ "[plen]" "pass @ rest"]
        read_bind [of _ pass rest] * write_all_Inr numeral_2_eq_2 [symmetric] del: numeral_2_eq_2)
qed

lemma Handshake_Inr:
  "socks5Handshake user pass s = (Inr u, s') \<longleftrightarrow>
     (\<exists>n methods r. sk_in s = 5 # n # methods @ r \<and> length methods = unat n \<and> 2 \<le> sk_room s
        \<and> (if user = []
           then s' = s\<lparr>sk_in := r, sk_out := sk_out s @ [5, 0], sk_room := sk_room s - 2\<rparr>
           else socks5UserPassAuth user pass
             (s\<lparr>sk_in := r, sk_out := sk_out s @ [5, 2], sk_room := sk_room s - 2\<rparr>) = (Inr u, s')))"
    (is "?run \<longleftrightarrow> ?spec")
proof
  assume ?run
  then obtain h r1 methods r where *: "sk_in s = h @ r1" "length h = 2" "h ! 0 = 5"
    "r1 = methods @ r" "length methods = unat (h ! 1)"
    and c: "(if user \<noteq> []
         then io_bind (write_all ''write socks5 auth method'' [5, 2]) (\<lambda>_. socks5UserPassAuth user pass)
         else write_all ''write socks5 auth'' [5, 0]) (s\<lparr>sk_in := r\<rparr>) = (Inr u, s')"
    unfolding socks5Handshake_def by (auto simp: io_bind_Inr read_full_Inr split: if_splits)
  then obtain n where "h = [5, n]" by (auto simp: length_2)
  with * c show ?spec
    by (intro exI [of _ n] exI [of _ methods] exI [of _ r])
      (auto simp: io_bind_Inr write_all_Inr numeral_2_eq_2 split: if_splits)
next
  assume ?spec
  then obtain n methods r where *: "sk_in s = 5 # n # methods @ r" "length methods = unat n" "2 \<le> sk_room s"
    and c: "if user = []
           then s' = s\<lparr>sk_in := r, sk_out := sk_out s @ [5, 0], sk_room := sk_room s - 2\<rparr>
           else socks5UserPassAuth user pass
             (s\<lparr>sk_in := r, sk_out := sk_out s @ [5, 2], sk_room := sk_room s - 2\<rparr>) = (Inr u, s')" by blast
  show ?run
    unfolding socks5Handshake_def using c
    by (simp add: read_bind [of _ "[5, n]" "methods @ r"] read_bind [of _ methods r] * write_all_Inr
        write_bind *(3) [unfolded numeral_2_eq_2] numeral_2_eq_2 split: if_splits)
qed

section \<open>Requests\<close>

lemma port_bytes:
  "get_be16 0 [word_of_int (p div 256), word_of_int p] = word_of_int p"
proof -
  have "(ucast (drop_bit 8 (word_of_int p :: u16)) :: byte) = word_of_int (p div 256)"
    by (rule bit_word_eqI) (auto simp: bit_simps drop_bit_eq_div [of 8 p, simplified, symmetric])
  moreover have "(ucast (word_of_int p :: u16) :: byte) = word_of_int p"
    by (rule bit_word_eqI) (auto simp: bit_simps)
  ultimately have "[word_of_int (p div 256), word_of_int p] = be16 (word_of_int p)"
    by (simp add: be16_def)
  then show ?thesis using get_be16_be16 [of "[]" 0 "word_of_int p" "[]"] by simp
qed

lemma uint_port: "uint (word_of_int p :: u16) = p mod 65536"
  by (simp add: uint_word_of_int)

lemma str_take: "take n (str s) = str (take n s)"
  by (simp add: str_def take_map)

lemma socks5Request_connect_bytes:
  "socks5Request (s\<lparr>sk_in := connect_bytes addr port @ rest\<rparr>)
     = (Inr (take 255 addr, port mod 65536), s\<lparr>sk_in := rest\<rparr>)"
proof -
  let ?a = "str (take 255 addr)" and ?p = "[word_of_int (port div 256), word_of_int port :: byte]"
  let ?l = "word_of_nat (length ?a) :: byte"
  have l: "unat (word_of_nat (min (length addr) 255) :: byte) = min (length addr) 255"
    by (simp add: unat_of_nat)
  have c: "connect_bytes addr port = [5, 1, 0, 3] @ ?l # ?a @ ?p"
    by (simp add: connect_bytes_def str_take)
  show ?thesis
    unfolding socks5Request_def c readSocks5Addr_def
    by (simp add: read_bind [of _ "[5, 1, 0, 3]" "?l # ?a @ ?p @ rest"] io_bind_assoc
        read_bind [of _ "[?l]" "?a @ ?p @ rest"] read_bind [of _ ?a "?p @ rest"]
        read_bind [of _ ?p rest] l port_bytes uint_port)
qed


section \<open>Properties\<close>

text \<open>C17: with a user name configured, the handshake lets exactly those through who speak version 5
  and version 1 of the password exchange and send exactly the configured name and password,
  whatever methods they offer; without one, every version 5 greeting passes. Nothing after the
  exchange is consumed, and the replies are the method and the success status.\<close>

theorem socks_handshake_exactly:
  "(socks5Handshake user pass s = (Inr (), s'))
   = (\<exists>n methods. length methods = unat n \<and>
        (if user = []
         then 2 \<le> sk_room s \<and> sk_in s = 5 # n # methods @ sk_in s'
           \<and> s' = s\<lparr>sk_in := sk_in s', sk_out := sk_out s @ [5, 0], sk_room := sk_room s - 2\<rparr>
         else 4 \<le> sk_room s
           \<and> (\<exists>ulen plen. sk_in s = 5 # n # methods @ 1 # ulen # user @ plen # pass @ sk_in s'
                \<and> length user = unat ulen \<and> length pass = unat plen)
           \<and> s' = s\<lparr>sk_in := sk_in s', sk_out := sk_out s @ [5, 2, 1, 0], sk_room := sk_room s - 4\<rparr>))"
proof (cases "user = []")
  case True
  then show ?thesis by (auto simp: Handshake_Inr)
next
  case False
  have four: "Suc (Suc 0) \<le> sk_room s \<and> Suc (Suc 0) \<le> sk_room s - Suc (Suc 0) \<longleftrightarrow> 4 \<le> sk_room s" by auto
  show ?thesis
  proof
    assume "socks5Handshake user pass s = (Inr (), s')"
    with False show "\<exists>n methods. length methods = unat n \<and>
        (if user = []
         then 2 \<le> sk_room s \<and> sk_in s = 5 # n # methods @ sk_in s'
           \<and> s' = s\<lparr>sk_in := sk_in s', sk_out := sk_out s @ [5, 0], sk_room := sk_room s - 2\<rparr>
         else 4 \<le> sk_room s
           \<and> (\<exists>ulen plen. sk_in s = 5 # n # methods @ 1 # ulen # user @ plen # pass @ sk_in s'
                \<and> length user = unat ulen \<and> length pass = unat plen)
           \<and> s' = s\<lparr>sk_in := sk_in s', sk_out := sk_out s @ [5, 2, 1, 0], sk_room := sk_room s - 4\<rparr>)"
      by (auto simp: Handshake_Inr UserPassAuth_Inr)
  next
    assume "\<exists>n methods. length methods = unat n \<and>
        (if user = []
         then 2 \<le> sk_room s \<and> sk_in s = 5 # n # methods @ sk_in s'
           \<and> s' = s\<lparr>sk_in := sk_in s', sk_out := sk_out s @ [5, 0], sk_room := sk_room s - 2\<rparr>
         else 4 \<le> sk_room s
           \<and> (\<exists>ulen plen. sk_in s = 5 # n # methods @ 1 # ulen # user @ plen # pass @ sk_in s'
                \<and> length user = unat ulen \<and> length pass = unat plen)
           \<and> s' = s\<lparr>sk_in := sk_in s', sk_out := sk_out s @ [5, 2, 1, 0], sk_room := sk_room s - 4\<rparr>)"
    with False obtain n methods ulen plen where *: "length methods = unat n" "4 \<le> sk_room s"
      "sk_in s = 5 # n # methods @ 1 # ulen # user @ plen # pass @ sk_in s'"
      "length user = unat ulen" "length pass = unat plen"
      "s' = s\<lparr>sk_in := sk_in s', sk_out := sk_out s @ [5, 2, 1, 0], sk_room := sk_room s - 4\<rparr>"
      by auto
    let ?m = "s\<lparr>sk_in := 1 # ulen # user @ plen # pass @ sk_in s', sk_out := sk_out s @ [5, 2],
        sk_room := sk_room s - 2\<rparr>"
    have "socks5UserPassAuth user pass ?m = (Inr (), s')"
      unfolding UserPassAuth_Inr
      by (intro exI [of _ ulen] exI [of _ plen] exI [of _ "sk_in s'"]) (use * in auto)
    then show "socks5Handshake user pass s = (Inr (), s')"
      unfolding Handshake_Inr using * False
      by (intro exI [of _ n] exI [of _ methods] exI [of _ "1 # ulen # user @ plen # pass @ sk_in s'"]) auto
  qed
qed

text \<open>The request the server sends to its upstream SOCKS5 proxy is read by the client's own
  request parser as the same target, for every address and port: up to the 255 bytes a SOCKS5
  address can have and modulo 65536, which is where a longer address is silently cut.\<close>

lemma socks_request_roundtrip:
  "socks5Request (s\<lparr>sk_in := connect_bytes addr port @ rest\<rparr>)
     = (Inr (take 255 addr, port mod 65536), s\<lparr>sk_in := rest\<rparr>)"
  by (rule socks5Request_connect_bytes)

end
