(* ===== verification/Json.thy ===== *)
theory Json
  imports Go_Std
begin

text \<open>
  \<open>encoding/json\<close> as the sources use it: the text of a value as \<open>json.Marshal\<close> writes it
  (compact, HTML-safe escapes), and the parser behind \<open>json.Unmarshal\<close> (the grammar of its
  scanner, unquoting with surrogate pairs and the replacement of invalid UTF-8, the nesting
  limit). A number is kept as its literal. The main result is that parsing the text of a value
  gives the value back.
\<close>

datatype json =
    JNull
  | JBool bool
  | JNum string
  | JStr string
  | JArr "json list"
  | JObj "(string \<times> json) list"

section \<open>UTF-8\<close>

abbreviation cp :: "char \<Rightarrow> nat" where
  "cp c \<equiv> of_char c"

definition cont :: "nat \<Rightarrow> nat \<Rightarrow> char \<Rightarrow> bool" where
  "cont lo hi c \<longleftrightarrow> lo \<le> cp c \<and> cp c \<le> hi"

text \<open>\<open>utf8.DecodeRune\<close>: the size of the encoding a string starts with, \<open>None\<close> when it is invalid.\<close>

definition rune_size :: "string \<Rightarrow> nat option" where
  "rune_size s =
     (case s of
        [] \<Rightarrow> None
      | c # t \<Rightarrow>
         (let b = cp c; second = (\<lambda>lo hi. t \<noteq> [] \<and> cont lo hi (t ! 0));
              more = (\<lambda>i. i < length t \<and> cont 0x80 0xBF (t ! i))
          in if b < 0x80 then Some 1
             else if 0xC2 \<le> b \<and> b \<le> 0xDF \<and> second 0x80 0xBF then Some 2
             else if b = 0xE0 \<and> second 0xA0 0xBF \<and> more 1 then Some 3
             else if b = 0xED \<and> second 0x80 0x9F \<and> more 1 then Some 3
             else if 0xE1 \<le> b \<and> b \<le> 0xEF \<and> b \<noteq> 0xED \<and> second 0x80 0xBF \<and> more 1 then Some 3
             else if b = 0xF0 \<and> second 0x90 0xBF \<and> more 1 \<and> more 2 then Some 4
             else if 0xF1 \<le> b \<and> b \<le> 0xF3 \<and> second 0x80 0xBF \<and> more 1 \<and> more 2 then Some 4
             else if b = 0xF4 \<and> second 0x80 0x8F \<and> more 1 \<and> more 2 then Some 4
             else None))"

text \<open>\<open>utf8.AppendRune\<close> for a code point that is not a surrogate.\<close>

definition encode_rune :: "nat \<Rightarrow> string" where
  "encode_rune r =
     (if r < 0x80 then [char_of r]
      else if r < 0x800 then [char_of (0xC0 + r div 64), char_of (0x80 + r mod 64)]
      else if r < 0x10000
        then [char_of (0xE0 + r div 4096), char_of (0x80 + r div 64 mod 64), char_of (0x80 + r mod 64)]
      else [char_of (0xF0 + r div 262144), char_of (0x80 + r div 4096 mod 64),
            char_of (0x80 + r div 64 mod 64), char_of (0x80 + r mod 64)])"

definition RuneError :: nat where "RuneError = 0xFFFD"

section \<open>Writing\<close>

definition quote_char :: char where "quote_char = CHR 0x22"
definition backslash :: char where "backslash = CHR 0x5C"

definition hex2 :: "nat \<Rightarrow> string" where
  "hex2 n = [hex_digit (n div 16), hex_digit (n mod 16)]"

definition escape_ascii :: "char \<Rightarrow> string" where
  "escape_ascii c =
     (if c = quote_char \<or> c = backslash then [backslash, c]
      else if c = CHR 0x08 then [backslash, CHR ''b'']
      else if c = CHR 0x0C then [backslash, CHR ''f'']
      else if c = CHR 0x0A then [backslash, CHR ''n'']
      else if c = CHR 0x0D then [backslash, CHR ''r'']
      else if c = CHR 0x09 then [backslash, CHR ''t'']
      else if cp c < 0x20 \<or> c \<in> {CHR ''<'', CHR ''>'', CHR ''&''} then [backslash, CHR ''u'', CHR ''0'', CHR ''0''] @ hex2 (cp c)
      else [c])"

function quote_body :: "string \<Rightarrow> string" where
  "quote_body [] = []"
| "quote_body (c # s) =
     (if cp c < 0x80 then escape_ascii c @ quote_body s
      else (case rune_size (c # s) of
              None \<Rightarrow> [backslash] @ ''ufffd'' @ quote_body s
            | Some n \<Rightarrow>
                (let r = take (max 1 n) (c # s) in
                 (if r = [CHR 0xE2, CHR 0x80, CHR 0xA8] then [backslash] @ ''u2028''
                  else if r = [CHR 0xE2, CHR 0x80, CHR 0xA9] then [backslash] @ ''u2029''
                  else r) @ quote_body (drop (max 1 n) (c # s)))))"
  by pat_completeness auto
termination
  by (relation "measure length") auto

definition quote :: "string \<Rightarrow> string" where
  "quote s = [quote_char] @ quote_body s @ [quote_char]"

fun join_comma :: "string list \<Rightarrow> string" where
  "join_comma [] = []"
| "join_comma [x] = x"
| "join_comma (x # xs) = x @ '','' @ join_comma xs"

fun json_text :: "json \<Rightarrow> string" where
  "json_text JNull = ''null''"
| "json_text (JBool b) = (if b then ''true'' else ''false'')"
| "json_text (JNum s) = s"
| "json_text (JStr s) = quote s"
| "json_text (JArr vs) = ''['' @ join_comma (map json_text vs) @ '']''"
| "json_text (JObj ms) = ''{'' @ join_comma (map (\<lambda>(k, v). quote k @ '':'' @ json_text v) ms) @ ''}''"

section \<open>Reading strings and numbers\<close>

definition hex4 :: "string \<Rightarrow> nat option" where
  "hex4 s =
     (case map hex_val (take 4 s) of
        [Some a, Some b, Some c, Some d] \<Rightarrow> Some (4096 * a + 256 * b + 16 * c + d)
      | _ \<Rightarrow> None)"

definition escaped_char :: "char \<Rightarrow> char option" where
  "escaped_char e =
     (if e \<in> {quote_char, backslash, CHR ''/''} then Some e
      else if e = CHR ''b'' then Some (CHR 0x08)
      else if e = CHR ''f'' then Some (CHR 0x0C)
      else if e = CHR ''n'' then Some (CHR 0x0A)
      else if e = CHR ''r'' then Some (CHR 0x0D)
      else if e = CHR ''t'' then Some (CHR 0x09)
      else None)"

text \<open>The second half of a surrogate pair, when one follows.\<close>

definition low_surrogate :: "string \<Rightarrow> nat option" where
  "low_surrogate s =
     (if take 2 s = [backslash, CHR ''u'']
      then (case hex4 (drop 2 s) of
              Some r \<Rightarrow> if 0xDC00 \<le> r \<and> r < 0xE000 then Some r else None
            | None \<Rightarrow> None)
      else None)"

definition prepend :: "string \<Rightarrow> (string \<times> string) option \<Rightarrow> (string \<times> string) option" where
  "prepend p r = map_option (\<lambda>(s, rest). (p @ s, rest)) r"

text \<open>The rest of a string literal after its opening quote: its value and what follows it.\<close>

function unquote :: "string \<Rightarrow> (string \<times> string) option" where
  "unquote [] = None"
| "unquote (c # s) =
     (if c = quote_char then Some ([], s)
      else if c = backslash
        then (case s of
                [] \<Rightarrow> None
              | e # s' \<Rightarrow>
                  if e = CHR ''u''
                  then (case hex4 s' of
                          None \<Rightarrow> None
                        | Some r \<Rightarrow>
                            if 0xD800 \<le> r \<and> r < 0xE000
                            then (case (if r < 0xDC00 then low_surrogate (drop 4 s') else None) of
                                    Some r2 \<Rightarrow>
                                      prepend (encode_rune (0x10000 + (r - 0xD800) * 0x400 + (r2 - 0xDC00)))
                                        (unquote (drop 10 s'))
                                  | None \<Rightarrow> prepend (encode_rune RuneError) (unquote (drop 4 s')))
                            else prepend (encode_rune r) (unquote (drop 4 s')))
                  else (case escaped_char e of
                          None \<Rightarrow> None
                        | Some c' \<Rightarrow> prepend [c'] (unquote s')))
      else if cp c < 0x20 then None
      else (case rune_size (c # s) of
              None \<Rightarrow> prepend (encode_rune RuneError) (unquote s)
            | Some n \<Rightarrow> prepend (take (max 1 n) (c # s)) (unquote (drop (max 1 n) (c # s)))))"
  by pat_completeness auto
termination
  by (relation "measure length") auto

definition digits1 :: "string \<Rightarrow> (string \<times> string) option" where
  "digits1 s = (let d = takeWhile is_digit s in if d = [] then None else Some (d, drop (length d) s))"

definition num_int :: "string \<Rightarrow> (string \<times> string) option" where
  "num_int s =
     (case s of
        [] \<Rightarrow> None
      | c # t \<Rightarrow> if c = CHR ''0'' then Some ([c], t) else digits1 s)"

definition num_frac :: "string \<Rightarrow> (string \<times> string) option" where
  "num_frac s =
     (case s of
        [] \<Rightarrow> Some ([], [])
      | c # t \<Rightarrow> if c = CHR ''.'' then map_option (\<lambda>(d, r). (c # d, r)) (digits1 t) else Some ([], s))"

definition num_exp :: "string \<Rightarrow> (string \<times> string) option" where
  "num_exp s =
     (case s of
        [] \<Rightarrow> Some ([], [])
      | c # t \<Rightarrow>
          if c = CHR ''e'' \<or> c = CHR ''E''
          then (let sign = takeWhile (\<lambda>x. x = CHR ''+'' \<or> x = CHR ''-'') (take 1 t) in
                map_option (\<lambda>(d, r). (c # sign @ d, r)) (digits1 (drop (length sign) t)))
          else Some ([], s))"

definition json_number :: "string \<Rightarrow> (string \<times> string) option" where
  "json_number s =
     (let sign = takeWhile (\<lambda>x. x = CHR ''-'') (take 1 s) in
      case num_int (drop (length sign) s) of
        None \<Rightarrow> None
      | Some (i, s1) \<Rightarrow>
     (case num_frac s1 of
        None \<Rightarrow> None
      | Some (f, s2) \<Rightarrow>
     (case num_exp s2 of
        None \<Rightarrow> None
      | Some (e, s3) \<Rightarrow> Some (sign @ i @ f @ e, s3))))"

section \<open>Reading values\<close>

definition is_ws :: "char \<Rightarrow> bool" where
  "is_ws c \<longleftrightarrow> c \<in> {CHR '' '', CHR 0x09, CHR 0x0A, CHR 0x0D}"

definition skip_ws :: "string \<Rightarrow> string" where
  "skip_ws s = dropWhile is_ws s"

definition literal :: "string \<Rightarrow> json \<Rightarrow> string \<Rightarrow> (json \<times> string) option" where
  "literal w v s = (if HasPrefix s w then Some (v, drop (length w) s) else None)"

text \<open>
  The first argument bounds the recursion, the second is the nesting still allowed
  (\<open>maxNestingDepth\<close>, 10000). Between two calls of \<open>json_value\<close> at least one byte is consumed, so
  \<open>2 * length s + 2\<close> is enough.
\<close>

fun json_value :: "nat \<Rightarrow> nat \<Rightarrow> string \<Rightarrow> (json \<times> string) option"
  and json_elems :: "nat \<Rightarrow> nat \<Rightarrow> string \<Rightarrow> (json list \<times> string) option"
  and json_members :: "nat \<Rightarrow> nat \<Rightarrow> string \<Rightarrow> ((string \<times> json) list \<times> string) option" where
  "json_value 0 d s = None"
| "json_value (Suc n) d s =
     (case skip_ws s of
        [] \<Rightarrow> None
      | c # t \<Rightarrow>
         if c = CHR ''{''
         then (if d = 0 then None
               else (case skip_ws t of
                       [] \<Rightarrow> None
                     | c' # t' \<Rightarrow>
                         if c' = CHR ''}'' then Some (JObj [], t')
                         else map_option (\<lambda>(ms, r). (JObj ms, r)) (json_members n (d - 1) (c' # t'))))
         else if c = CHR ''[''
         then (if d = 0 then None
               else (case skip_ws t of
                       [] \<Rightarrow> None
                     | c' # t' \<Rightarrow>
                         if c' = CHR '']'' then Some (JArr [], t')
                         else map_option (\<lambda>(vs, r). (JArr vs, r)) (json_elems n (d - 1) (c' # t'))))
         else if c = quote_char then map_option (\<lambda>(s, r). (JStr s, r)) (unquote t)
         else if c = CHR ''n'' then literal ''null'' JNull (c # t)
         else if c = CHR ''t'' then literal ''true'' (JBool True) (c # t)
         else if c = CHR ''f'' then literal ''false'' (JBool False) (c # t)
         else map_option (\<lambda>(l, r). (JNum l, r)) (json_number (c # t)))"
| "json_elems 0 d s = None"
| "json_elems (Suc n) d s =
     (case json_value n d s of
        None \<Rightarrow> None
      | Some (v, r) \<Rightarrow>
          (case skip_ws r of
             [] \<Rightarrow> None
           | c # t \<Rightarrow>
               if c = CHR '']'' then Some ([v], t)
               else if c = CHR '','' then map_option (\<lambda>(vs, r'). (v # vs, r')) (json_elems n d t)
               else None))"
| "json_members 0 d s = None"
| "json_members (Suc n) d s =
     (case skip_ws s of
        [] \<Rightarrow> None
      | q # s1 \<Rightarrow>
         if q \<noteq> quote_char then None
         else (case unquote s1 of
                 None \<Rightarrow> None
               | Some (k, r1) \<Rightarrow>
         (case skip_ws r1 of
            [] \<Rightarrow> None
          | c # r2 \<Rightarrow>
             if c \<noteq> CHR '':'' then None
             else (case json_value n d r2 of
                     None \<Rightarrow> None
                   | Some (v, r3) \<Rightarrow>
             (case skip_ws r3 of
                [] \<Rightarrow> None
              | c' # t \<Rightarrow>
                  if c' = CHR ''}'' then Some ([(k, v)], t)
                  else if c' = CHR '','' then map_option (\<lambda>(ms, r'). ((k, v) # ms, r')) (json_members n d t)
                  else None)))))"

definition json_parse :: "string \<Rightarrow> json option" where
  "json_parse s =
     (case json_value (2 * length s + 2) 10000 s of
        None \<Rightarrow> None
      | Some (v, r) \<Rightarrow> if skip_ws r = [] then Some v else None)"

section \<open>Decoding into Go values\<close>

text \<open>\<open>strconv.ParseInt\<close> in base 10 with 64 bits, which decides whether a number literal fits an
  \<open>int\<close> field.\<close>

definition ParseInt :: "string \<Rightarrow> int option" where
  "ParseInt s =
     (let sign = takeWhile (\<lambda>x. x = CHR ''+'' \<or> x = CHR ''-'') (take 1 s); ds = drop (length sign) s;
          i = (if sign = ''-'' then - int (dec_value ds) else int (dec_value ds))
      in if ds \<noteq> [] \<and> list_all is_digit ds \<and> - (2 ^ 63) \<le> i \<and> i < 2 ^ 63 then Some i else None)"

text \<open>A value stored into a field that holds \<open>old\<close>: \<open>null\<close> leaves it, another type is an error.\<close>

definition store_string :: "json \<Rightarrow> string \<Rightarrow> string option" where
  "store_string v old = (case v of JStr s \<Rightarrow> Some s | JNull \<Rightarrow> Some old | _ \<Rightarrow> None)"

definition store_int :: "json \<Rightarrow> int \<Rightarrow> int option" where
  "store_int v old = (case v of JNum l \<Rightarrow> ParseInt l | JNull \<Rightarrow> Some old | _ \<Rightarrow> None)"

definition store_bool :: "json \<Rightarrow> bool \<Rightarrow> bool option" where
  "store_bool v old = (case v of JBool b \<Rightarrow> Some b | JNull \<Rightarrow> Some old | _ \<Rightarrow> None)"

text \<open>The members of an object in order, each stored into the field it names; the outcome is \<open>None\<close>
  when any of them has the wrong type. Anything but an object or \<open>null\<close> is an error.\<close>

definition store_object :: "(string \<Rightarrow> json \<Rightarrow> 'r \<Rightarrow> 'r option) \<Rightarrow> json \<Rightarrow> 'r \<Rightarrow> 'r option" where
  "store_object store v zero =
     (case v of
        JNull \<Rightarrow> Some zero
      | JObj ms \<Rightarrow>
          foldl (\<lambda>acc (k, x). case acc of None \<Rightarrow> None | Some r \<Rightarrow> store k x r) (Some zero) ms
      | _ \<Rightarrow> None)"

definition Unmarshal :: "(string \<Rightarrow> json \<Rightarrow> 'r \<Rightarrow> 'r option) \<Rightarrow> string \<Rightarrow> 'r \<Rightarrow> 'r option" where
  "Unmarshal store s zero =
     (case json_parse s of None \<Rightarrow> None | Some v \<Rightarrow> store_object store v zero)"

section \<open>Round trip\<close>

definition ascii :: "string \<Rightarrow> bool" where
  "ascii s \<longleftrightarrow> (\<forall>c\<in>set s. cp c < 0x80)"

lemma ascii_simps [simp]:
  "ascii []" "ascii (c # s) \<longleftrightarrow> cp c < 0x80 \<and> ascii s" "ascii (s @ t) \<longleftrightarrow> ascii s \<and> ascii t"
  by (auto simp: ascii_def)

declare unquote.simps [simp del] quote_body.simps [simp del]

lemma escape_ascii_cases:
  obtains (named) e where "escape_ascii c = [backslash, e]" "escaped_char e = Some c" "e \<noteq> CHR ''u''"
  | (hex) "escape_ascii c = [backslash, CHR ''u'', CHR ''0'', CHR ''0''] @ hex2 (cp c)" "cp c < 0x80"
  | (plain) "escape_ascii c = [c]" "c \<noteq> quote_char" "c \<noteq> backslash" "0x20 \<le> cp c"
proof -
  have u: "CHR ''b'' \<noteq> CHR ''u''" "CHR ''f'' \<noteq> CHR ''u''" "CHR ''n'' \<noteq> CHR ''u''" "CHR ''r'' \<noteq> CHR ''u''"
    "CHR ''t'' \<noteq> CHR ''u''" by simp_all
  consider "c = quote_char" | "c = backslash" | "c = CHR 0x08" | "c = CHR 0x0C" | "c = CHR 0x0A"
    | "c = CHR 0x0D" | "c = CHR 0x09" | "c \<in> {CHR ''<'', CHR ''>'', CHR ''&''}"
    | "c \<notin> {quote_char, backslash, CHR 0x08, CHR 0x0C, CHR 0x0A, CHR 0x0D, CHR 0x09, CHR ''<'', CHR ''>'', CHR ''&''}"
    by blast
  then show ?thesis
  proof cases
    case 1
    then show ?thesis by (intro named [of quote_char]) (simp_all add: escape_ascii_def escaped_char_def quote_char_def)
  next
    case 2
    then show ?thesis by (intro named [of backslash]) (simp_all add: escape_ascii_def escaped_char_def backslash_def)
  next
    case 3
    then show ?thesis
      by (intro named [of "CHR ''b''"]) (simp_all add: escape_ascii_def escaped_char_def quote_char_def backslash_def)
  next
    case 4
    then show ?thesis
      by (intro named [of "CHR ''f''"]) (simp_all add: escape_ascii_def escaped_char_def quote_char_def backslash_def)
  next
    case 5
    then show ?thesis
      by (intro named [of "CHR ''n''"]) (simp_all add: escape_ascii_def escaped_char_def quote_char_def backslash_def)
  next
    case 6
    then show ?thesis
      by (intro named [of "CHR ''r''"]) (simp_all add: escape_ascii_def escaped_char_def quote_char_def backslash_def)
  next
    case 7
    then show ?thesis
      by (intro named [of "CHR ''t''"]) (simp_all add: escape_ascii_def escaped_char_def quote_char_def backslash_def)
  next
    case 8
    then show ?thesis by (intro hex) (auto simp: escape_ascii_def quote_char_def backslash_def)
  next
    case 9
    show ?thesis
    proof (cases "cp c < 0x20")
      case True
      with 9 show ?thesis by (intro hex) (simp_all add: escape_ascii_def)
    next
      case False
      with 9 show ?thesis by (intro plain) (simp_all add: escape_ascii_def)
    qed
  qed
qed

lemma hex4_00: "n < 256 \<Longrightarrow> hex4 ([CHR ''0'', CHR ''0''] @ hex2 n @ t) = Some n"
proof -
  assume "n < 256"
  then have "n div 16 < 16" "n mod 16 < 16" by auto
  moreover have "hex_val (CHR ''0'') = Some 0" by (simp add: hex_val_def)
  ultimately show ?thesis by (simp add: hex4_def hex2_def)
qed

lemma backslash_quote: "backslash \<noteq> quote_char"
  by (simp add: quote_char_def backslash_def)

lemma unquote_escape:
  assumes "cp c < 0x80"
  shows "unquote (escape_ascii c @ t) = prepend [c] (unquote t)"
proof (cases rule: escape_ascii_cases [of c])
  case (named e)
  then show ?thesis
    by (simp add: unquote.simps(2) [of backslash] backslash_quote)
next
  case hex
  have "encode_rune (cp c) = [c]" using hex(2) by (simp add: encode_rune_def)
  moreover have "hex4 ([CHR ''0'', CHR ''0''] @ hex2 (cp c) @ t) = Some (cp c)"
    using hex(2) by (intro hex4_00) simp
  ultimately show ?thesis
    using hex by (simp add: unquote.simps(2) [of backslash] backslash_quote hex2_def)
next
  case plain
  with assms show ?thesis
    by (simp add: unquote.simps(2) [of c] rune_size_def Let_def)
qed

lemma unquote_quote_body:
  "ascii s \<Longrightarrow> unquote (quote_body s @ quote_char # rest) = Some (s, rest)"
proof (induction s)
  case Nil
  then show ?case by (simp add: quote_body.simps(1) unquote.simps(2) [of quote_char])
next
  case (Cons c s)
  then show ?case
    by (simp add: quote_body.simps(2) [of c] unquote_escape prepend_def)
qed

text \<open>Where a number may end.\<close>

definition stop :: "string \<Rightarrow> bool" where
  "stop r \<longleftrightarrow> r = [] \<or> hd r \<in> {CHR '','', CHR ''}'', CHR '']''}"

lemma stopE: "stop r \<Longrightarrow> (r = [] \<Longrightarrow> P) \<Longrightarrow>
   (\<And>c t. r = c # t \<Longrightarrow> \<not> is_digit c \<Longrightarrow> c \<noteq> CHR ''.'' \<Longrightarrow> c \<noteq> CHR ''e'' \<Longrightarrow> c \<noteq> CHR ''E'' \<Longrightarrow> P) \<Longrightarrow> P"
  by (cases r) (auto simp: stop_def is_digit_def)

lemma hd_dec_digits: "0 < n \<Longrightarrow> hd (dec_digits n) \<noteq> CHR ''0''"
proof (induction n rule: dec_digits.induct)
  case (1 n)
  show ?case
  proof (cases "n < 10")
    case True
    then have "n \<in> {1,2,3,4,5,6,7,8,9}" using 1 by auto
    then show ?thesis by (auto simp: dec_digits.simps [of n] char_of_def)
  next
    case False
    then have "0 < n div 10" by simp
    with 1 False show ?thesis by (simp add: dec_digits.simps [of n])
  qed
qed

lemma digits_num:
  assumes "stop r"
  shows "num_int (dec_digits n @ r) = Some (dec_digits n, r)"
proof (cases "n = 0")
  case True
  have "char_of (48 :: nat) = CHR ''0''" using char_of_char [of "CHR ''0''"] by simp
  with True show ?thesis by (simp add: dec_digits.simps num_int_def)
next
  case False
  have all: "\<forall>c\<in>set (dec_digits n). is_digit c" by (auto intro: dec_digits_digit)
  have "takeWhile is_digit r = []" using assms by (rule stopE) auto
  then have tw: "takeWhile is_digit (dec_digits n @ r) = dec_digits n"
    using all by (simp add: takeWhile_append2)
  obtain c t where ct: "dec_digits n = c # t" by (cases "dec_digits n") auto
  then have "c \<noteq> CHR ''0''" using hd_dec_digits [of n] False by simp
  then show ?thesis using tw ct by (simp add: num_int_def digits1_def)
qed

lemma num_tail: "stop r \<Longrightarrow> num_frac r = Some ([], r)" "stop r \<Longrightarrow> num_exp r = Some ([], r)"
  by (erule stopE; simp add: num_frac_def num_exp_def)+

lemma json_number_Itoa: "stop r \<Longrightarrow> json_number (Itoa i @ r) = Some (Itoa i, r)"
proof -
  assume r: "stop r"
  have nd: "\<not> is_digit (CHR ''-'')" by (simp add: is_digit_def)
  obtain c t where ct: "dec_digits (nat i) = c # t" by (cases "dec_digits (nat i)") auto
  then have "c \<noteq> CHR ''-''" using dec_digits_digit [of c "nat i"] nd by auto
  then show ?thesis
    using digits_num [OF r, of "nat (- i)"] digits_num [OF r, of "nat i"] num_tail [OF r] ct
    by (auto simp: json_number_def Itoa_def Let_def)
qed

fun json_ok :: "json \<Rightarrow> bool" where
  "json_ok (JNum l) \<longleftrightarrow> (\<exists>i. l = Itoa i)"
| "json_ok (JStr s) \<longleftrightarrow> ascii s"
| "json_ok (JArr vs) \<longleftrightarrow> list_all json_ok vs"
| "json_ok (JObj ms) \<longleftrightarrow> list_all (\<lambda>(k, v). ascii k \<and> json_ok v) ms"
| "json_ok _ \<longleftrightarrow> True"

fun json_depth :: "json \<Rightarrow> nat" where
  "json_depth (JArr vs) = Suc (foldr max (map json_depth vs) 0)"
| "json_depth (JObj ms) = Suc (foldr max (map (\<lambda>(k, v). json_depth v) ms) 0)"
| "json_depth _ = 0"

definition first_char :: "string \<Rightarrow> bool" where
  "first_char s \<longleftrightarrow> s \<noteq> [] \<and> \<not> is_ws (hd s) \<and> hd s \<notin> {CHR ''}'', CHR '']'', CHR '','', CHR '':''}"

lemma first_char_Itoa: "first_char (Itoa i)" "hd (Itoa i) = CHR ''-'' \<or> is_digit (hd (Itoa i))"
proof -
  have "is_digit (hd (dec_digits (nat i)))" by (rule dec_digits_digit [of _ "nat i"]) simp
  then show "hd (Itoa i) = CHR ''-'' \<or> is_digit (hd (Itoa i))" "first_char (Itoa i)"
    by (auto simp: Itoa_def first_char_def is_digit_def is_ws_def)
qed

lemma first_char_json_text: "json_ok v \<Longrightarrow> first_char (json_text v)"
  by (cases v) (auto simp: first_char_Itoa quote_def, auto simp: first_char_def is_ws_def quote_char_def)

lemma skip_first: "first_char s \<Longrightarrow> skip_ws (s @ r) = s @ r"
  by (cases s) (simp_all add: first_char_def skip_ws_def)

lemma skip_char [simp]:
  "skip_ws (CHR '','' # r) = CHR '','' # r" "skip_ws (CHR ''}'' # r) = CHR ''}'' # r"
  "skip_ws (CHR '']'' # r) = CHR '']'' # r" "skip_ws (CHR '':'' # r) = CHR '':'' # r"
  "skip_ws (quote_char # r) = quote_char # r"
  by (simp_all add: skip_ws_def is_ws_def quote_char_def)

lemma stop_simps [simp]:
  "stop []" "stop (CHR '','' # r)" "stop (CHR ''}'' # r)" "stop (CHR '']'' # r)"
  by (simp_all add: stop_def)


definition member_text :: "string \<times> json \<Rightarrow> string" where
  "member_text = (\<lambda>(k, v). quote k @ '':'' @ json_text v)"

lemma json_text_JObj: "json_text (JObj ms) = ''{'' @ join_comma (map member_text ms) @ ''}''"
  by (simp add: member_text_def)

lemma join_comma_Cons: "join_comma (x # xs) = (if xs = [] then x else x @ '','' @ join_comma xs)"
  by (cases xs) simp_all

lemma first_char_join: "xs \<noteq> [] \<Longrightarrow> first_char (hd xs) \<Longrightarrow> first_char (join_comma xs)"
  by (cases xs) (auto simp: join_comma_Cons first_char_def)

lemma first_char_member: "first_char (member_text m)"
  by (cases m) (simp add: member_text_def quote_def first_char_def quote_char_def is_ws_def)

definition value_round :: "nat \<Rightarrow> bool" where
  "value_round n \<longleftrightarrow> (\<forall>d v r. json_ok v \<longrightarrow> json_depth v \<le> d \<longrightarrow> stop r \<longrightarrow> 2 * length (json_text v) \<le> n \<longrightarrow>
     json_value n d (json_text v @ r) = Some (v, r))"

definition elems_round :: "nat \<Rightarrow> bool" where
  "elems_round n \<longleftrightarrow> (\<forall>d vs r. list_all json_ok vs \<longrightarrow> vs \<noteq> [] \<longrightarrow> foldr max (map json_depth vs) 0 \<le> d \<longrightarrow>
     2 * length (join_comma (map json_text vs)) < n \<longrightarrow>
     json_elems n d (join_comma (map json_text vs) @ CHR '']'' # r) = Some (vs, r))"

definition members_round :: "nat \<Rightarrow> bool" where
  "members_round n \<longleftrightarrow> (\<forall>d ms r. list_all (\<lambda>(k, v). ascii k \<and> json_ok v) ms \<longrightarrow> ms \<noteq> [] \<longrightarrow>
     foldr max (map (\<lambda>(k, v). json_depth v) ms) 0 \<le> d \<longrightarrow>
     2 * length (join_comma (map member_text ms)) < n \<longrightarrow>
     json_members n d (join_comma (map member_text ms) @ CHR ''}'' # r) = Some (ms, r))"

lemma elems_step: "value_round n \<Longrightarrow> elems_round n \<Longrightarrow> elems_round (Suc n)"
  unfolding elems_round_def
proof (intro allI impI)
  fix d vs r
  assume val: "value_round n" and
    IH: "\<forall>d vs r. list_all json_ok vs \<longrightarrow> vs \<noteq> [] \<longrightarrow> foldr max (map json_depth vs) 0 \<le> d \<longrightarrow>
     2 * length (join_comma (map json_text vs)) < n \<longrightarrow>
     json_elems n d (join_comma (map json_text vs) @ CHR '']'' # r) = Some (vs, r)"
    and ok: "list_all json_ok vs" "vs \<noteq> []" "foldr max (map json_depth vs) 0 \<le> d"
      "2 * length (join_comma (map json_text vs)) < Suc n"
  then obtain v ws where vs: "vs = v # ws" by (cases vs) auto
  define tl where "tl = (if ws = [] then CHR '']'' # r else CHR '','' # join_comma (map json_text ws) @ CHR '']'' # r)"
  have eq: "join_comma (map json_text vs) @ CHR '']'' # r = json_text v @ tl"
    by (simp add: vs tl_def join_comma_Cons)
  have "json_value n d (json_text v @ tl) = Some (v, tl)"
    using val ok vs by (auto simp: value_round_def tl_def join_comma_Cons)
  then show "json_elems (Suc n) d (join_comma (map json_text vs) @ CHR '']'' # r) = Some (vs, r)"
    unfolding eq using IH ok vs by (auto simp: tl_def join_comma_Cons)
qed

lemma members_step: "value_round n \<Longrightarrow> members_round n \<Longrightarrow> members_round (Suc n)"
  unfolding members_round_def
proof (intro allI impI)
  fix d ms r
  assume val: "value_round n" and
    IH: "\<forall>d ms r. list_all (\<lambda>(k, v). ascii k \<and> json_ok v) ms \<longrightarrow> ms \<noteq> [] \<longrightarrow>
     foldr max (map (\<lambda>(k, v). json_depth v) ms) 0 \<le> d \<longrightarrow>
     2 * length (join_comma (map member_text ms)) < n \<longrightarrow>
     json_members n d (join_comma (map member_text ms) @ CHR ''}'' # r) = Some (ms, r)"
    and ok: "list_all (\<lambda>(k, v). ascii k \<and> json_ok v) ms" "ms \<noteq> []"
      "foldr max (map (\<lambda>(k, v). json_depth v) ms) 0 \<le> d"
      "2 * length (join_comma (map member_text ms)) < Suc n"
  then obtain k v ws where ms: "ms = (k, v) # ws" by (cases ms) auto
  define tl where "tl = (if ws = [] then CHR ''}'' # r else CHR '','' # join_comma (map member_text ws) @ CHR ''}'' # r)"
  have eq: "join_comma (map member_text ms) @ CHR ''}'' # r
      = quote_char # quote_body k @ quote_char # CHR '':'' # json_text v @ tl"
    by (simp add: ms tl_def join_comma_Cons member_text_def quote_def)
  have "json_value n d (json_text v @ tl) = Some (v, tl)"
    using val ok ms by (auto simp: value_round_def tl_def join_comma_Cons member_text_def)
  moreover have "ascii k" using ok ms by simp
  ultimately show "json_members (Suc n) d (join_comma (map member_text ms) @ CHR ''}'' # r) = Some (ms, r)"
    unfolding eq using IH ok ms by (auto simp: tl_def join_comma_Cons unquote_quote_body)
qed

lemma value_step: "elems_round n \<Longrightarrow> members_round n \<Longrightarrow> value_round (Suc n)"
  unfolding value_round_def
proof (intro allI impI)
  fix d v r
  assume el: "elems_round n" and mb: "members_round n" and ok: "json_ok v" and d: "json_depth v \<le> d"
    and st: "stop r" and n: "2 * length (json_text v) \<le> Suc n"
  have sk: "skip_ws (json_text v @ r) = json_text v @ r"
    by (rule skip_first [OF first_char_json_text [OF ok]])
  show "json_value (Suc n) d (json_text v @ r) = Some (v, r)"
  proof (cases v)
    case (JNum l)
    then obtain i where l: "l = Itoa i" using ok by auto
    obtain c t where ct: "Itoa i = c # t" using first_char_Itoa(1) [of i] by (cases "Itoa i") (auto simp: first_char_def)
    then have "c = CHR ''-'' \<or> is_digit c" using first_char_Itoa(2) [of i] by simp
    then have "c \<notin> {CHR ''{'', CHR ''['', quote_char, CHR ''n'', CHR ''t'', CHR ''f''}"
      by (auto simp: is_digit_def quote_char_def)
    with json_number_Itoa [OF st, of i] ct l JNum sk show ?thesis by simp
  next
    case (JStr s)
    then show ?thesis using ok sk
      by (simp add: quote_def unquote_quote_body) (simp add: quote_char_def)
  next
    case (JArr vs)
    show ?thesis
    proof (cases "vs = []")
      case True
      with JArr d sk show ?thesis by (simp add: quote_char_def)
    next
      case False
      let ?j = "join_comma (map json_text vs)"
      have fc: "first_char ?j"
        using False ok JArr by (cases vs) (auto intro!: first_char_join first_char_json_text)
      then obtain c t where ct: "?j = c # t" "c \<noteq> CHR '']''" by (cases ?j) (auto simp: first_char_def)
      have "json_elems n (d - 1) (?j @ CHR '']'' # r) = Some (vs, r)"
        using el False ok d n JArr by (simp add: elems_round_def)
      then show ?thesis using JArr d sk ct skip_first [OF fc, of "CHR '']'' # r"] by simp
    qed
  next
    case (JObj ms)
    show ?thesis
    proof (cases "ms = []")
      case True
      with JObj d sk show ?thesis by (simp add: quote_char_def)
    next
      case False
      let ?j = "join_comma (map member_text ms)"
      have fc: "first_char ?j"
        using False by (cases ms) (auto intro!: first_char_join first_char_member)
      then obtain c t where ct: "?j = c # t" "c \<noteq> CHR ''}''" by (cases ?j) (auto simp: first_char_def)
      have "json_members n (d - 1) (?j @ CHR ''}'' # r) = Some (ms, r)"
        using mb False ok d n JObj by (simp add: members_round_def json_text_JObj del: json_text.simps)
      then show ?thesis using JObj d sk ct skip_first [OF fc, of "CHR ''}'' # r"]
        by (simp add: json_text_JObj del: json_text.simps)
    qed
  qed (use sk in \<open>auto simp: literal_def quote_char_def HasPrefix_def\<close>)
qed

lemma json_text_nonempty: "json_ok v \<Longrightarrow> json_text v \<noteq> []"
  using first_char_json_text by (auto simp: first_char_def)

lemma rounds: "value_round n \<and> elems_round n \<and> members_round n"
proof (induction n)
  case 0
  show ?case
    by (auto simp: value_round_def elems_round_def members_round_def json_text_nonempty)
next
  case (Suc n)
  then show ?case by (simp add: value_step elems_step members_step)
qed

text \<open>Parsing the text of a value gives the value back.\<close>

lemma json_parse_text:
  assumes "json_ok v" and "json_depth v \<le> 10000"
  shows "json_parse (json_text v) = Some v"
proof -
  have "json_value (2 * length (json_text v) + 2) 10000 (json_text v @ []) = Some (v, [])"
    using rounds [of "2 * length (json_text v) + 2", THEN conjunct1, unfolded value_round_def,
        rule_format, OF assms, of "[]"] by simp
  then show ?thesis by (simp add: json_parse_def skip_ws_def del: json_value.simps)
qed

lemma ParseInt_Itoa:
  assumes "- (2 ^ 63) \<le> i" and "i < 2 ^ 63"
  shows "ParseInt (Itoa i) = Some i"
proof -
  have all: "list_all is_digit (dec_digits n)" for n
    by (auto simp: list_all_iff intro: dec_digits_digit)
  obtain c t where ct: "dec_digits (nat i) = c # t" by (cases "dec_digits (nat i)") auto
  then have "is_digit c" using dec_digits_digit [of c "nat i"] by simp
  then have "c \<noteq> CHR ''-''" "c \<noteq> CHR ''+''" by (auto simp: is_digit_def)
  with assms ct all [of "nat i"] all [of "nat (- i)"] dec_value_digits [of "nat i"] show ?thesis
    by (auto simp: ParseInt_def Itoa_def Let_def)
qed

lemma Unmarshal_text:
  assumes "json_ok (JObj ms)" and "json_depth (JObj ms) \<le> 10000"
  shows "Unmarshal store (json_text (JObj ms)) zero =
     foldl (\<lambda>acc (k, x). case acc of None \<Rightarrow> None | Some r \<Rightarrow> store k x r) (Some zero) ms"
  unfolding Unmarshal_def json_parse_text [OF assms] by (simp add: store_object_def)

end
