(* ===== verification/Server.thy ===== *)
theory Server
  imports Session Muxconn Socks Json
begin

text \<open>
  \<open>internal/server/server.go\<close>: bringing the link up, the smux session and its replacement, the
  accept loop, and the handling of one stream: the connect request, its authorisation and the
  dial.

  Pointers are indices: a connection or a session is its position among all that were ever
  created, \<open>None\<close> is nil. smux is not in the repository; a session is whether it is closed, and
  \<open>newSess\<close> is what \<open>smux.Server\<close> returns, an error or \<open>None\<close>.
\<close>

section \<open>State\<close>

record server =
  sv_clientID :: string
  sv_dnsServer :: string
  sv_socksProxyAddr :: string
  sv_socksProxyPort :: int
  sv_conns :: "mux list"
  sv_sessions :: "bool list"
  sv_conn :: "nat option"
  sv_session :: "nat option"

definition server_of_args :: "server_args \<Rightarrow> server" where
  "server_of_args a =
     \<lparr>sv_clientID = sa_clientID a, sv_dnsServer = sa_dnsServer a,
      sv_socksProxyAddr = sa_socksProxyAddr a, sv_socksProxyPort = sa_socksProxyPort a,
      sv_conns = [], sv_sessions = [], sv_conn = None, sv_session = None\<rparr>"

section \<open>Sessions\<close>

definition closed_at :: "nat option \<Rightarrow> bool list \<Rightarrow> bool list" where
  "closed_at i xs = (case i of None \<Rightarrow> xs | Some n \<Rightarrow> xs[n := True])"

definition conn_closed_at :: "nat option \<Rightarrow> mux list \<Rightarrow> mux list" where
  "conn_closed_at i cs = (case i of None \<Rightarrow> cs | Some n \<Rightarrow> cs[n := mux_Close (cs ! n)])"

definition installSession :: "go_error option \<Rightarrow> server \<Rightarrow> server" where
  "installSession newSess s =
     (case newSess of
        Some _ \<Rightarrow> s
      | None \<Rightarrow> s\<lparr>sv_conns := sv_conns s @ [mux_New], sv_sessions := sv_sessions s @ [False],
                 sv_conn := Some (length (sv_conns s)), sv_session := Some (length (sv_sessions s))\<rparr>)"

definition closeSession :: "server \<Rightarrow> server" where
  "closeSession s =
     s\<lparr>sv_sessions := closed_at (sv_session s) (sv_sessions s), sv_session := None,
       sv_conns := conn_closed_at (sv_conn s) (sv_conns s), sv_conn := None\<rparr>"

text \<open>The part of \<open>reinstallSession\<close> under \<open>sessMu\<close>; the flag says that it goes on to install.\<close>

definition reinstall_begin :: "nat option \<Rightarrow> server \<Rightarrow> bool \<times> server" where
  "reinstall_begin dead s =
     (if sv_session s \<noteq> dead then (False, s) else (True, closeSession s))"

definition reinstallSession :: "nat option \<Rightarrow> go_error option \<Rightarrow> server \<Rightarrow> server" where
  "reinstallSession dead newSess s =
     (case reinstall_begin dead s of
        (False, s') \<Rightarrow> s'
      | (True, s') \<Rightarrow> installSession newSess s')"

definition server_handleReconnect :: "go_error option \<Rightarrow> server \<Rightarrow> server" where
  "server_handleReconnect newSess s = reinstallSession (sv_session s) newSess s"

definition server_onData :: "aead \<Rightarrow> bytes \<Rightarrow> server \<Rightarrow> server" where
  "server_onData cipher data s =
     (case sv_conn s of
        None \<Rightarrow> s
      | Some i \<Rightarrow> s\<lparr>sv_conns := (sv_conns s)[i := Push cipher data (sv_conns s ! i)]\<rparr>)"

section \<open>Bringing the link up\<close>

text \<open>\<open>def\<close> is what \<open>smux.DefaultConfig\<close> gives.\<close>

definition server_smuxConfig :: "smux_config \<Rightarrow> smux_config" where
  "server_smuxConfig def =
     def\<lparr>Version := 2, KeepAliveDisabled := True, MaxFrameSize := 32768,
         MaxReceiveBuffer := 16 * 1024 * 1024, MaxStreamBuffer := 1024 * 1024,
         KeepAliveInterval := 10 * second, KeepAliveTimeout := 60 * second\<rparr>"

definition server_link_config :: "server_args \<Rightarrow> string \<Rightarrow> 'o \<Rightarrow> 'o link_config" where
  "server_link_config a name onData =
     \<lparr>lc_Transport = sa_transportName a, lc_Carrier = sa_carrierName a, lc_RoomURL = sa_roomURL a,
      lc_ClientID = sa_clientID a, lc_Name = name, lc_OnData = Some onData,
      lc_DNSServer = sa_dnsServer a, lc_ProxyAddr = sa_socksProxyAddr a,
      lc_ProxyPort = sa_socksProxyPort a, lc_VideoWidth = VideoWidth a,
      lc_VideoHeight = VideoHeight a, lc_VideoFPS = VideoFPS a, lc_VideoBitrate = VideoBitrate a,
      lc_VideoHW = VideoHW a, lc_VideoQRSize = VideoQRSize a,
      lc_VideoQRRecovery = VideoQRRecovery a, lc_VideoCodec = VideoCodec a,
      lc_VideoTileModule = VideoTileModule a, lc_VideoTileRS = VideoTileRS a,
      lc_VP8FPS = VP8FPS a, lc_VP8BatchSize = VP8BatchSize a, lc_SEIFPS = SEIFPS a,
      lc_SEIBatchSize = SEIBatchSize a, lc_SEIFragmentSize = SEIFragmentSize a,
      lc_SEIAckTimeoutMS = SEIAckTimeoutMS a\<rparr>"

text \<open>\<open>st\<close> is the state the link works on; \<open>onEnded\<close> and \<open>onReconnect\<close> are the callbacks given to it.
  A link that was made and could not be connected stays as it is.\<close>

definition server_bringUpLink ::
    "('o link_config, ('s, 'u) link) registry_map \<Rightarrow> server_args \<Rightarrow> string \<Rightarrow> 'o \<Rightarrow> (string \<Rightarrow> 'u \<Rightarrow> 'u) \<Rightarrow>
     ('u \<Rightarrow> 'u) \<Rightarrow> go_error option \<Rightarrow> server \<Rightarrow> 's \<Rightarrow> (go_error + ('s, 'u) link \<times> server) \<times> 's" where
  "server_bringUpLink reg a name onData onEnded onReconnect newSess s st =
     (case link_New reg (sa_linkName a) (server_link_config a name onData) of
        Inl err \<Rightarrow> (Inl (Ctx ''failed to create link'' err), st)
      | Inr ln \<Rightarrow>
          (let st1 = ln_SetEndedCallback ln (Some onEnded) st;
               st2 = ln_SetReconnectCallback ln (Some onReconnect) st1
           in case ln_Connect ln st2 of
                (Some err, st3) \<Rightarrow> (Inl (Ctx ''failed to connect link'' err), st3)
              | (None, st3) \<Rightarrow> (Inr (ln, installSession newSess s), ln_WatchConnection ln st3)))"

text \<open>\<open>Run\<close> up to its \<open>serve\<close> loop: the error it returns, or what it serves with.\<close>

definition server_Run_start ::
    "(bytes \<Rightarrow> go_error + aead) \<Rightarrow> ('o link_config, ('s, 'u) link) registry_map \<Rightarrow> server_args \<Rightarrow> string \<Rightarrow>
     'o \<Rightarrow> (string \<Rightarrow> 'u \<Rightarrow> 'u) \<Rightarrow> ('u \<Rightarrow> 'u) \<Rightarrow> go_error option \<Rightarrow> 's \<Rightarrow>
     (go_error + aead \<times> ('s, 'u) link \<times> server) \<times> 's" where
  "server_Run_start newX reg a name onData onEnded onReconnect newSess st =
     (case server_setupCipher newX (sa_keyHex a) of
        Inl err \<Rightarrow> (Inl (Ctx ''setupCipher failed'' err), st)
      | Inr cipher \<Rightarrow>
          (case server_bringUpLink reg a name onData onEnded onReconnect newSess (server_of_args a) st of
             (Inl err, st') \<Rightarrow> (Inl err, st')
           | (Inr (ln, s), st') \<Rightarrow> (Inr (cipher, ln, s), st')))"

definition server_shutdown :: "('s, 'u) link option \<Rightarrow> server \<Rightarrow> 's \<Rightarrow> server \<times> 's" where
  "server_shutdown ln s st =
     (closeSession s, case ln of None \<Rightarrow> st | Some l \<Rightarrow> snd (ln_Close l st))"

section \<open>The accept loop\<close>

datatype 'st serve_result = Stop | Wait | Continue | Spawn 'st

text \<open>One round of \<open>serve\<close>. \<open>done1\<close> and \<open>done2\<close> are the two looks at the context, \<open>accept\<close> what
  \<open>AcceptStream\<close> of the session returns.\<close>

definition serve_round ::
    "bool \<Rightarrow> bool \<Rightarrow> (nat \<Rightarrow> go_error + 'st) \<Rightarrow> go_error option \<Rightarrow> server \<Rightarrow> 'st serve_result \<times> server" where
  "serve_round done1 done2 accept newSess s =
     (if done1 then (Stop, s)
      else case sv_session s of
             None \<Rightarrow> (if done2 then Stop else Wait, s)
           | Some sess \<Rightarrow>
               (case accept sess of
                  Inl err \<Rightarrow>
                    if done2 then (Stop, s)
                    else (Continue, reinstallSession (Some sess) newSess s)
                | Inr stream \<Rightarrow> (Spawn stream, s)))"

section \<open>Connect requests\<close>

definition connectCommand :: string where "connectCommand = ''connect''"

record ConnectRequest =
  cr_Cmd :: string
  cr_ClientID :: string
  cr_Addr :: string
  cr_Port :: int

definition ConnectRequest_zero :: ConnectRequest where
  "ConnectRequest_zero = \<lparr>cr_Cmd = [], cr_ClientID = [], cr_Addr = [], cr_Port = 0\<rparr>"

text \<open>Field names are matched without regard to case, as \<open>encoding/json\<close> does.\<close>

definition store_request :: "string \<Rightarrow> json \<Rightarrow> ConnectRequest \<Rightarrow> ConnectRequest option" where
  "store_request k v r =
     (if EqualFold k ''cmd'' then map_option (\<lambda>x. r\<lparr>cr_Cmd := x\<rparr>) (store_string v (cr_Cmd r))
      else if EqualFold k ''clientId'' then map_option (\<lambda>x. r\<lparr>cr_ClientID := x\<rparr>) (store_string v (cr_ClientID r))
      else if EqualFold k ''addr'' then map_option (\<lambda>x. r\<lparr>cr_Addr := x\<rparr>) (store_string v (cr_Addr r))
      else if EqualFold k ''port'' then map_option (\<lambda>x. r\<lparr>cr_Port := x\<rparr>) (store_int v (cr_Port r))
      else Some r)"

definition parseConnectRequest :: "bytes \<Rightarrow> ConnectRequest option" where
  "parseConnectRequest buf =
     (case Unmarshal store_request (gostr buf) ConnectRequest_zero of
        None \<Rightarrow> None
      | Some req \<Rightarrow> if cr_Cmd req \<noteq> connectCommand then None else Some req)"

definition authorizeRequest :: "server \<Rightarrow> ConnectRequest \<Rightarrow> bool" where
  "authorizeRequest s req \<longleftrightarrow> cr_ClientID req = sv_clientID s"

section \<open>Dialling\<close>

definition JoinHostPort :: "string \<Rightarrow> string \<Rightarrow> string" where
  "JoinHostPort host port =
     (if CHR '':'' \<in> set host then ''['' @ host @ '']:'' @ port else host @ '':'' @ port)"

text \<open>The resolver's \<open>Dial\<close>: whatever address Go's resolver asks for, the configured DNS server is dialled.\<close>

definition setupResolver :: "(string \<Rightarrow> string \<Rightarrow> go_error + 'c) \<Rightarrow> server \<Rightarrow> string \<Rightarrow> string \<Rightarrow> go_error + 'c" where
  "setupResolver DialContext s = (\<lambda>network _. DialContext network (sv_dnsServer s))"

text \<open>\<open>dialer\<close> is \<open>net.Dialer.Dial\<close> on \<open>tcp4\<close>, with that resolver when there is no proxy.\<close>

definition dial :: "(string \<Rightarrow> go_error + sock) \<Rightarrow> server \<Rightarrow> ConnectRequest \<Rightarrow> go_error + sock" where
  "dial dialer s req =
     (if sv_socksProxyAddr s = []
      then (case dialer (JoinHostPort (cr_Addr req) (Itoa (cr_Port req))) of
              Inl err \<Rightarrow> Inl (Ctx ''dial failed'' err)
            | Inr conn \<Rightarrow> Inr conn)
      else (case dialer (JoinHostPort (sv_socksProxyAddr s) (Itoa (sv_socksProxyPort s))) of
              Inl err \<Rightarrow> Inl (Ctx ''failed to dial proxy'' err)
            | Inr conn \<Rightarrow>
                (case socks5Connect (cr_Addr req) (cr_Port req) conn of
                   (Inl err, conn') \<Rightarrow> Inl err
                 | (Inr _, conn') \<Rightarrow> Inr conn')))"

text \<open>\<open>dispatch\<close>: the stream after the readiness byte, and the connection it is joined to, or none.\<close>

definition dispatch :: "(string \<Rightarrow> go_error + sock) \<Rightarrow> server \<Rightarrow> ConnectRequest \<Rightarrow> sock \<Rightarrow> sock option \<times> sock" where
  "dispatch dialer s req stream =
     (case dial dialer s req of
        Inl _ \<Rightarrow> (None, stream)
      | Inr conn \<Rightarrow>
          (case sock_Write [0] stream of
             (Inl _, stream') \<Rightarrow> (None, stream')
           | (Inr _, stream') \<Rightarrow> (Some conn, stream')))"

section \<open>One stream\<close>

definition maxConnReq :: nat where "maxConnReq = 4096"

datatype stream_result = Dropped | Rejected | Dispatched ConnectRequest | Waiting bytes

text \<open>The reading loop of \<open>handleStream\<close> over the chunks the stream yields, each with the error that
  came with it; \<open>Waiting\<close> when it is still reading.\<close>

fun read_request :: "server \<Rightarrow> (bytes \<times> go_error option) list \<Rightarrow> bytes \<Rightarrow> stream_result" where
  "read_request s [] header = Waiting header"
| "read_request s ((b, err) # rest) header =
     (let header' = header @ b;
          next_round = (if err \<noteq> None then Dropped
                        else if maxConnReq < length header' then Dropped
                        else read_request s rest header')
      in if b \<noteq> []
         then (case parseConnectRequest header' of
                 Some req \<Rightarrow> if \<not> authorizeRequest s req then Rejected else Dispatched req
               | None \<Rightarrow> next_round)
         else next_round)"

definition handleStream ::
    "(string \<Rightarrow> go_error + sock) \<Rightarrow> server \<Rightarrow> (bytes \<times> go_error option) list \<Rightarrow> sock \<Rightarrow> sock option \<times> sock" where
  "handleStream dialer s chunks stream =
     (case read_request s chunks [] of
        Dispatched req \<Rightarrow> dispatch dialer s req stream
      | _ \<Rightarrow> (None, stream))"

end
