(* ===== verification/Client.thy ===== *)
theory Client
  imports Session Muxconn Socks Json
begin

text \<open>
  \<open>internal/client/client.go\<close>: bringing the link up, the smux session and its replacement on a
  reconnect, and the handling of one SOCKS5 connection: handshake, request, stream, connect
  request. Pointers are indices as in \<open>Server\<close>; \<open>newSess\<close> is what \<open>smux.Client\<close> returns.
\<close>

definition ErrRemoteNotReady :: go_error where "ErrRemoteNotReady = Base ''remote not ready''"

record client =
  cl_clientID :: string
  cl_socksUser :: string
  cl_socksPass :: string
  cl_conns :: "mux list"
  cl_sessions :: "bool list"
  cl_conn :: "nat option"
  cl_session :: "nat option"

definition client_of_args :: "client_args \<Rightarrow> client" where
  "client_of_args a =
     \<lparr>cl_clientID = ca_clientID a, cl_socksUser = ca_socksUser a, cl_socksPass = ca_socksPass a,
      cl_conns = [], cl_sessions = [], cl_conn = None, cl_session = None\<rparr>"

section \<open>Sessions\<close>

definition close_session_at :: "nat option \<Rightarrow> bool list \<Rightarrow> bool list" where
  "close_session_at i xs = (case i of None \<Rightarrow> xs | Some n \<Rightarrow> xs[n := True])"

definition close_conn_at :: "nat option \<Rightarrow> mux list \<Rightarrow> mux list" where
  "close_conn_at i cs = (case i of None \<Rightarrow> cs | Some n \<Rightarrow> cs[n := mux_Close (cs ! n)])"

text \<open>A new connection, then a session on it; the connection is set even when the session fails.\<close>

definition client_new_session :: "go_error option \<Rightarrow> client \<Rightarrow> client" where
  "client_new_session newSess c =
     (let c1 = c\<lparr>cl_conns := cl_conns c @ [mux_New], cl_conn := Some (length (cl_conns c))\<rparr> in
      case newSess of
        Some _ \<Rightarrow> c1
      | None \<Rightarrow> c1\<lparr>cl_sessions := cl_sessions c1 @ [False], cl_session := Some (length (cl_sessions c1))\<rparr>)"

text \<open>The part of \<open>handleReconnect\<close> under the lock.\<close>

definition client_teardown :: "client \<Rightarrow> client" where
  "client_teardown c =
     c\<lparr>cl_sessions := close_session_at (cl_session c) (cl_sessions c), cl_session := None,
       cl_conns := close_conn_at (cl_conn c) (cl_conns c), cl_conn := None\<rparr>"

definition client_handleReconnect :: "go_error option \<Rightarrow> client \<Rightarrow> client" where
  "client_handleReconnect newSess c = client_new_session newSess (client_teardown c)"

definition client_onData :: "aead \<Rightarrow> bytes \<Rightarrow> client \<Rightarrow> client" where
  "client_onData cipher data c =
     (case cl_conn c of
        None \<Rightarrow> c
      | Some i \<Rightarrow> c\<lparr>cl_conns := (cl_conns c)[i := Push cipher data (cl_conns c ! i)]\<rparr>)"

definition client_shutdown :: "('s, 'u) link option \<Rightarrow> client \<Rightarrow> 's \<Rightarrow> client \<times> 's" where
  "client_shutdown ln c st =
     (c\<lparr>cl_sessions := close_session_at (cl_session c) (cl_sessions c),
        cl_conns := close_conn_at (cl_conn c) (cl_conns c)\<rparr>,
      case ln of None \<Rightarrow> st | Some l \<Rightarrow> snd (ln_Close l st))"

section \<open>Bringing the link up\<close>

definition client_smuxConfig :: "smux_config \<Rightarrow> smux_config" where
  "client_smuxConfig def =
     def\<lparr>Version := 2, KeepAliveDisabled := True, MaxFrameSize := 32768,
         MaxReceiveBuffer := 16 * 1024 * 1024, MaxStreamBuffer := 1024 * 1024,
         KeepAliveInterval := 10 * second, KeepAliveTimeout := 60 * second\<rparr>"

definition client_link_config :: "client_args \<Rightarrow> string \<Rightarrow> 'o \<Rightarrow> 'o link_config" where
  "client_link_config a name onData =
     \<lparr>lc_Transport = ca_transportName a, lc_Carrier = ca_carrierName a, lc_RoomURL = ca_roomURL a,
      lc_ClientID = ca_clientID a, lc_Name = name, lc_OnData = Some onData,
      lc_DNSServer = ca_dnsServer a, lc_ProxyAddr = [],
      lc_ProxyPort = 0, lc_VideoWidth = VideoWidth a,
      lc_VideoHeight = VideoHeight a, lc_VideoFPS = VideoFPS a, lc_VideoBitrate = VideoBitrate a,
      lc_VideoHW = VideoHW a, lc_VideoQRSize = VideoQRSize a,
      lc_VideoQRRecovery = VideoQRRecovery a, lc_VideoCodec = VideoCodec a,
      lc_VideoTileModule = VideoTileModule a, lc_VideoTileRS = VideoTileRS a,
      lc_VP8FPS = VP8FPS a, lc_VP8BatchSize = VP8BatchSize a, lc_SEIFPS = SEIFPS a,
      lc_SEIBatchSize = SEIBatchSize a, lc_SEIFragmentSize = SEIFragmentSize a,
      lc_SEIAckTimeoutMS = SEIAckTimeoutMS a\<rparr>"

definition client_bringUpLink ::
    "('o link_config, ('s, 'u) link) registry_map \<Rightarrow> client_args \<Rightarrow> string \<Rightarrow> 'o \<Rightarrow> (string \<Rightarrow> 'u \<Rightarrow> 'u) \<Rightarrow>
     ('u \<Rightarrow> 'u) \<Rightarrow> go_error option \<Rightarrow> client \<Rightarrow> 's \<Rightarrow> (go_error + ('s, 'u) link \<times> client) \<times> 's" where
  "client_bringUpLink reg a name onData onEnded onReconnect newSess c st =
     (case link_New reg (ca_linkName a) (client_link_config a name onData) of
        Inl err \<Rightarrow> (Inl (Ctx ''failed to create link'' err), st)
      | Inr ln \<Rightarrow>
          (let st1 = ln_SetEndedCallback ln (Some onEnded) st;
               st2 = ln_SetReconnectCallback ln (Some onReconnect) st1
           in case ln_Connect ln st2 of
                (Some err, st3) \<Rightarrow> (Inl (Ctx ''failed to connect link'' err), st3)
              | (None, st3) \<Rightarrow>
                  (case newSess of
                     Some err \<Rightarrow> (Inl (Ctx ''smux client'' err), st3)
                   | None \<Rightarrow> (Inr (ln, client_new_session None c), ln_WatchConnection ln st3))))"

text \<open>\<open>RunWithReady\<close> up to its accept loop; \<open>listen\<close> is what \<open>Listen\<close> on the local address gives, and
  \<open>ready\<close> the \<open>onReady\<close> callback, run on the world only when everything is up. Everything is shut
  down again when listening fails.\<close>

definition client_RunWithReady_start ::
    "(bytes \<Rightarrow> go_error + aead) \<Rightarrow> ('o link_config, ('s, 'u) link) registry_map \<Rightarrow> client_args \<Rightarrow> string \<Rightarrow>
     'o \<Rightarrow> (string \<Rightarrow> 'u \<Rightarrow> 'u) \<Rightarrow> ('u \<Rightarrow> 'u) \<Rightarrow> go_error option \<Rightarrow> (string \<Rightarrow> go_error option) \<Rightarrow>
     ('w \<Rightarrow> 'w) option \<Rightarrow> 's \<Rightarrow> 'w \<Rightarrow> (go_error + aead \<times> ('s, 'u) link \<times> client) \<times> 's \<times> 'w" where
  "client_RunWithReady_start newX reg a name onData onEnded onReconnect newSess listen onReady st w =
     (case client_setupCipher newX (ca_keyHex a) of
        Inl err \<Rightarrow> (Inl (Ctx ''setupCipher failed'' err), st, w)
      | Inr cipher \<Rightarrow>
     (case client_bringUpLink reg a name onData onEnded onReconnect newSess (client_of_args a) st of
        (Inl err, st') \<Rightarrow> (Inl err, st', w)
      | (Inr (ln, c), st') \<Rightarrow>
     (case listen (ca_localAddr a) of
        Some err \<Rightarrow>
          (Inl (Ctx (''failed to listen on '' @ ca_localAddr a) err), snd (client_shutdown (Some ln) c st'), w)
      | None \<Rightarrow> (Inr (cipher, ln, c), st', case onReady of None \<Rightarrow> w | Some f \<Rightarrow> f w))))"

definition client_Run_start ::
    "(bytes \<Rightarrow> go_error + aead) \<Rightarrow> ('o link_config, ('s, 'u) link) registry_map \<Rightarrow> client_args \<Rightarrow> string \<Rightarrow>
     'o \<Rightarrow> (string \<Rightarrow> 'u \<Rightarrow> 'u) \<Rightarrow> ('u \<Rightarrow> 'u) \<Rightarrow> go_error option \<Rightarrow> (string \<Rightarrow> go_error option) \<Rightarrow>
     's \<Rightarrow> 'w \<Rightarrow> (go_error + aead \<times> ('s, 'u) link \<times> client) \<times> 's \<times> 'w" where
  "client_Run_start newX reg a name onData onEnded onReconnect newSess listen st w =
     client_RunWithReady_start newX reg a name onData onEnded onReconnect newSess listen None st w"

text \<open>One round of the accept loop: the connection handed to a goroutine, if any, and whether the loop
  goes on.\<close>

definition client_accept_round :: "bool \<Rightarrow> go_error + 'c \<Rightarrow> 'c option \<times> bool" where
  "client_accept_round finished accept =
     (case accept of
        Inl err \<Rightarrow> (None, \<not> finished)
      | Inr conn \<Rightarrow> (Some conn, True))"

section \<open>One SOCKS5 connection\<close>

definition connect_request_json :: "string \<Rightarrow> string \<Rightarrow> int \<Rightarrow> json" where
  "connect_request_json clientID addr port =
     JObj [(''addr'', JStr addr), (''clientId'', JStr clientID), (''cmd'', JStr ''connect''),
           (''port'', JNum (Itoa port))]"

definition fmt_bytes :: "bytes \<Rightarrow> string" where
  "fmt_bytes bs = fmt_strings (map byte_text bs)"

text \<open>The stream is a connection with the number \<open>sid\<close>. A missing readiness byte reads as zero in the
  error's text. The error, which the caller only logs, is modelled as wrapping \<open>ErrRemoteNotReady\<close>
  alone; in the source it wraps the read error too.\<close>

definition sendConnectRequest :: "client \<Rightarrow> int \<Rightarrow> string \<Rightarrow> int \<Rightarrow> sock \<Rightarrow> go_error option \<times> sock" where
  "sendConnectRequest c sid targetAddr targetPort stream =
     (case sock_Write (str (json_text (connect_request_json (cl_clientID c) targetAddr targetPort))) stream of
        (Inl err, s1) \<Rightarrow> (Some (Ctx (''sid='' @ Itoa sid @ '' write connect req'') err), s1)
      | (Inr _, s1) \<Rightarrow>
          (case ReadFull 1 s1 of
             (Inl err, s2) \<Rightarrow>
               (Some (Detail (Ctx (''sid='' @ Itoa sid) ErrRemoteNotReady)
                  ('' (read_err='' @ Error err @ '' ack='' @ fmt_bytes [0] @ '')'')), s2)
           | (Inr ack, s2) \<Rightarrow>
               if ack ! 0 \<noteq> 0
               then (Some (Detail (Ctx (''sid='' @ Itoa sid) ErrRemoteNotReady)
                  ('' (read_err=%!w(<nil>) ack='' @ fmt_bytes ack @ '')'')), s2)
               else (None, s2)))"

text \<open>The outcome of a connection: refused during the exchange, answered with \<open>host unreachable\<close>, or
  joined to its stream.\<close>

datatype socks_result = Refused go_error | Unreachable | Joined | WriteFailed

definition reply :: "bytes \<Rightarrow> sock \<Rightarrow> sock" where
  "reply data conn = snd (sock_Write data conn)"

definition tunnel ::
    "client \<Rightarrow> (go_error + int \<times> sock) \<Rightarrow> string \<Rightarrow> int \<Rightarrow> sock \<Rightarrow> socks_result \<times> sock \<times> sock option" where
  "tunnel c openStream targetAddr targetPort conn =
     (case openStream of
        Inl _ \<Rightarrow> (Unreachable, reply replyHostUnreachable conn, None)
      | Inr (sid, stream) \<Rightarrow>
          (case sendConnectRequest c sid targetAddr targetPort stream of
             (Some _, stream') \<Rightarrow> (Unreachable, reply replyHostUnreachable conn, Some stream')
           | (None, stream') \<Rightarrow>
               (case sock_Write replySuccess conn of
                  (Inl _, conn') \<Rightarrow> (WriteFailed, conn', Some stream')
                | (Inr _, conn') \<Rightarrow> (Joined, conn', Some stream'))))"

text \<open>\<open>openStream\<close> is what the session's \<open>OpenStream\<close> gives.\<close>

definition handleSocks5 ::
    "client \<Rightarrow> (nat \<Rightarrow> go_error + int \<times> sock) \<Rightarrow> sock \<Rightarrow> socks_result \<times> sock \<times> sock option" where
  "handleSocks5 c openStream conn =
     (case socks5Handshake (str (cl_socksUser c)) (str (cl_socksPass c)) conn of
        (Inl err, s1) \<Rightarrow> (Refused err, s1, None)
      | (Inr _, s1) \<Rightarrow>
     (case socks5Request s1 of
        (Inl err, s2) \<Rightarrow> (Refused err, s2, None)
      | (Inr (targetAddr, targetPort), s2) \<Rightarrow>
     (case cl_session c of
        None \<Rightarrow> (Unreachable, reply replyHostUnreachable s2, None)
      | Some sess \<Rightarrow>
          if cl_sessions c ! sess then (Unreachable, reply replyHostUnreachable s2, None)
          else tunnel c (openStream sess) targetAddr targetPort s2)))"

end
