(* ===== verification/Json_Prefix.thy ===== *)
theory Json_Prefix
  imports Json
begin

text \<open>
  A parser that has succeeded is not changed by more input: appending to what it was given
  appends to what it leaves. So a strict prefix of the text of an object does not parse, and a
  reader that tries to parse a growing buffer acts exactly when the object is complete.
\<close>

lemma skip_ws_extend: "skip_ws s = c # t \<Longrightarrow> skip_ws (s @ q) = c # t @ q"
  by (induction s) (auto simp: skip_ws_def)

lemma skip_ws_ascii: "ascii s \<Longrightarrow> skip_ws s = c # t \<Longrightarrow> ascii (c # t)"
  by (induction s) (auto simp: skip_ws_def split: if_splits)

lemma ascii_drop [simp]: "ascii s \<Longrightarrow> ascii (drop n s)"
  by (auto simp: ascii_def dest: in_set_dropD)

section \<open>Strings\<close>

lemma hex4_length: "hex4 s = Some r \<Longrightarrow> 4 \<le> length s"
proof (rule ccontr)
  assume h: "hex4 s = Some r" and "\<not> 4 \<le> length s"
  then have "length (map hex_val (take 4 s)) < 4" by simp
  with h show False by (auto simp: hex4_def split: list.splits option.splits)
qed

lemma hex4_extend: "hex4 s = Some r \<Longrightarrow> hex4 (s @ q) = Some r"
  using hex4_length [of s r] by (simp add: hex4_def)

lemma low_surrogate_extend:
  assumes "unquote s \<noteq> None \<or> low_surrogate s \<noteq> None"
  shows "low_surrogate (s @ q) = low_surrogate s"
proof (cases "2 \<le> length s")
  case True
  then have t: "take 2 (s @ q) = take 2 s" "drop 2 (s @ q) = drop 2 s @ q" by simp_all
  show ?thesis
  proof (cases "take 2 s = [backslash, CHR ''u'']")
    case esc: True
    obtain a b t where s: "s = a # b # t" using True by (cases s; cases "tl s") auto
    then have ab: "a = backslash" "b = CHR ''u''" using esc by simp_all
    have "hex4 t \<noteq> None"
      using assms s ab backslash_quote
      by (auto simp: low_surrogate_def unquote.simps(2) [of backslash] split: option.splits if_splits)
    then show ?thesis using hex4_extend [of t] s ab by (auto simp: low_surrogate_def)
  next
    case False
    then show ?thesis unfolding low_surrogate_def t by simp
  qed
next
  case False
  then consider "s = []" | a where "s = [a]" by (cases s; cases "tl s") auto
  then show ?thesis
  proof cases
    case 2
    with assms have "unquote [a] \<noteq> None" by (auto simp: low_surrogate_def)
    then have "a \<noteq> backslash" using backslash_quote by (auto simp: unquote.simps)
    with 2 show ?thesis by (cases q) (simp_all add: low_surrogate_def)
  qed (use assms in \<open>simp add: unquote.simps low_surrogate_def\<close>)
qed

lemma prepend_Some: "prepend p r = Some (x, y) \<longleftrightarrow> (\<exists>z. r = Some (z, y) \<and> x = p @ z)"
  by (auto simp: prepend_def)

lemma rune_size_ascii: "cp c < 0x80 \<Longrightarrow> rune_size (c # s) = Some 1"
  by (simp add: rune_size_def)

lemma unquote_extend:
  "ascii s \<Longrightarrow> unquote s = Some (x, r) \<Longrightarrow> unquote (s @ q) = Some (x, r @ q) \<and> ascii r"
proof (induction s arbitrary: x rule: unquote.induct)
  case 1
  then show ?case by (simp add: unquote.simps)
next
  case (2 c s)
  have asc: "cp c < 0x80" "ascii s" using "2.prems"(1) by simp_all
  consider (quote) "c = quote_char" | (esc) "c = backslash" | (plain) "c \<noteq> quote_char" "c \<noteq> backslash" by blast
  then show ?case
  proof cases
    case quote
    with "2.prems"(2) asc show ?thesis by (auto simp: unquote.simps(2) [of quote_char])
  next
    case esc
    then have nq: "c \<noteq> quote_char" using backslash_quote by simp
    obtain e s' where s: "s = e # s'" using "2.prems"(2) esc nq by (cases s) (auto simp: unquote.simps(2) [of backslash])
    show ?thesis
    proof (cases "e = CHR ''u''")
      case False
      then obtain c' z where "escaped_char e = Some c'" "unquote s' = Some (z, r)" "x = c' # z"
        using "2.prems"(2) esc nq s by (auto simp: unquote.simps(2) [of backslash] prepend_Some split: option.splits)
      with "2.IH"(4) [OF nq esc s False] asc s esc nq False show ?thesis
        by (auto simp: unquote.simps(2) [of backslash] prepend_Some)
    next
      case u: True
      obtain h where h: "hex4 s' = Some h" using "2.prems"(2) esc nq s u
        by (cases "hex4 s'") (auto simp: unquote.simps(2) [of backslash])
      then have l: "4 \<le> length s'" by (rule hex4_length)
      have hx: "hex4 (s' @ q) = Some h" by (rule hex4_extend [OF h])
      show ?thesis
      proof (cases "0xD800 \<le> h \<and> h < 0xE000")
        case False
        obtain z where "unquote (drop 4 s') = Some (z, r)" "x = encode_rune h @ z"
          using "2.prems"(2) esc nq s u h False
          by (auto simp: unquote.simps(2) [of backslash] prepend_Some split: if_splits)
        with "2.IH"(3) [OF nq esc s u h False] asc s esc nq u h hx l False show ?thesis
          by (auto simp: unquote.simps(2) [of backslash] prepend_Some)
      next
        case sur: True
        let ?low = "if h < 0xDC00 then low_surrogate (drop 4 s') else None"
        show ?thesis
        proof (cases ?low)
          case (Some r2)
          then have ls: "low_surrogate (drop 4 s') = Some r2" "h < 0xDC00" by (auto split: if_splits)
          then have "4 \<le> length (drop 2 (drop 4 s'))"
            by (auto simp: low_surrogate_def dest: hex4_length split: option.splits if_splits)
          then have l10: "10 \<le> length s'" by simp
          obtain z where "unquote (drop 10 s') = Some (z, r)"
            "x = encode_rune (0x10000 + (h - 0xD800) * 0x400 + (r2 - 0xDC00)) @ z"
            using "2.prems"(2) esc nq s u h sur ls
            by (auto simp: unquote.simps(2) [of backslash] prepend_Some split: if_splits)
          moreover have "low_surrogate (drop 4 s' @ q) = Some r2"
            using low_surrogate_extend [of "drop 4 s'" q] ls by simp
          ultimately show ?thesis
            using "2.IH"(2) [OF nq esc s u h sur Some] asc s esc nq u h hx l l10 sur ls
            by (auto simp: unquote.simps(2) [of backslash] prepend_Some)
        next
          case None
          obtain z where z: "unquote (drop 4 s') = Some (z, r)" "x = encode_rune RuneError @ z"
            using "2.prems"(2) esc nq s u h sur None
            by (auto simp: unquote.simps(2) [of backslash] prepend_Some split: if_splits)
          moreover have "low_surrogate (drop 4 s' @ q) = low_surrogate (drop 4 s')"
            using low_surrogate_extend [of "drop 4 s'" q] z by simp
          ultimately show ?thesis
            using "2.IH"(1) [OF nq esc s u h sur None] asc s esc nq u h hx l sur None
            by (auto simp: unquote.simps(2) [of backslash] prepend_Some split: if_splits)
        qed
      qed
    qed
  next
    case plain
    have np: "\<not> cp c < 0x20" using "2.prems"(2) plain by (auto simp: unquote.simps(2) [of c])
    obtain z where "unquote s = Some (z, r)" "x = c # z"
      using "2.prems"(2) plain np rune_size_ascii [OF asc(1), of s]
      by (auto simp: unquote.simps(2) [of c] prepend_Some)
    with "2.IH"(6) [OF plain np rune_size_ascii [OF asc(1)]] asc plain np
      rune_size_ascii [OF asc(1), of s] rune_size_ascii [OF asc(1), of "s @ q"]
    show ?thesis by (auto simp: unquote.simps(2) [of c] prepend_Some)
  qed
qed


section \<open>Numbers and literals\<close>

lemma digits1_extend: "digits1 s = Some (d, r) \<Longrightarrow> r \<noteq> [] \<Longrightarrow> digits1 (s @ q) = Some (d, r @ q)"
proof -
  assume d: "digits1 s = Some (d, r)" and r: "r \<noteq> []"
  then have e: "takeWhile is_digit s = d" "r = drop (length d) s" "d \<noteq> []"
    by (auto simp: digits1_def Let_def split: if_splits)
  then have "takeWhile is_digit s \<noteq> s" using r by auto
  then have "takeWhile is_digit (s @ q) = d" using e(1) by (metis takeWhile_append1 takeWhile_eq_all_conv)
  moreover have "length d \<le> length s" using e(1) length_takeWhile_le by metis
  ultimately show ?thesis using e by (simp add: digits1_def)
qed

lemma digits1_ascii: "ascii s \<Longrightarrow> digits1 s = Some (d, r) \<Longrightarrow> ascii r"
  by (auto simp: digits1_def Let_def split: if_splits)

lemma num_int_extend: "num_int s = Some (d, r) \<Longrightarrow> r \<noteq> [] \<Longrightarrow> num_int (s @ q) = Some (d, r @ q)"
  using digits1_extend [of s d r q] by (cases s) (auto simp: num_int_def split: if_splits)

lemma num_frac_extend: "num_frac s = Some (d, r) \<Longrightarrow> r \<noteq> [] \<Longrightarrow> num_frac (s @ q) = Some (d, r @ q)"
  using digits1_extend [of "tl s" _ r q] by (cases s) (auto simp: num_frac_def split: if_splits)

lemma num_exp_extend: "num_exp s = Some (d, r) \<Longrightarrow> r \<noteq> [] \<Longrightarrow> num_exp (s @ q) = Some (d, r @ q)"
proof (cases s)
  case (Cons c t)
  assume e: "num_exp s = Some (d, r)" and r: "r \<noteq> []"
  show ?thesis
  proof (cases "c = CHR ''e'' \<or> c = CHR ''E''")
    case True
    define sg where "sg = takeWhile (\<lambda>x. x = CHR ''+'' \<or> x = CHR ''-'') (take 1 t)"
    obtain d' where d: "digits1 (drop (length sg) t) = Some (d', r)" "d = c # sg @ d'"
      using e Cons True by (auto simp: num_exp_def Let_def sg_def)
    then have "t \<noteq> []" by (auto simp: digits1_def)
    then have t: "take 1 (t @ q) = take 1 t" "length sg \<le> length t"
      using length_takeWhile_le [of _ "take 1 t"] by (cases t; simp add: sg_def)+
    have "digits1 (drop (length sg) (t @ q)) = Some (d', r @ q)"
      using digits1_extend [OF d(1) r, of q] t(2) by simp
    with True show ?thesis
      unfolding Cons append_Cons num_exp_def list.case Let_def t(1) sg_def [symmetric] d(2) by simp
  next
    case False
    with e Cons show ?thesis by (auto simp: num_exp_def)
  qed
qed (simp add: num_exp_def)

lemma json_number_extend:
  assumes "json_number s = Some (l, r)" and "r \<noteq> []"
  shows "json_number (s @ q) = Some (l, r @ q)"
proof -
  define sg where "sg = takeWhile (\<lambda>x. x = CHR ''-'') (take 1 s)"
  obtain i f e s1 s2 where 1: "num_int (drop (length sg) s) = Some (i, s1)" "num_frac s1 = Some (f, s2)"
    "num_exp s2 = Some (e, r)" "l = sg @ i @ f @ e"
    using assms(1) by (auto simp: json_number_def Let_def sg_def split: option.splits)
  have "s2 \<noteq> []" using 1(3) assms(2) by (auto simp: num_exp_def)
  then have "s1 \<noteq> []" using 1(2) by (auto simp: num_frac_def)
  have "s \<noteq> []" using 1(1) by (auto simp: num_int_def)
  then have t: "take 1 (s @ q) = take 1 s" "length sg \<le> length s"
    using length_takeWhile_le [of _ "take 1 s"] by (cases s; simp add: sg_def)+
  have "num_int (drop (length sg) (s @ q)) = Some (i, s1 @ q)"
    using num_int_extend [OF 1(1) \<open>s1 \<noteq> []\<close>, of q] t(2) by simp
  with num_frac_extend [OF 1(2) \<open>s2 \<noteq> []\<close>, of q] num_exp_extend [OF 1(3) assms(2), of q] 1(4)
  show ?thesis unfolding json_number_def Let_def t(1) sg_def [symmetric] by simp
qed

lemma num_int_ascii: "ascii s \<Longrightarrow> num_int s = Some (d, r) \<Longrightarrow> ascii r"
  using digits1_ascii [of s d r] by (cases s) (auto simp: num_int_def split: if_splits)

lemma num_frac_ascii: "ascii s \<Longrightarrow> num_frac s = Some (d, r) \<Longrightarrow> ascii r"
  using digits1_ascii [of "tl s" _ r] by (cases s) (auto simp: num_frac_def split: if_splits)

lemma num_exp_ascii:
  assumes "ascii s" and "num_exp s = Some (d, r)"
  shows "ascii r"
proof (cases s)
  case (Cons c t)
  define sg where "sg = takeWhile (\<lambda>x. x = CHR ''+'' \<or> x = CHR ''-'') (take 1 t)"
  show ?thesis
  proof (cases "c = CHR ''e'' \<or> c = CHR ''E''")
    case True
    with assms(2) Cons obtain d' where "digits1 (drop (length sg) t) = Some (d', r)"
      by (auto simp: num_exp_def Let_def sg_def)
    moreover have "ascii (drop (length sg) t)" using assms(1) Cons by simp
    ultimately show ?thesis by (rule digits1_ascii [rotated])
  next
    case False
    with assms Cons show ?thesis by (auto simp: num_exp_def)
  qed
qed (use assms in \<open>simp add: num_exp_def\<close>)

lemma json_number_ascii:
  assumes "ascii s" and "json_number s = Some (l, r)"
  shows "ascii r"
proof -
  define sg where "sg = takeWhile (\<lambda>x. x = CHR ''-'') (take 1 s)"
  obtain i f e s1 s2 where 1: "num_int (drop (length sg) s) = Some (i, s1)" "num_frac s1 = Some (f, s2)"
    "num_exp s2 = Some (e, r)"
    using assms(2) unfolding json_number_def Let_def sg_def [symmetric]
    by (auto split: option.splits)
  show ?thesis
    by (rule num_exp_ascii [OF num_frac_ascii [OF num_int_ascii [OF ascii_drop [OF assms(1)] 1(1)] 1(2)] 1(3)])
qed

lemma literal_extend:
  "literal w v s = Some (x, r) \<Longrightarrow> literal w v (s @ q) = Some (x, r @ q)"
proof -
  assume "literal w v s = Some (x, r)"
  then have "take (length w) s = w" "r = drop (length w) s" "x = v"
    by (auto simp: literal_def HasPrefix_def split: if_splits)
  moreover from this(1) have "length w \<le> length s" by (metis length_take min.cobounded1)
  ultimately show ?thesis unfolding literal_def HasPrefix_def by simp
qed

lemma literal_ascii: "ascii s \<Longrightarrow> literal w v s = Some (x, r) \<Longrightarrow> ascii r"
  by (auto simp: literal_def split: if_splits)


section \<open>Values\<close>

declare json_value.simps [simp del]

lemma ascii_tl: "ascii (c # t) \<Longrightarrow> ascii t"
  by simp

lemma first_not_number:
  "c \<in> {CHR ''{'', CHR ''['', quote_char, CHR ''n'', CHR ''t'', CHR ''f''} \<or>
   c \<notin> {CHR ''{'', CHR ''['', quote_char, CHR ''n'', CHR ''t'', CHR ''f''}"
  by blast

text \<open>The three parsers, by induction on the fuel. A number needs something after it, since more digits
  could follow.\<close>

definition extends :: "('a \<Rightarrow> bool) \<Rightarrow> (string \<Rightarrow> ('a \<times> string) option) \<Rightarrow> bool" where
  "extends num f \<longleftrightarrow> (\<forall>s q x r. ascii s \<longrightarrow> f s = Some (x, r) \<longrightarrow>
     ascii r \<and> (r \<noteq> [] \<or> \<not> num x \<longrightarrow> f (s @ q) = Some (x, r @ q)))"

lemma extendsD:
  "extends num f \<Longrightarrow> ascii s \<Longrightarrow> f s = Some (x, r) \<Longrightarrow> ascii r"
  "extends num f \<Longrightarrow> ascii s \<Longrightarrow> f s = Some (x, r) \<Longrightarrow> r \<noteq> [] \<or> \<not> num x \<Longrightarrow> f (s @ q) = Some (x, r @ q)"
  by (auto simp: extends_def)

definition is_num :: "json \<Rightarrow> bool" where
  "is_num v \<longleftrightarrow> (case v of JNum _ \<Rightarrow> True | _ \<Rightarrow> False)"

lemma elems_extends:
  assumes v: "extends is_num (json_value n d)" and e: "extends (\<lambda>_. False) (json_elems n d)"
  shows "extends (\<lambda>_. False) (json_elems (Suc n) d)"
  unfolding extends_def
proof (intro allI impI)
  fix s q :: string and vs r assume a: "ascii s" and p: "json_elems (Suc n) d s = Some (vs, r)"
  then obtain x r1 where x: "json_value n d s = Some (x, r1)" by (auto split: option.splits)
  then obtain c t where c: "skip_ws r1 = c # t" using p by (auto split: list.splits)
  then have ne: "r1 \<noteq> []" by (auto simp: skip_ws_def)
  have ar: "ascii (c # t)" by (rule skip_ws_ascii [OF extendsD(1) [OF v a x] c])
  have xq: "json_value n d (s @ q) = Some (x, r1 @ q)" using extendsD(2) [OF v a x] ne by simp
  have cq: "skip_ws (r1 @ q) = c # t @ q" by (rule skip_ws_extend [OF c])
  show "ascii r \<and> (r \<noteq> [] \<or> \<not> False \<longrightarrow> json_elems (Suc n) d (s @ q) = Some (vs, r @ q))"
  proof (cases "c = CHR '']''")
    case True
    with p x c xq cq ar show ?thesis by simp
  next
    case False
    with p x c obtain vs' where vs: "c = CHR '',''" "json_elems n d t = Some (vs', r)" "vs = x # vs'"
      by (auto split: if_splits)
    with extendsD [OF e ascii_tl [OF ar] vs(2)] xq cq False show ?thesis by simp
  qed
qed

lemma members_extends:
  assumes v: "extends is_num (json_value n d)" and m: "extends (\<lambda>_. False) (json_members n d)"
  shows "extends (\<lambda>_. False) (json_members (Suc n) d)"
  unfolding extends_def
proof (intro allI impI)
  fix s q :: string and ms r assume a: "ascii s" and p: "json_members (Suc n) d s = Some (ms, r)"
  obtain s1 where s1: "skip_ws s = quote_char # s1"
    using p by (cases "skip_ws s") (auto split: if_splits)
  then obtain k r1 where k: "unquote s1 = Some (k, r1)" using p by (cases "unquote s1") auto
  then obtain r2 where r2: "skip_ws r1 = CHR '':'' # r2"
    using p s1 by (cases "skip_ws r1") (auto split: if_splits)
  then obtain x r3 where x: "json_value n d r2 = Some (x, r3)"
    using p s1 k by (cases "json_value n d r2") auto
  then obtain c t where c: "skip_ws r3 = c # t" using p s1 k r2 by (cases "skip_ws r3") auto
  then have ne: "r3 \<noteq> []" by (auto simp: skip_ws_def)
  have a1: "ascii s1" by (rule ascii_tl [OF skip_ws_ascii [OF a s1]])
  have u: "unquote (s1 @ q) = Some (k, r1 @ q)" "ascii r1" using unquote_extend [OF a1 k] by simp_all
  have a2: "ascii r2" by (rule ascii_tl [OF skip_ws_ascii [OF u(2) r2]])
  have ar: "ascii (c # t)" by (rule skip_ws_ascii [OF extendsD(1) [OF v a2 x] c])
  have xq: "json_value n d (r2 @ q) = Some (x, r3 @ q)" using extendsD(2) [OF v a2 x] ne by simp
  note step = skip_ws_extend [OF s1, of q] u(1) skip_ws_extend [OF r2, of q] xq skip_ws_extend [OF c, of q]
  show "ascii r \<and> (r \<noteq> [] \<or> \<not> False \<longrightarrow> json_members (Suc n) d (s @ q) = Some (ms, r @ q))"
  proof (cases "c = CHR ''}''")
    case True
    with p s1 k r2 x c step ar show ?thesis by simp
  next
    case False
    with p s1 k r2 x c obtain ms' where ms: "c = CHR '',''" "json_members n d t = Some (ms', r)" "ms = (k, x) # ms'"
      by (auto split: if_splits)
    with extendsD [OF m ascii_tl [OF ar] ms(2)] step False show ?thesis by simp
  qed
qed

lemma value_literal:
  assumes "c \<in> {CHR ''n'', CHR ''t'', CHR ''f''}"
  shows "\<exists>w x. \<forall>y t. skip_ws y = c # t \<longrightarrow> json_value (Suc n) d y = literal w x (c # t)"
proof -
  have v: "json_value (Suc n) d y =
      (if c = CHR ''n'' then literal ''null'' JNull (c # t)
       else if c = CHR ''t'' then literal ''true'' (JBool True) (c # t)
       else literal ''false'' (JBool False) (c # t))" if "skip_ws y = c # t" for y t
    using that assms by (auto simp: json_value.simps quote_char_def)
  show ?thesis
    by (rule exI [of _ "if c = CHR ''n'' then ''null'' else if c = CHR ''t'' then ''true'' else ''false''"],
        rule exI [of _ "if c = CHR ''n'' then JNull else if c = CHR ''t'' then JBool True else JBool False"])
      (simp add: v)
qed

lemma value_extends:
  assumes e: "\<And>d. extends (\<lambda>_. False) (json_elems n d)" and m: "\<And>d. extends (\<lambda>_. False) (json_members n d)"
  shows "extends is_num (json_value (Suc n) d)"
  unfolding extends_def
proof (intro allI impI)
  fix s q :: string and v r assume a: "ascii s" and p: "json_value (Suc n) d s = Some (v, r)"
  obtain c t where c: "skip_ws s = c # t" using p by (cases "skip_ws s") (auto simp: json_value.simps)
  have at: "ascii (c # t)" by (rule skip_ws_ascii [OF a c])
  note cq = skip_ws_extend [OF c, of q]
  show "ascii r \<and> (r \<noteq> [] \<or> \<not> is_num v \<longrightarrow> json_value (Suc n) d (s @ q) = Some (v, r @ q))"
  proof (cases "c = CHR ''{'' \<or> c = CHR ''[''")
    case True
    then have d: "d \<noteq> 0" using p c by (auto simp: json_value.simps split: if_splits)
    obtain c' t' where c': "skip_ws t = c' # t'"
      using p c True by (cases "skip_ws t") (auto simp: json_value.simps split: if_splits)
    have at': "ascii (c' # t')" by (rule skip_ws_ascii [OF ascii_tl [OF at] c'])
    note cq' = skip_ws_extend [OF c', of q]
    show ?thesis
    proof (cases "c = CHR ''{''")
      case obj: True
      show ?thesis
      proof (cases "c' = CHR ''}''")
        case False
        then obtain ms where ms: "json_members n (d - 1) (c' # t') = Some (ms, r)" "v = JObj ms"
          using p c c' d obj by (auto simp: json_value.simps)
        with extendsD [OF m at' ms(1)] c c' cq cq' d obj False show ?thesis
          by (simp add: json_value.simps)
      qed (use p c c' cq cq' d obj at' in \<open>auto simp: json_value.simps\<close>)
    next
      case arr: False
      show ?thesis
      proof (cases "c' = CHR '']''")
        case False
        then obtain vs where vs: "json_elems n (d - 1) (c' # t') = Some (vs, r)" "v = JArr vs"
          using p c c' d arr True by (auto simp: json_value.simps)
        with extendsD [OF e at' vs(1)] c c' cq cq' d arr True False show ?thesis
          by (simp add: json_value.simps)
      qed (use p c c' cq cq' d arr True at' in \<open>auto simp: json_value.simps\<close>)
    qed
  next
    case nc: False
    show ?thesis
    proof (cases "c = quote_char")
      case True
      then obtain x where x: "unquote t = Some (x, r)" "v = JStr x" using p c nc by (auto simp: json_value.simps)
      with unquote_extend [OF ascii_tl [OF at] x(1), of q] c cq nc True show ?thesis
        by (simp add: json_value.simps)
    next
      case nq: False
      show ?thesis
      proof (cases "c \<in> {CHR ''n'', CHR ''t'', CHR ''f''}")
        case True
        then obtain w x where w: "\<And>y t. skip_ws y = c # t \<Longrightarrow> json_value (Suc n) d y = literal w x (c # t)"
          using value_literal [OF True, of n d] by auto
        have lit: "literal w x (c # t) = Some (v, r)" using w [OF c] p by simp
        from literal_extend [OF lit, of q] literal_ascii [OF at lit] w [OF cq] show ?thesis by simp
      next
        case False
        then obtain l where l: "json_number (c # t) = Some (l, r)" "v = JNum l"
          using p c nc nq by (auto simp: json_value.simps split: if_splits)
        with json_number_extend [OF l(1), of q] json_number_ascii [OF at l(1)] c cq nc nq False show ?thesis
          by (auto simp: json_value.simps is_num_def)
      qed
    qed
  qed
qed

lemma extends_all:
  "extends is_num (json_value n d) \<and> extends (\<lambda>_. False) (json_elems n d) \<and> extends (\<lambda>_. False) (json_members n d)"
proof (induction n arbitrary: d)
  case 0
  show ?case by (simp add: extends_def json_value.simps)
next
  case (Suc n)
  then show ?case by (intro conjI value_extends elems_extends members_extends) blast+
qed


section \<open>More fuel\<close>

lemma elems_fuel:
  assumes "\<And>s x. json_value n d s = Some x \<Longrightarrow> json_value m d s = Some x"
    and "\<And>s x. json_elems n d s = Some x \<Longrightarrow> json_elems m d s = Some x"
    and p: "json_elems (Suc n) d s = Some vs"
  shows "json_elems (Suc m) d s = Some vs"
proof -
  obtain v r where v: "json_value n d s = Some (v, r)" using p by (auto split: option.splits)
  then obtain c t where c: "skip_ws r = c # t" using p by (auto split: list.splits)
  from assms(1) [OF v] show ?thesis
    using p v c assms(2) by (cases "c = CHR '']''") (auto split: if_splits)
qed

lemma members_fuel:
  assumes "\<And>s x. json_value n d s = Some x \<Longrightarrow> json_value m d s = Some x"
    and "\<And>s x. json_members n d s = Some x \<Longrightarrow> json_members m d s = Some x"
    and p: "json_members (Suc n) d s = Some ms"
  shows "json_members (Suc m) d s = Some ms"
proof -
  obtain s1 where s1: "skip_ws s = quote_char # s1"
    using p by (cases "skip_ws s") (auto split: if_splits)
  then obtain k r1 where k: "unquote s1 = Some (k, r1)" using p by (cases "unquote s1") auto
  then obtain r2 where r2: "skip_ws r1 = CHR '':'' # r2"
    using p s1 by (cases "skip_ws r1") (auto split: if_splits)
  then obtain x r3 where x: "json_value n d r2 = Some (x, r3)"
    using p s1 k by (cases "json_value n d r2") auto
  then obtain c t where c: "skip_ws r3 = c # t" using p s1 k r2 by (cases "skip_ws r3") auto
  from assms(1) [OF x] show ?thesis
    using p s1 k r2 x c assms(2) by (cases "c = CHR ''}''") (auto split: if_splits)
qed

lemma value_fuel:
  assumes e: "\<And>d s x. json_elems n d s = Some x \<Longrightarrow> json_elems m d s = Some x"
    and mm: "\<And>d s x. json_members n d s = Some x \<Longrightarrow> json_members m d s = Some x"
    and p: "json_value (Suc n) d s = Some v"
  shows "json_value (Suc m) d s = Some v"
proof -
  obtain c t where c: "skip_ws s = c # t" using p by (cases "skip_ws s") (auto simp: json_value.simps)
  show ?thesis
  proof (cases "(c = CHR ''{'' \<or> c = CHR ''['') \<and> d \<noteq> 0 \<and> skip_ws t \<noteq> []")
    case True
    then obtain c' t' where c': "skip_ws t = c' # t'" by (cases "skip_ws t") auto
    show ?thesis
    proof (cases "c = CHR ''{''")
      case obj: True
      then show ?thesis using p c c' True mm by (cases "c' = CHR ''}''") (auto simp: json_value.simps)
    next
      case False
      then show ?thesis using p c c' True e by (cases "c' = CHR '']''") (auto simp: json_value.simps)
    qed
  next
    case False
    then show ?thesis using p c by (auto simp: json_value.simps split: if_splits)
  qed
qed

lemma fuel_Suc:
  "(json_value n d s = Some v \<longrightarrow> json_value (Suc n) d s = Some v)
   \<and> (json_elems n d s = Some vs \<longrightarrow> json_elems (Suc n) d s = Some vs)
   \<and> (json_members n d s = Some ms \<longrightarrow> json_members (Suc n) d s = Some ms)"
proof (induction n arbitrary: d s v vs ms)
  case 0
  show ?case by (simp add: json_value.simps)
next
  case (Suc n)
  show ?case
    by (intro conjI impI; erule value_fuel [rotated -1] elems_fuel [rotated -1] members_fuel [rotated -1];
        use Suc in blast)
qed

lemma json_value_fuel_add: "json_value n d s = Some v \<Longrightarrow> json_value (n + k) d s = Some v"
proof (induction k)
  case (Suc k)
  then show ?case using fuel_Suc [THEN conjunct1, rule_format, of "n + k" d s v] by (simp only: add_Suc_right)
qed simp

lemma json_value_fuel: "json_value n d s = Some v \<Longrightarrow> n \<le> m \<Longrightarrow> json_value m d s = Some v"
  using json_value_fuel_add [of n d s v "m - n"] by (simp only: le_add_diff_inverse)

section \<open>Strict prefixes\<close>

text \<open>No strict prefix of the text of an object, or of an array or a string, parses.\<close>

lemma json_parse_prefix:
  assumes ok: "json_ok v" "json_depth v \<le> 10000" "\<not> is_num v" and asc: "ascii (json_text v)"
    and eq: "json_text v = p @ q" and parse: "json_parse p = Some w" and w: "\<not> is_num w"
  shows "q = []"
proof -
  obtain r where r: "json_value (2 * length p + 2) 10000 p = Some (w, r)"
    using parse by (auto simp: json_parse_def split: option.splits if_splits)
  have "ascii p" using asc eq by simp
  from extendsD(2) [OF conjunct1 [OF extends_all] this r] w
  have "json_value (2 * length p + 2) 10000 (json_text v) = Some (w, r @ q)" by (simp add: eq)
  then have "json_value (2 * length (json_text v) + 2) 10000 (json_text v) = Some (w, r @ q)"
    by (rule json_value_fuel) (simp add: eq)
  moreover have "json_value (2 * length (json_text v) + 2) 10000 (json_text v @ []) = Some (v, [])"
    using rounds [of "2 * length (json_text v) + 2", THEN conjunct1, unfolded value_round_def,
        rule_format, OF ok(1,2), of "[]"] by simp
  ultimately show "q = []" by simp
qed

end
