(* ===== verification/Tunnel.thy ===== *)
theory Tunnel
  imports Server Client Json_Prefix
begin

text \<open>
  What server and client guarantee together: at most one live smux session per server whatever
  interleaving of reconnects, accept errors and shutdown; a dead session replaced once; the
  connect request of a client understood, and only acted on when complete and authorised.
\<close>

section \<open>Sessions of the server\<close>

text \<open>The state and whether some goroutine is between the two halves of \<open>reinstallSession\<close>, which
  holds \<open>reinstallMu\<close>. \<open>dead\<close> may be any session a goroutine has seen before.\<close>

inductive session_step :: "server \<times> bool \<Rightarrow> server \<times> bool \<Rightarrow> bool" where
  Begin: "reinstall_begin dead s = (go, s') \<Longrightarrow> session_step (s, False) (s', go)"
| End: "session_step (s, True) (installSession newSess s, False)"
| Close: "session_step (s, busy) (closeSession s, busy)"
| Data: "session_step (s, busy) (server_onData cipher data s, busy)"

inductive session_reachable :: "server_args \<Rightarrow> server \<times> bool \<Rightarrow> bool" for a where
  start: "session_reachable a (installSession newSess (server_of_args a), False)"
| step: "session_reachable a sb \<Longrightarrow> session_step sb sb' \<Longrightarrow> session_reachable a sb'"

inductive_cases begin_cases: "session_step (s, False) sb"

definition only_current :: "nat option \<Rightarrow> (nat \<Rightarrow> bool) \<Rightarrow> nat \<Rightarrow> bool" where
  "only_current cur is_open n \<longleftrightarrow>
     (\<forall>i<n. is_open i \<longrightarrow> cur = Some i) \<and> (case cur of None \<Rightarrow> True | Some i \<Rightarrow> i < n)"

definition session_inv :: "server \<times> bool \<Rightarrow> bool" where
  "session_inv sb = (case sb of (s, busy) \<Rightarrow>
     only_current (sv_session s) (\<lambda>i. \<not> sv_sessions s ! i) (length (sv_sessions s))
     \<and> only_current (sv_conn s) (\<lambda>i. \<not> mx_closed (sv_conns s ! i)) (length (sv_conns s))
     \<and> (busy \<longrightarrow> sv_session s = None \<and> sv_conn s = None))"

lemma mux_Close_closed [simp]: "mx_closed (mux_Close c)"
  by (simp add: mux_Close_def)

lemma only_current_sessions:
  "only_current cur (\<lambda>i. \<not> xs ! i) (length xs) \<Longrightarrow>
     only_current None (\<lambda>i. \<not> closed_at cur xs ! i) (length (closed_at cur xs))"
  by (auto simp: only_current_def closed_at_def nth_list_update split: option.splits)

lemma only_current_conns:
  "only_current cur (\<lambda>i. \<not> mx_closed (cs ! i)) (length cs) \<Longrightarrow>
     only_current None (\<lambda>i. \<not> mx_closed (conn_closed_at cur cs ! i)) (length (conn_closed_at cur cs))"
  by (auto simp: only_current_def conn_closed_at_def nth_list_update split: option.splits)

lemma only_current_new:
  "only_current None (\<lambda>i. open_at (xs ! i)) (length xs) \<Longrightarrow>
     only_current (Some (length xs)) (\<lambda>i. open_at ((xs @ [x]) ! i)) (length (xs @ [x]))"
  by (auto simp: only_current_def nth_append less_Suc_eq)

lemma closeSession_inv: "session_inv (s, busy) \<Longrightarrow> session_inv (closeSession s, busy')"
  by (simp add: session_inv_def closeSession_def only_current_sessions only_current_conns)

lemma installSession_inv: "session_inv (s, True) \<Longrightarrow> session_inv (installSession newSess s, False)"
  using only_current_new [of "\<lambda>b. \<not> b" "sv_sessions s" False]
    only_current_new [of "\<lambda>c. \<not> mx_closed c" "sv_conns s" mux_New]
  by (cases newSess) (auto simp: session_inv_def installSession_def)

lemma onData_inv: "session_inv (s, busy) \<Longrightarrow> session_inv (server_onData cipher data s, busy)"
  by (cases "sv_conn s")
    (auto simp: session_inv_def server_onData_def only_current_def nth_list_update cong: option.case_cong)

lemma session_step_inv: "session_step sb sb' \<Longrightarrow> session_inv sb \<Longrightarrow> session_inv sb'"
proof (induction rule: session_step.induct)
  case (Begin dead s go s')
  then show ?case
    by (auto simp: reinstall_begin_def closeSession_def session_inv_def only_current_sessions
        only_current_conns split: if_splits)
qed (simp_all add: installSession_inv closeSession_inv onData_inv)

lemma session_reachable_inv: "session_reachable a sb \<Longrightarrow> session_inv sb"
proof (induction rule: session_reachable.induct)
  case (start newSess)
  have "session_inv (server_of_args a, True)"
    by (simp add: session_inv_def server_of_args_def only_current_def)
  then show ?case by (rule installSession_inv)
qed (rule session_step_inv)

section \<open>A complete request, and only a complete one\<close>

lemma request_json_ok:
  assumes "ascii clientID" and "ascii addr"
  shows "json_ok (connect_request_json clientID addr port)"
    and "json_depth (connect_request_json clientID addr port) \<le> 10000"
    and "\<not> is_num (connect_request_json clientID addr port)"
  using assms by (auto simp: connect_request_json_def is_num_def)

lemma ascii_escape: "cp c < 0x80 \<Longrightarrow> ascii (escape_ascii c)"
proof -
  have "cp (hex_digit n) < 0x80" if "n < 16" for n using that by (simp add: hex_digit_def)
  moreover assume "cp c < 0x80"
  ultimately show ?thesis by (auto simp: escape_ascii_def hex2_def quote_char_def backslash_def)
qed

lemma ascii_quote_body: "ascii s \<Longrightarrow> ascii (quote_body s)"
  by (induction s) (simp_all add: quote_body.simps ascii_escape)

lemma ascii_quote: "ascii s \<Longrightarrow> ascii (quote s)"
  by (simp add: quote_def ascii_quote_body quote_char_def)

lemma ascii_digits: "ascii (dec_digits n)"
  using dec_digits_digit [of _ n] by (fastforce simp: ascii_def is_digit_def)

lemma ascii_Itoa: "ascii (Itoa i)"
  by (simp add: Itoa_def ascii_digits)

lemma request_ascii:
  "ascii clientID \<Longrightarrow> ascii addr \<Longrightarrow> ascii (json_text (connect_request_json clientID addr port))"
  by (simp add: connect_request_json_def ascii_quote ascii_Itoa)

lemma parse_is_object:
  assumes "parseConnectRequest buf = Some req"
  obtains w where "json_parse (gostr buf) = Some w" "\<not> is_num w"
proof -
  from assms obtain w where "json_parse (gostr buf) = Some w" "store_object store_request w ConnectRequest_zero \<noteq> None"
    by (auto simp: parseConnectRequest_def Unmarshal_def split: option.splits)
  then show ?thesis by (intro that) (auto simp: store_object_def is_num_def split: json.splits)
qed

lemma parse_request:
  assumes "ascii clientID" and "ascii addr" and "- (2 ^ 63) \<le> port" and "port < 2 ^ 63"
  shows "parseConnectRequest (str (json_text (connect_request_json clientID addr port)))
    = Some \<lparr>cr_Cmd = ''connect'', cr_ClientID = clientID, cr_Addr = addr, cr_Port = port\<rparr>"
proof -
  note ok = request_json_ok(1,2) [OF assms(1,2), of port, unfolded connect_request_json_def]
  have "Unmarshal store_request (json_text (connect_request_json clientID addr port)) ConnectRequest_zero
      = Some \<lparr>cr_Cmd = ''connect'', cr_ClientID = clientID, cr_Addr = addr, cr_Port = port\<rparr>"
    unfolding connect_request_json_def Unmarshal_text [OF ok]
    using ParseInt_Itoa [OF assms(3,4)]
    by (simp add: store_request_def store_string_def store_int_def ConnectRequest_zero_def
        EqualFold_def ToLower_def char_lower_def Let_def)
  then show ?thesis by (simp add: parseConnectRequest_def connectCommand_def)
qed

lemma parse_partial:
  assumes "ascii clientID" and "ascii addr"
    and "str (json_text (connect_request_json clientID addr port)) = p @ q" and "q \<noteq> []"
  shows "parseConnectRequest p = None"
proof (rule ccontr)
  assume "parseConnectRequest p \<noteq> None"
  then obtain req where "parseConnectRequest p = Some req" by blast
  then obtain w where w: "json_parse (gostr p) = Some w" "\<not> is_num w" by (rule parse_is_object)
  have "json_text (connect_request_json clientID addr port) = gostr (p @ q)"
    using assms(3) gostr_str by metis
  then have "json_text (connect_request_json clientID addr port) = gostr p @ gostr q" by (simp add: gostr_def)
  from json_parse_prefix [OF request_json_ok [OF assms(1,2)] request_ascii [OF assms(1,2)] this w]
  show False using assms(4) by (simp add: gostr_def)
qed

text \<open>The chunks of a request, none of them with an error.\<close>

definition clean_chunks :: "(bytes \<times> go_error option) list \<Rightarrow> bytes \<Rightarrow> bool" where
  "clean_chunks chunks text \<longleftrightarrow> concat (map fst chunks) = text \<and> list_all (\<lambda>(b, e). e = None) chunks"

lemma read_request_complete:
  assumes "ascii clientID" and "ascii addr" and "- (2 ^ 63) \<le> port" and "port < 2 ^ 63"
    and "header @ concat (map fst chunks) = str (json_text (connect_request_json clientID addr port))"
    and "list_all (\<lambda>(b, e). e = None) chunks" and "concat (map fst chunks) \<noteq> []"
    and "length (json_text (connect_request_json clientID addr port)) \<le> maxConnReq + 1"
  shows "read_request s chunks header =
     (if clientID = sv_clientID s
      then Dispatched \<lparr>cr_Cmd = ''connect'', cr_ClientID = clientID, cr_Addr = addr, cr_Port = port\<rparr>
      else Rejected)"
  using assms(5-7)
proof (induction chunks arbitrary: header)
  case (Cons ce chunks)
  obtain b where ce: "ce = (b, None)" using Cons.prems(2) by (cases ce) simp
  let ?rest = "concat (map fst chunks)"
  show ?case
  proof (cases "?rest = []")
    case True
    have "header @ b @ ?rest = str (json_text (connect_request_json clientID addr port))" "b @ ?rest \<noteq> []"
      using Cons.prems(1,3) ce by simp_all
    then have "header @ b = str (json_text (connect_request_json clientID addr port))" "b \<noteq> []"
      unfolding True by simp_all
    then show ?thesis using parse_request [OF assms(1-4)] ce by (simp add: authorizeRequest_def)
  next
    case False
    have eq: "str (json_text (connect_request_json clientID addr port)) = (header @ b) @ ?rest"
      using Cons.prems(1) ce by simp
    have n: "parseConnectRequest (header @ b) = None" by (rule parse_partial [OF assms(1,2) eq False])
    have "length (json_text (connect_request_json clientID addr port)) = length (header @ b) + length ?rest"
      using arg_cong [OF eq, of length] by simp
    then have "\<not> maxConnReq < length (header @ b)" using assms(8) False by (cases ?rest) auto
    moreover have "read_request s chunks (header @ b) =
       (if clientID = sv_clientID s
        then Dispatched \<lparr>cr_Cmd = ''connect'', cr_ClientID = clientID, cr_Addr = addr, cr_Port = port\<rparr>
        else Rejected)"
      by (rule Cons.IH) (use eq Cons.prems False in auto)
    ultimately show ?thesis using ce n by (cases "b = []") (simp_all add: Let_def)
  qed
qed simp

text \<open>Before the last byte of a request nothing happens, however it is cut.\<close>

lemma read_request_partial:
  assumes "ascii clientID" and "ascii addr"
    and "str (json_text (connect_request_json clientID addr port)) = header @ concat (map fst chunks) @ q"
    and "q \<noteq> []" and "list_all (\<lambda>(b, e). e = None) chunks"
    and "length (json_text (connect_request_json clientID addr port)) \<le> maxConnReq + 1"
  shows "read_request s chunks header = Waiting (header @ concat (map fst chunks))"
  using assms(3,5)
proof (induction chunks arbitrary: header)
  case (Cons ce chunks)
  obtain b where ce: "ce = (b, None)" using Cons.prems(2) by (cases ce) simp
  let ?text = "str (json_text (connect_request_json clientID addr port))"
  have eq: "?text = (header @ b) @ concat (map fst chunks) @ q" using Cons.prems(1) ce by simp
  have n: "parseConnectRequest (header @ b) = None"
    by (rule parse_partial [OF assms(1,2) eq]) (simp add: assms(4))
  have "length ?text = length (header @ b) + (length (concat (map fst chunks)) + length q)"
    unfolding eq by simp
  then have "\<not> maxConnReq < length (header @ b)" using assms(4,6) by (cases q) auto
  moreover have "read_request s chunks (header @ b) = Waiting ((header @ b) @ concat (map fst chunks))"
    by (rule Cons.IH) (use eq Cons.prems(2) in auto)
  ultimately show ?case using ce n by (cases "b = []") (simp_all add: Let_def)
qed simp

lemma sendConnectRequest_out:
  assumes "sendConnectRequest c sid addr port stream = (r, stream')"
    and "length (json_text (connect_request_json (cl_clientID c) addr port)) \<le> sk_room stream"
  shows "sk_out stream' = sk_out stream @ str (json_text (connect_request_json (cl_clientID c) addr port))"
  using assms
  by (auto simp: sendConnectRequest_def sock_Write_def ReadFull_def split: sum.splits prod.splits if_splits)

section \<open>Properties\<close>


text \<open>C18: however many goroutines see the same session die, it is replaced once: the first to get
  the lock closes it and installs one new session, on one new connection, and every later call
  for the dead session changes nothing. When the new session cannot be made, none of them tries
  again.\<close>

theorem reinstall_once:
  assumes "session_reachable a (s, False)" and "sv_session s = Some dead"
  shows "foldl (\<lambda>s r. reinstallSession (Some dead) r s) s (r # rs) = reinstallSession (Some dead) r s
     \<and> sv_sessions (reinstallSession (Some dead) r s)
         = (sv_sessions s)[dead := True] @ (if r = None then [False] else [])
     \<and> sv_session (reinstallSession (Some dead) r s)
         = (if r = None then Some (length (sv_sessions s)) else None)"
proof -
  have dead: "dead < length (sv_sessions s)"
    using session_reachable_inv [OF assms(1)] assms(2) by (simp add: session_inv_def only_current_def)
  have one: "sv_sessions (reinstallSession (Some dead) r s)
         = (sv_sessions s)[dead := True] @ (if r = None then [False] else [])"
    "sv_session (reinstallSession (Some dead) r s)
         = (if r = None then Some (length (sv_sessions s)) else None)"
    using assms(2)
    by (auto simp: reinstallSession_def reinstall_begin_def installSession_def closeSession_def
        closed_at_def split: option.splits)
  have "foldl (\<lambda>s r. reinstallSession (Some dead) r s) s' rs = s'" if "sv_session s' \<noteq> Some dead" for s'
    using that by (induction rs) (simp_all add: reinstallSession_def reinstall_begin_def)
  moreover have "sv_session (reinstallSession (Some dead) r s) \<noteq> Some dead" using one(2) dead by simp
  ultimately show ?thesis using one by simp
qed

text \<open>C7: the request a client writes on a fresh stream is understood by the server however the
  stream cuts it into chunks: a server configured with the client's identifier dials exactly the
  address and port the client was asked for, and any other server rejects the stream.\<close>

theorem request_end_to_end:
  assumes "ascii (cl_clientID c)" and "ascii addr" and "0 \<le> port" and "port < 65536"
    and "sendConnectRequest c sid addr port stream = (r, stream')" and "sk_out stream = []"
    and "length (json_text (connect_request_json (cl_clientID c) addr port)) \<le> min (sk_room stream) 4097"
    and "clean_chunks chunks (sk_out stream')"
  shows "read_request s chunks [] =
     (if cl_clientID c = sv_clientID s
      then Dispatched \<lparr>cr_Cmd = ''connect'', cr_ClientID = sv_clientID s, cr_Addr = addr, cr_Port = port\<rparr>
      else Rejected)"
proof -
  have wire: "concat (map fst chunks) = str (json_text (connect_request_json (cl_clientID c) addr port))"
    using sendConnectRequest_out [OF assms(5)] assms(6-8) by (simp add: clean_chunks_def)
  have "read_request s chunks [] =
     (if cl_clientID c = sv_clientID s
      then Dispatched \<lparr>cr_Cmd = ''connect'', cr_ClientID = cl_clientID c, cr_Addr = addr, cr_Port = port\<rparr>
      else Rejected)"
    by (rule read_request_complete)
      (use assms(1-4,7,8) wire in \<open>auto simp: clean_chunks_def maxConnReq_def connect_request_json_def\<close>)
  then show ?thesis by simp
qed

text \<open>C19: a server never acts on a request it has only a part of: as long as a byte is missing, it
  has dialled nothing and rejected nothing and keeps reading, wherever the bytes were cut.\<close>

theorem request_never_early:
  assumes "ascii clientID" and "ascii addr"
    and "length (json_text (connect_request_json clientID addr port)) \<le> 4097"
    and "str (json_text (connect_request_json clientID addr port)) = part @ missing" and "missing \<noteq> []"
    and "clean_chunks chunks part"
  shows "read_request s chunks [] = Waiting part"
  using read_request_partial [OF assms(1,2), of port "[]" chunks missing s] assms(3-6)
  by (simp add: clean_chunks_def maxConnReq_def)

section \<open>Witnesses\<close>

definition example_client :: client where
  "example_client =
     \<lparr>cl_clientID = ''alice'', cl_socksUser = [], cl_socksPass = [], cl_conns = [], cl_sessions = [],
      cl_conn = None, cl_session = None\<rparr>"

definition example_server :: server where
  "example_server =
     \<lparr>sv_clientID = ''alice'', sv_dnsServer = [], sv_socksProxyAddr = [], sv_socksProxyPort = 0,
      sv_conns = [], sv_sessions = [], sv_conn = None, sv_session = None\<rparr>"

definition example_started :: server where
  "example_started =
     installSession None (server_of_args (server_args_of (example_config ''srv'' ''datachannel'')))"

lemma example_started_fields:
  "sv_sessions example_started = [False]" "sv_session example_started = Some 0"
  by (simp_all add: example_started_def installSession_def server_of_args_def)

lemma example_started_reachable:
  "session_reachable (server_args_of (example_config ''srv'' ''datachannel'')) (example_started, False)"
  unfolding example_started_def by (rule session_reachable.start)


theorem reinstall_once_witness:
  "foldl (\<lambda>s r. reinstallSession (Some 0) r s) example_started [None, None, Some io_EOF]
     = reinstallSession (Some 0) None example_started
   \<and> sv_sessions (reinstallSession (Some 0) None example_started) = [True, False]"
  using reinstall_once [OF example_started_reachable, where dead = 0 and r = None and rs = "[None, Some io_EOF]"]
  by (simp add: example_started_fields)

lemma example_request_length:
  "length (json_text (connect_request_json ''alice'' ''example.org'' 443)) = 68"
  by (simp add: connect_request_json_def quote_def quote_char_def Itoa_def dec_digits.simps quote_body.simps
      escape_ascii_def backslash_def)

definition example_stream :: sock where
  "example_stream =
     \<lparr>sk_in = [0], sk_rerr = io_EOF, sk_out = [], sk_room = 100, sk_werr = io_EOF\<rparr>"

theorem request_end_to_end_witness:
  "read_request example_server
     [([], None), (take 10 (str (json_text (connect_request_json ''alice'' ''example.org'' 443))), None),
      (drop 10 (str (json_text (connect_request_json ''alice'' ''example.org'' 443))), None)] []
   = Dispatched \<lparr>cr_Cmd = ''connect'', cr_ClientID = ''alice'', cr_Addr = ''example.org'', cr_Port = 443\<rparr>"
proof -
  let ?text = "str (json_text (connect_request_json ''alice'' ''example.org'' 443))"
  have id: "cl_clientID example_client = ''alice''" "sv_clientID example_server = ''alice''"
    by (simp_all add: example_client_def example_server_def)
  obtain r stream' where s: "sendConnectRequest example_client 1 ''example.org'' 443 example_stream = (r, stream')"
    by fastforce
  have out: "sk_out stream' = ?text"
    using sendConnectRequest_out [OF s] by (simp add: id example_request_length example_stream_def)
  have "clean_chunks [([], None), (take 10 ?text, None), (drop 10 ?text, None)] (sk_out stream')"
    unfolding out by (simp add: clean_chunks_def)
  from request_end_to_end [OF _ _ _ _ s _ _ this, of example_server]
  show ?thesis by (simp add: id example_request_length) (simp add: example_stream_def)
qed

theorem request_never_early_witness:
  "read_request example_server
     [(take 67 (str (json_text (connect_request_json ''alice'' ''example.org'' 443))), None)] []
   = Waiting (take 67 (str (json_text (connect_request_json ''alice'' ''example.org'' 443))))"
proof -
  let ?text = "str (json_text (connect_request_json ''alice'' ''example.org'' 443))"
  have cut: "?text = take 67 ?text @ drop 67 ?text" by (simp only: append_take_drop_id)
  have rest: "drop 67 ?text \<noteq> []" by (simp add: example_request_length)
  have chunks: "clean_chunks [(take 67 ?text, None)] (take 67 ?text)" by (simp add: clean_chunks_def)
  from request_never_early [OF _ _ _ cut rest chunks, of example_server]
  show ?thesis by (simp add: example_request_length)
qed

end
