(* ===== verification/Relay.thy ===== *)
theory Relay
  imports Tunnel "HOL-Library.Sublist"
begin

text \<open>
  The joined part of a tunnel: after the connect request has been answered, \<open>tunnel\<close> in
  \<open>client/client.go\<close> and \<open>dispatch\<close> in \<open>server/server.go\<close> run the same two copies between their TCP
  connection and their stream, \<open>io.Copy(stream, conn)\<close> in a goroutine that then closes the stream,
  and \<open>io.Copy(conn, stream)\<close> followed by the deferred closing of both.

  A \<open>port\<close> is one end of a connection as \<open>net.Conn\<close> documents it: bytes arrive until the peer has
  finished; a read gives some of them, then \<open>EOF\<close>, and waits in between; closing makes pending and
  later calls fail; a broken connection fails them too. \<open>po_got\<close> and \<open>po_sent\<close> are all bytes that
  ever arrived and that were ever written.
\<close>

section \<open>Connections\<close>

record port =
  po_got :: bytes
  po_in :: bytes
  po_fin :: bool
  po_sent :: bytes
  po_broken :: bool
  po_closed :: bool

definition port_of :: "bytes \<Rightarrow> port" where
  "port_of early = \<lparr>po_got = early, po_in = early, po_fin = False, po_sent = [], po_broken = False, po_closed = False\<rparr>"

definition ErrClosed :: go_error where "ErrClosed = Base ''use of closed network connection''"

text \<open>All results a read of at most \<open>max 1 k\<close> bytes can have now; none while it waits.\<close>

definition port_Read :: "nat \<Rightarrow> port \<Rightarrow> ((go_error + bytes) \<times> port) list" where
  "port_Read k po =
     (if po_in po \<noteq> [] then [(Inr (take (max 1 k) (po_in po)), po\<lparr>po_in := drop (max 1 k) (po_in po)\<rparr>)] else [])
     @ (if po_in po = [] \<and> po_fin po then [(Inl EOF, po)] else [])
     @ (if po_closed po \<or> po_broken po then [(Inl ErrClosed, po)] else [])"

text \<open>A write to a connection that breaks may have written the first \<open>m\<close> bytes.\<close>

definition port_Write :: "nat \<Rightarrow> bytes \<Rightarrow> port \<Rightarrow> go_error option \<times> port" where
  "port_Write m data po =
     (if po_closed po then (Some ErrClosed, po)
      else if po_broken po then (Some ErrClosed, po\<lparr>po_sent := po_sent po @ take m data\<rparr>)
      else (None, po\<lparr>po_sent := po_sent po @ data\<rparr>))"

definition port_Close :: "port \<Rightarrow> port" where
  "port_Close po = po\<lparr>po_closed := True\<rparr>"

section \<open>Package io\<close>

text \<open>\<open>io.Copy\<close>: its buffer is empty, or holds what it has to write next, or it has returned; at the
  end of its source it returns nil.\<close>

datatype copying = Reading | Writing bytes | Returned "go_error option"

definition copyBufferSize :: nat where "copyBufferSize = 32 * 1024"

definition copy_step :: "nat \<Rightarrow> nat \<Rightarrow> port \<Rightarrow> port \<Rightarrow> copying \<Rightarrow> (port \<times> port \<times> copying) list" where
  "copy_step k m src dst c =
     (case c of
        Reading \<Rightarrow>
          map (\<lambda>(r, src'). (src', dst,
                 case r of Inr b \<Rightarrow> Writing b
                         | Inl err \<Rightarrow> Returned (if err = EOF then None else Some err)))
              (port_Read (min k copyBufferSize) src)
      | Writing b \<Rightarrow>
          (case port_Write m b dst of
             (None, dst') \<Rightarrow> [(src, dst', Reading)]
           | (Some err, dst') \<Rightarrow> [(src, dst', Returned (Some err))])
      | Returned _ \<Rightarrow> [])"

section \<open>One end\<close>

record relay =
  ry_conn :: port
  ry_stream :: port
  ry_up :: copying
  ry_down :: copying

definition relay_start :: "bytes \<Rightarrow> bytes \<Rightarrow> relay" where
  "relay_start fromConn fromStream =
     \<lparr>ry_conn = port_of fromConn, ry_stream = port_of fromStream, ry_up = Reading, ry_down = Reading\<rparr>"

text \<open>What \<open>handleSocks5\<close> and \<open>handleStream\<close> start: a connection with the bytes its peer has sent since.\<close>

definition client_relay :: "client \<Rightarrow> (nat \<Rightarrow> go_error + int \<times> sock) \<Rightarrow> sock \<Rightarrow> relay option" where
  "client_relay c openStream conn =
     (case handleSocks5 c openStream conn of
        (Joined, conn', Some stream) \<Rightarrow> Some (relay_start (sk_in conn') (sk_in stream))
      | _ \<Rightarrow> None)"

definition server_relay ::
    "(string \<Rightarrow> go_error + sock) \<Rightarrow> server \<Rightarrow> (bytes \<times> go_error option) list \<Rightarrow> sock \<Rightarrow> relay option" where
  "server_relay dialer s chunks stream =
     (case handleStream dialer s chunks stream of
        (Some conn, stream') \<Rightarrow> Some (relay_start (sk_in conn) (sk_in stream'))
      | (None, _) \<Rightarrow> None)"

definition returned :: "copying \<Rightarrow> bool" where
  "returned c = (case c of Returned _ \<Rightarrow> True | _ \<Rightarrow> False)"

text \<open>The goroutine: copy, then close the stream.\<close>

definition up_step :: "nat \<Rightarrow> nat \<Rightarrow> relay \<Rightarrow> relay list" where
  "up_step k m r =
     map (\<lambda>(conn, stream, c).
            r\<lparr>ry_conn := conn, ry_stream := (if returned c then port_Close stream else stream), ry_up := c\<rparr>)
         (copy_step k m (ry_conn r) (ry_stream r) (ry_up r))"

text \<open>The function itself: copy, then close connection and stream.\<close>

definition down_step :: "nat \<Rightarrow> nat \<Rightarrow> relay \<Rightarrow> relay list" where
  "down_step k m r =
     map (\<lambda>(stream, conn, c).
            r\<lparr>ry_conn := (if returned c then port_Close conn else conn),
              ry_stream := (if returned c then port_Close stream else stream), ry_down := c\<rparr>)
         (copy_step k m (ry_stream r) (ry_conn r) (ry_down r))"

end
