(* ===== verification/Relay_Contract.thy ===== *)
theory Relay_Contract
  imports Relay
begin

text \<open>
  Two relays, the client's and the server's, whose streams are the two ends of one smux stream. smux
  is not in the repository; of it only what the tunnel relies on is assumed: bytes arrive in order, the
  end of the stream arrives after them, a session that breaks fails both ends. Everything else can
  happen at any time: data, the end or a failure of either TCP connection, a failure of the session.
\<close>

section \<open>The linked system\<close>

definition arrives :: "bytes \<Rightarrow> port \<Rightarrow> port" where
  "arrives bs po = po\<lparr>po_got := po_got po @ bs, po_in := po_in po @ bs\<rparr>"

text \<open>What one end has written and the other has not got.\<close>

definition flight :: "relay \<Rightarrow> relay \<Rightarrow> bytes" where
  "flight a b = drop (length (po_got (ry_stream b))) (po_sent (ry_stream a))"

text \<open>The steps of the program and of the stream, written for the end \<open>a\<close> towards \<open>b\<close>.\<close>

inductive half_step :: "relay \<times> relay \<Rightarrow> relay \<times> relay \<Rightarrow> bool" where
  Up: "a' \<in> set (up_step k m a) \<Longrightarrow> half_step (a, b) (a', b)"
| Down: "a' \<in> set (down_step k m a) \<Longrightarrow> half_step (a, b) (a', b)"
| Move: "flight a b \<noteq> [] \<Longrightarrow>
    half_step (a, b) (a, b\<lparr>ry_stream := arrives (take (Suc j) (flight a b)) (ry_stream b)\<rparr>)"
| Fin: "po_closed (ry_stream a) \<Longrightarrow> flight a b = [] \<Longrightarrow> \<not> po_fin (ry_stream b) \<Longrightarrow>
    half_step (a, b) (a, b\<lparr>ry_stream := (ry_stream b)\<lparr>po_fin := True\<rparr>\<rparr>)"

inductive tunnel_step :: "relay \<times> relay \<Rightarrow> relay \<times> relay \<Rightarrow> bool" where
  Forth: "half_step (a, b) (a', b') \<Longrightarrow> tunnel_step (a, b) (a', b')"
| Back: "half_step (b, a) (b', a') \<Longrightarrow> tunnel_step (a, b) (a', b')"

text \<open>What the two applications and the network do, at one end.\<close>

inductive env_step :: "relay \<times> relay \<Rightarrow> relay \<times> relay \<Rightarrow> bool" where
  Data: "\<not> po_fin (ry_conn a) \<Longrightarrow> env_step (a, b) (a\<lparr>ry_conn := arrives bs (ry_conn a)\<rparr>, b)"
| End: "env_step (a, b) (a\<lparr>ry_conn := (ry_conn a)\<lparr>po_fin := True\<rparr>\<rparr>, b)"
| Fail: "env_step (a, b) (a\<lparr>ry_conn := (ry_conn a)\<lparr>po_broken := True\<rparr>\<rparr>, b)"
| Break: "env_step (a, b) (a\<lparr>ry_stream := (ry_stream a)\<lparr>po_broken := True\<rparr>\<rparr>,
     b\<lparr>ry_stream := (ry_stream b)\<lparr>po_broken := True\<rparr>\<rparr>)"

inductive tunnel_reachable :: "relay \<times> relay \<Rightarrow> bool" where
  start: "tunnel_reachable (relay_start x [], relay_start y [])"
| step: "tunnel_reachable s \<Longrightarrow> tunnel_step s s' \<Longrightarrow> tunnel_reachable s'"
| env1: "tunnel_reachable (a, b) \<Longrightarrow> env_step (a, b) (a', b') \<Longrightarrow> tunnel_reachable (a', b')"
| env2: "tunnel_reachable (a, b) \<Longrightarrow> env_step (b, a) (b', a') \<Longrightarrow> tunnel_reachable (a', b')"

section \<open>What a copy has done\<close>

text \<open>A copy has written what it has read, but for what it holds; one that returned nil has read and
  written its source to the end, one that failed has written a first part of what it read.\<close>

fun copied :: "port \<Rightarrow> port \<Rightarrow> copying \<Rightarrow> bool" where
  "copied src dst Reading \<longleftrightarrow> po_got src = po_sent dst @ po_in src"
| "copied src dst (Writing b) \<longleftrightarrow> b \<noteq> [] \<and> po_got src = po_sent dst @ b @ po_in src"
| "copied src dst (Returned None) \<longleftrightarrow> po_in src = [] \<and> po_fin src \<and> po_sent dst = po_got src"
| "copied src dst (Returned (Some _)) \<longleftrightarrow> (\<exists>lost. po_got src = po_sent dst @ lost @ po_in src)"

fun hand :: "copying \<Rightarrow> bytes" where
  "hand (Writing b) = b"
| "hand c = []"

lemma copied_prefix: "copied src dst c \<Longrightarrow> prefix (po_sent dst) (po_got src)"
  by (cases "(src, dst, c)" rule: copied.cases) (auto simp: prefix_def)

lemma copied_hand:
  "copied src dst c \<Longrightarrow> (\<forall>err. c \<noteq> Returned (Some err)) \<Longrightarrow> po_got src = po_sent dst @ hand c @ po_in src"
  by (cases "(src, dst, c)" rule: copied.cases) auto

lemma port_Read_Inr:
  "(Inr b, src') \<in> set (port_Read k src) \<longleftrightarrow>
     po_in src \<noteq> [] \<and> b = take (max 1 k) (po_in src) \<and> src' = src\<lparr>po_in := drop (max 1 k) (po_in src)\<rparr>"
  by (auto simp: port_Read_def)

lemma port_Read_Inl:
  "(Inl err, src') \<in> set (port_Read k src) \<longleftrightarrow>
     src' = src \<and> (err = EOF \<and> po_in src = [] \<and> po_fin src \<or> err = ErrClosed \<and> (po_closed src \<or> po_broken src))"
  by (auto simp: port_Read_def)

lemma EOF_ErrClosed [simp]: "EOF \<noteq> ErrClosed" "ErrClosed \<noteq> EOF"
  by (simp_all add: EOF_def ErrClosed_def)

text \<open>The steps of a copy, from each of its states.\<close>

lemma take_max: "take (max 1 n) xs = take (Suc (n - 1)) xs" "drop (max 1 n) xs = drop (Suc (n - 1)) xs"
  by (simp_all add: max_def)

lemma copy_step_Reading:
  assumes "(src', dst', c') \<in> set (copy_step k m src dst Reading)"
  shows "dst' = dst \<and>
    ((\<exists>n. po_in src \<noteq> [] \<and> src' = src\<lparr>po_in := drop (Suc n) (po_in src)\<rparr>
        \<and> c' = Writing (take (Suc n) (po_in src)))
     \<or> (po_in src = [] \<and> po_fin src \<and> src' = src \<and> c' = Returned None)
     \<or> ((po_closed src \<or> po_broken src) \<and> src' = src \<and> c' = Returned (Some ErrClosed)))"
proof -
  from assms obtain r where r: "(r, src') \<in> set (port_Read (min k copyBufferSize) src)" "dst' = dst"
      "c' = (case r of Inr b \<Rightarrow> Writing b | Inl err \<Rightarrow> Returned (if err = EOF then None else Some err))"
    by (auto simp: copy_step_def)
  show ?thesis
  proof (cases r)
    case (Inl err)
    with r show ?thesis by (auto simp: port_Read_Inl)
  next
    case (Inr b)
    with r show ?thesis unfolding Inr port_Read_Inr take_max by auto
  qed
qed

lemma copy_step_Writing:
  assumes "(src', dst', c') \<in> set (copy_step k m src dst (Writing b))"
  shows "src' = src \<and>
    ((\<not> po_closed dst \<and> \<not> po_broken dst \<and> dst' = dst\<lparr>po_sent := po_sent dst @ b\<rparr> \<and> c' = Reading)
     \<or> ((po_closed dst \<or> po_broken dst) \<and> c' = Returned (Some ErrClosed)
        \<and> (\<exists>j. dst' = dst\<lparr>po_sent := po_sent dst @ take j b\<rparr> \<and> (po_closed dst \<longrightarrow> j = 0))))"
proof (cases "po_closed dst")
  case True
  with assms show ?thesis by (simp add: copy_step_def port_Write_def)
qed (use assms in \<open>auto simp: copy_step_def port_Write_def split: if_splits\<close>)

section \<open>The invariant\<close>

text \<open>One direction, from the connection of \<open>a\<close> to the connection of \<open>b\<close>, and what is closed at one
  end.\<close>

definition line :: "relay \<Rightarrow> relay \<Rightarrow> bool" where
  "line a b \<longleftrightarrow> copied (ry_conn a) (ry_stream a) (ry_up a) \<and> copied (ry_stream b) (ry_conn b) (ry_down b)
     \<and> prefix (po_got (ry_stream b)) (po_sent (ry_stream a))
     \<and> (po_fin (ry_stream b) \<longrightarrow> po_closed (ry_stream a) \<and> po_got (ry_stream b) = po_sent (ry_stream a))"

definition ends :: "relay \<Rightarrow> bool" where
  "ends a \<longleftrightarrow> (po_closed (ry_stream a) \<longleftrightarrow> returned (ry_up a) \<or> returned (ry_down a))
     \<and> (po_closed (ry_conn a) \<longleftrightarrow> returned (ry_down a))"

definition tunnel_inv :: "relay \<times> relay \<Rightarrow> bool" where
  "tunnel_inv = (\<lambda>(a, b). line a b \<and> line b a \<and> ends a \<and> ends b)"

lemma tunnel_inv_sym: "tunnel_inv (a, b) \<longleftrightarrow> tunnel_inv (b, a)"
  by (auto simp: tunnel_inv_def)

lemma copied_cong:
  assumes "po_got src' = po_got src" "po_in src' = po_in src" "po_fin src' = po_fin src" "po_sent dst' = po_sent dst"
  shows "copied src' dst' c = copied src dst c"
  using assms by (cases "(src, dst, c)" rule: copied.cases) auto

text \<open>A step of a copy keeps what it has done true, and touches nothing else.\<close>

lemma copy_step_copied:
  assumes "(src', dst', c') \<in> set (copy_step k m src dst c)" and "copied src dst c"
  shows "copied src' dst' c'"
proof (cases "(src, dst, c)" rule: copied.cases)
  case (1 src0 dst0)
  then have c: "c = Reading" by simp
  from copy_step_Reading [OF assms(1) [unfolded c]] assms(2) show ?thesis
    unfolding c by (auto simp flip: append_take_drop_id [of "Suc _"])
next
  case (2 src0 dst0 b)
  then have c: "c = Writing b" by simp
  have "\<exists>lost. b = take j b @ lost" for j by (metis append_take_drop_id)
  with copy_step_Writing [OF assms(1) [unfolded c]] assms(2) show ?thesis
    unfolding c by auto
qed (use assms in \<open>auto simp: copy_step_def\<close>)

lemma copy_step_frame:
  assumes "(src', dst', c') \<in> set (copy_step k m src dst c)"
  shows "po_got src' = po_got src" "po_fin src' = po_fin src" "po_sent src' = po_sent src"
    "po_closed src' = po_closed src" "po_broken src' = po_broken src"
    "po_got dst' = po_got dst" "po_in dst' = po_in dst" "po_fin dst' = po_fin dst"
    "po_closed dst' = po_closed dst" "po_broken dst' = po_broken dst"
    "prefix (po_sent dst) (po_sent dst')" "po_closed dst \<longrightarrow> po_sent dst' = po_sent dst" "\<not> returned c"
proof -
  have "po_got src' = po_got src \<and> po_fin src' = po_fin src \<and> po_sent src' = po_sent src
    \<and> po_closed src' = po_closed src \<and> po_broken src' = po_broken src
    \<and> po_got dst' = po_got dst \<and> po_in dst' = po_in dst \<and> po_fin dst' = po_fin dst
    \<and> po_closed dst' = po_closed dst \<and> po_broken dst' = po_broken dst
    \<and> prefix (po_sent dst) (po_sent dst') \<and> (po_closed dst \<longrightarrow> po_sent dst' = po_sent dst) \<and> \<not> returned c"
  proof (cases c)
    case Reading
    from copy_step_Reading [OF assms [unfolded Reading]] show ?thesis by (auto simp: Reading returned_def)
  next
    case (Writing b)
    from copy_step_Writing [OF assms [unfolded Writing]] show ?thesis by (auto simp: Writing returned_def)
  qed (use assms in \<open>simp add: copy_step_def\<close>)
  then show "po_got src' = po_got src" "po_fin src' = po_fin src" "po_sent src' = po_sent src"
    "po_closed src' = po_closed src" "po_broken src' = po_broken src"
    "po_got dst' = po_got dst" "po_in dst' = po_in dst" "po_fin dst' = po_fin dst"
    "po_closed dst' = po_closed dst" "po_broken dst' = po_broken dst"
    "prefix (po_sent dst) (po_sent dst')" "po_closed dst \<longrightarrow> po_sent dst' = po_sent dst" "\<not> returned c"
    by simp_all
qed

lemma port_Close_simps [simp]:
  "po_got (port_Close po) = po_got po" "po_in (port_Close po) = po_in po" "po_fin (port_Close po) = po_fin po"
  "po_sent (port_Close po) = po_sent po" "po_broken (port_Close po) = po_broken po" "po_closed (port_Close po)"
  by (simp_all add: port_Close_def)

lemma copied_Close [simp]:
  "copied (port_Close src) dst c = copied src dst c" "copied src (port_Close dst) c = copied src dst c"
  by (rule copied_cong; simp)+

lemma up_step_inv:
  assumes "a' \<in> set (up_step k m a)" and "tunnel_inv (a, b)"
  shows "tunnel_inv (a', b)"
proof -
  obtain conn stream c where st: "(conn, stream, c) \<in> set (copy_step k m (ry_conn a) (ry_stream a) (ry_up a))"
      and a': "a' = a\<lparr>ry_conn := conn, ry_stream := (if returned c then port_Close stream else stream), ry_up := c\<rparr>"
    using assms(1) by (auto simp: up_step_def)
  note frame = copy_step_frame [OF st]
  have lines: "line a b" "line b a" "ends a" "ends b" using assms(2) by (simp_all add: tunnel_inv_def)
  have "copied conn stream c" using copy_step_copied [OF st] lines(1) by (simp add: line_def)
  moreover have "copied stream conn (ry_down a) = copied (ry_stream a) (ry_conn a) (ry_down a)"
    by (rule copied_cong) (simp_all add: frame)
  ultimately show ?thesis
    using lines frame unfolding a' tunnel_inv_def
    by (auto simp: line_def ends_def intro: prefix_order.trans)
qed

lemma down_step_inv:
  assumes "a' \<in> set (down_step k m a)" and "tunnel_inv (a, b)"
  shows "tunnel_inv (a', b)"
proof -
  obtain stream conn c where st: "(stream, conn, c) \<in> set (copy_step k m (ry_stream a) (ry_conn a) (ry_down a))"
      and a': "a' = a\<lparr>ry_conn := (if returned c then port_Close conn else conn),
        ry_stream := (if returned c then port_Close stream else stream), ry_down := c\<rparr>"
    using assms(1) by (auto simp: down_step_def)
  note frame = copy_step_frame [OF st]
  have lines: "line a b" "line b a" "ends a" "ends b" using assms(2) by (simp_all add: tunnel_inv_def)
  have "copied stream conn c" using copy_step_copied [OF st] lines(2) by (simp add: line_def)
  moreover have "copied conn stream (ry_up a) = copied (ry_conn a) (ry_stream a) (ry_up a)"
    by (rule copied_cong) (simp_all add: frame)
  ultimately show ?thesis
    using lines frame unfolding a' tunnel_inv_def
    by (auto simp: line_def ends_def intro: prefix_order.trans)
qed

lemma copied_arrives: "copied src dst c \<Longrightarrow> \<not> po_fin src \<Longrightarrow> copied (arrives bs src) dst c"
  by (cases "(src, dst, c)" rule: copied.cases) (auto simp: arrives_def)

lemma arrives_simps [simp]:
  "po_got (arrives bs po) = po_got po @ bs" "po_in (arrives bs po) = po_in po @ bs" "po_fin (arrives bs po) = po_fin po"
  "po_sent (arrives bs po) = po_sent po" "po_broken (arrives bs po) = po_broken po"
  "po_closed (arrives bs po) = po_closed po"
  by (simp_all add: arrives_def)

lemma copied_dst [simp]: "copied src (arrives bs dst) c = copied src dst c"
  by (rule copied_cong) simp_all

lemma copied_fin: "copied src dst c \<Longrightarrow> copied (src\<lparr>po_fin := True\<rparr>) dst c"
  by (cases "(src, dst, c)" rule: copied.cases) auto

lemma copied_flags [simp]:
  "copied src (dst\<lparr>po_fin := x\<rparr>) c = copied src dst c"
  "copied (src\<lparr>po_broken := x\<rparr>) dst c = copied src dst c"
  "copied src (dst\<lparr>po_broken := x\<rparr>) c = copied src dst c"
  by (rule copied_cong; simp)+

lemma flight_append:
  "prefix (po_got (ry_stream b)) (po_sent (ry_stream a)) \<Longrightarrow> po_sent (ry_stream a) = po_got (ry_stream b) @ flight a b"
  by (auto simp: flight_def prefix_def)

lemma half_step_inv:
  assumes "half_step s s'" and "tunnel_inv s"
  shows "tunnel_inv s'"
  using assms
proof (induction rule: half_step.induct)
  case (Up a' k m a b)
  then show ?case by (rule up_step_inv)
next
  case (Down a' k m a b)
  then show ?case by (rule down_step_inv)
next
  case (Move a b j)
  then have inv: "line a b" "line b a" "ends a" "ends b" by (simp_all add: tunnel_inv_def)
  from inv(1) have split: "po_sent (ry_stream a) = po_got (ry_stream b) @ flight a b"
    by (intro flight_append) (simp add: line_def)
  with Move(1) inv(1) have open': "\<not> po_fin (ry_stream b)" by (auto simp: line_def)
  have "prefix (po_got (ry_stream b) @ take (Suc j) (flight a b)) (po_sent (ry_stream a))"
    unfolding split same_prefix_prefix by (rule take_is_prefix)
  with inv open' show ?case
    by (auto simp: tunnel_inv_def line_def ends_def copied_arrives)
next
  case (Fin a b)
  then have inv: "line a b" "line b a" "ends a" "ends b" by (simp_all add: tunnel_inv_def)
  from inv(1) have "po_sent (ry_stream a) = po_got (ry_stream b) @ flight a b"
    by (intro flight_append) (simp add: line_def)
  with Fin inv show ?case
    by (auto simp: tunnel_inv_def line_def ends_def copied_fin)
qed

lemma tunnel_step_inv: "tunnel_step s s' \<Longrightarrow> tunnel_inv s \<Longrightarrow> tunnel_inv s'"
proof (induction rule: tunnel_step.induct)
  case (Forth a b a' b')
  then show ?case by (rule half_step_inv)
next
  case (Back b a b' a')
  then show ?case using half_step_inv tunnel_inv_sym by blast
qed

lemma env_step_inv: "env_step s s' \<Longrightarrow> tunnel_inv s \<Longrightarrow> tunnel_inv s'"
  by (induction rule: env_step.induct)
    (auto simp: tunnel_inv_def line_def ends_def copied_arrives copied_fin)

lemma tunnel_reachable_inv: "tunnel_reachable s \<Longrightarrow> tunnel_inv s"
proof (induction rule: tunnel_reachable.induct)
  case (start x y)
  show ?case
    by (simp add: tunnel_inv_def line_def ends_def relay_start_def port_of_def returned_def)
next
  case (step s s')
  then show ?case using tunnel_step_inv by blast
next
  case (env1 a b a' b')
  then show ?case using env_step_inv by blast
next
  case (env2 a b b' a')
  then show ?case using env_step_inv tunnel_inv_sym by blast
qed

section \<open>A tunnel settles\<close>

lemma tunnel_step_sym: "tunnel_step (a, b) (a', b') \<longleftrightarrow> tunnel_step (b, a) (b', a')"
  by (auto elim!: tunnel_step.cases intro: tunnel_step.intros)

lemma returned_simps [simp]: "returned (Returned e)" "\<not> returned Reading" "\<not> returned (Writing b)"
  by (simp_all add: returned_def)

definition settled :: "relay \<times> relay \<Rightarrow> bool" where
  "settled s \<longleftrightarrow> (\<forall>s'. \<not> tunnel_step s s')"

lemma settled_sym: "settled (a, b) \<longleftrightarrow> settled (b, a)"
  by (auto simp: settled_def tunnel_step_sym [of a b])

definition idle :: "port \<Rightarrow> bool" where
  "idle po \<longleftrightarrow> po_in po = [] \<and> \<not> po_fin po \<and> \<not> po_closed po \<and> \<not> po_broken po"

lemma copy_blocked:
  assumes "copy_step 1 0 src dst c = []"
  shows "returned c \<or> c = Reading \<and> idle src"
proof (cases c)
  case Reading
  with assms show ?thesis by (simp add: copy_step_def port_Read_def idle_def split: if_splits)
next
  case (Writing b)
  with assms show ?thesis by (simp add: copy_step_def split: prod.splits option.splits)
qed simp

lemma half_settled:
  assumes "\<forall>s'. \<not> half_step (a, b) s'"
  shows "returned (ry_up a) \<or> ry_up a = Reading \<and> idle (ry_conn a)"
    and "returned (ry_down a) \<or> ry_down a = Reading \<and> idle (ry_stream a)"
    and "flight a b = []" and "po_closed (ry_stream a) \<longrightarrow> po_fin (ry_stream b)"
proof -
  have up: "up_step 1 0 a = []" and down: "down_step 1 0 a = []"
    using assms half_step.Up half_step.Down by (meson ex_in_conv set_empty)+
  from up show "returned (ry_up a) \<or> ry_up a = Reading \<and> idle (ry_conn a)"
    by (intro copy_blocked) (simp add: up_step_def)
  from down show "returned (ry_down a) \<or> ry_down a = Reading \<and> idle (ry_stream a)"
    by (intro copy_blocked) (simp add: down_step_def)
  show flight: "flight a b = []" using assms half_step.Move by blast
  show "po_closed (ry_stream a) \<longrightarrow> po_fin (ry_stream b)"
    using assms half_step.Fin flight by blast
qed

lemma settled_half:
  assumes "settled (a, b)"
  shows "\<forall>s'. \<not> half_step (a, b) s'" "\<forall>s'. \<not> half_step (b, a) s'"
  using assms tunnel_step.Forth tunnel_step.Back unfolding settled_def by (metis surj_pair)+

definition all_over :: "relay \<Rightarrow> bool" where
  "all_over a \<longleftrightarrow> returned (ry_up a) \<and> returned (ry_down a) \<and> po_closed (ry_conn a) \<and> po_closed (ry_stream a)"

definition some_over :: "relay \<Rightarrow> bool" where
  "some_over a \<longleftrightarrow> returned (ry_up a) \<or> returned (ry_down a)"

lemma settled_one_over:
  assumes "settled (a, b)" and "tunnel_inv (a, b)" and "some_over a"
  shows "all_over a \<and> all_over b"
proof -
  note sa = half_settled [OF settled_half(1) [OF assms(1)]]
  note sb = half_settled [OF settled_half(2) [OF assms(1)]]
  have ends: "ends a" "ends b" using assms(2) by (simp_all add: tunnel_inv_def)
  have closed: "po_closed (ry_stream a)" using ends(1) assms(3) by (simp add: ends_def some_over_def)
  then have down: "returned (ry_down a)" using sa(2) by (auto simp: idle_def)
  then have conn: "po_closed (ry_conn a)" using ends(1) by (simp add: ends_def)
  then have up: "returned (ry_up a)" using sa(1) by (auto simp: idle_def)
  have "returned (ry_down b)" using sa(4) closed sb(2) by (auto simp: idle_def)
  then have b: "returned (ry_down b)" "po_closed (ry_conn b)" "po_closed (ry_stream b)"
    using ends(2) by (simp_all add: ends_def)
  then have "returned (ry_up b)" using sb(1) by (auto simp: idle_def)
  with b down conn up closed show ?thesis by (simp add: all_over_def)
qed

lemma settled_none_over:
  assumes "settled (a, b)" and "tunnel_inv (a, b)" and "\<not> some_over a" and "\<not> some_over b"
  shows "po_sent (ry_conn b) = po_got (ry_conn a)"
proof -
  note sa = half_settled [OF settled_half(1) [OF assms(1)]]
  note sb = half_settled [OF settled_half(2) [OF assms(1)]]
  have line: "line a b" using assms(2) by (simp add: tunnel_inv_def)
  have up: "ry_up a = Reading" "po_in (ry_conn a) = []" using sa(1) assms(3) by (auto simp: some_over_def idle_def)
  have down: "ry_down b = Reading" "po_in (ry_stream b) = []" using sb(2) assms(4) by (auto simp: some_over_def idle_def)
  have "po_sent (ry_stream a) = po_got (ry_stream b)"
    using flight_append [of b a] sa(3) line by (simp add: line_def)
  with line up down show ?thesis by (simp add: line_def)
qed

section \<open>And does so in boundedly many steps\<close>

fun phase :: "copying \<Rightarrow> nat" where
  "phase Reading = 1"
| "phase (Writing b) = 2"
| "phase (Returned e) = 0"

text \<open>Every byte weighs less the further it is.\<close>

definition line_measure :: "relay \<Rightarrow> relay \<Rightarrow> nat" where
  "line_measure a b =
     10 * length (po_in (ry_conn a)) + 8 * length (hand (ry_up a)) + phase (ry_up a)
     + 6 * length (flight a b)
     + 4 * length (po_in (ry_stream b)) + 2 * length (hand (ry_down b)) + phase (ry_down b)
     + (if po_fin (ry_stream b) then 0 else 1)"

definition tunnel_measure :: "relay \<times> relay \<Rightarrow> nat" where
  "tunnel_measure = (\<lambda>(a, b). line_measure a b + line_measure b a)"

text \<open>A byte read, weighing \<open>w + 2\<close> before and \<open>w\<close> after, or written, weighing \<open>w - 2\<close> after.\<close>

lemma read_nat:
  assumes "l = d + t" and "(0::nat) < t"
  shows "(w + 4) * d + ((w + 2) * t + 2) < (w + 4) * l + 1"
proof -
  have "(w + 4) * l = (w + 4) * d + (w + 2) * t + 2 * t" unfolding assms(1) by (simp add: algebra_simps)
  with assms(2) show ?thesis by linarith
qed

lemma read_measure:
  "xs \<noteq> [] \<Longrightarrow> (w + 4) * length (drop (Suc n) xs) + ((w + 2) * length (take (Suc n) xs) + 2) < (w + 4) * length xs + 1"
  by (rule read_nat) (auto simp flip: length_append)

lemma copy_step_measure:
  assumes "(src', dst', c') \<in> set (copy_step k m src dst c)"
  shows "(w + 4) * length (po_in src') + (w + 2) * length (hand c') + phase c' + w * length (po_sent dst')
     < (w + 4) * length (po_in src) + (w + 2) * length (hand c) + phase c + w * length (po_sent dst)"
proof (cases c)
  case Reading
  note cs = copy_step_Reading [OF assms [unfolded Reading]]
  have dst: "dst' = dst" using cs by blast
  consider n where "po_in src \<noteq> []" "src' = src\<lparr>po_in := drop (Suc n) (po_in src)\<rparr>"
      "c' = Writing (take (Suc n) (po_in src))"
    | "src' = src" "phase c' = 0" "hand c' = []"
    using cs by fastforce
  then show ?thesis
  proof cases
    case 1
    then have eqs: "po_in src' = drop (Suc n) (po_in src)" "hand c' = take (Suc n) (po_in src)" "phase c' = 2"
        "phase c = 1" "hand c = []"
      by (simp_all add: Reading)
    from read_measure [OF 1(1), of w n] show ?thesis unfolding eqs dst by linarith
  qed (simp add: Reading dst)
next
  case (Writing b)
  note cs = copy_step_Writing [OF assms [unfolded Writing]]
  have "w * length (take j b) \<le> (w + 2) * length b" for j
    by (rule mult_le_mono) simp_all
  then have le: "w * length (take j b) < (w + 2) * length b + 2" for j
    using le_imp_less_Suc less_Suc_eq_le by (metis add_2_eq_Suc' less_SucI)
  from cs have src: "src' = src" by blast
  from cs consider "dst' = dst\<lparr>po_sent := po_sent dst @ b\<rparr>" "c' = Reading"
    | j where "dst' = dst\<lparr>po_sent := po_sent dst @ take j b\<rparr>" "c' = Returned (Some ErrClosed)"
    by blast
  then show ?thesis
  proof cases
    case 1
    then show ?thesis by (simp add: Writing src algebra_simps)
  next
    case 2
    from le [of j] show ?thesis by (simp add: Writing src 2 algebra_simps del: length_take)
  qed
qed (use assms in \<open>simp add: copy_step_def\<close>)

lemma flight_length:
  "prefix (po_got (ry_stream b)) (po_sent (ry_stream a)) \<Longrightarrow>
     length (flight a b) + length (po_got (ry_stream b)) = length (po_sent (ry_stream a))"
  using prefix_length_le [of "po_got (ry_stream b)" "po_sent (ry_stream a)"] by (simp add: flight_def)

lemma up_measure:
  assumes "a' \<in> set (up_step k m a)" and "tunnel_inv (a, b)"
  shows "line_measure a' b < line_measure a b" "line_measure b a' = line_measure b a"
proof -
  obtain conn stream c where st: "(conn, stream, c) \<in> set (copy_step k m (ry_conn a) (ry_stream a) (ry_up a))"
      and a': "a' = a\<lparr>ry_conn := conn, ry_stream := (if returned c then port_Close stream else stream), ry_up := c\<rparr>"
    using assms(1) by (auto simp: up_step_def)
  note frame = copy_step_frame [OF st]
  have "line a b" "line a' b" using up_step_inv [OF assms] assms(2) by (simp_all add: tunnel_inv_def)
  then have "length (flight a b) + length (po_got (ry_stream b)) = length (po_sent (ry_stream a))"
    "length (flight a' b) + length (po_got (ry_stream b)) = length (po_sent stream)"
    using flight_length [of b a] flight_length [of b a'] by (simp_all add: line_def a')
  then show "line_measure a' b < line_measure a b"
    using copy_step_measure [OF st, of 6] by (simp add: line_measure_def a')
  show "line_measure b a' = line_measure b a"
    using frame by (simp add: line_measure_def flight_def a')
qed

lemma down_measure:
  assumes "a' \<in> set (down_step k m a)"
  shows "line_measure b a' < line_measure b a" "line_measure a' b = line_measure a b"
proof -
  obtain stream conn c where st: "(stream, conn, c) \<in> set (copy_step k m (ry_stream a) (ry_conn a) (ry_down a))"
      and a': "a' = a\<lparr>ry_conn := (if returned c then port_Close conn else conn),
        ry_stream := (if returned c then port_Close stream else stream), ry_down := c\<rparr>"
    using assms(1) by (auto simp: down_step_def)
  note frame = copy_step_frame [OF st]
  show "line_measure b a' < line_measure b a"
    using copy_step_measure [OF st, of 0] frame by (simp add: line_measure_def flight_def a')
  show "line_measure a' b = line_measure a b"
    using frame by (simp add: line_measure_def flight_def a')
qed

lemma half_measure:
  assumes "half_step s s'" and "tunnel_inv s"
  shows "tunnel_measure s' < tunnel_measure s"
  using assms
proof (induction rule: half_step.induct)
  case (Up a' k m a b)
  from up_measure [OF this] show ?case by (simp add: tunnel_measure_def)
next
  case (Down a' k m a b)
  from down_measure [OF this(1)] show ?case by (simp add: tunnel_measure_def)
next
  case (Move a b j)
  let ?b = "b\<lparr>ry_stream := arrives (take (Suc j) (flight a b)) (ry_stream b)\<rparr>"
  have "flight a ?b = drop (Suc j) (flight a b)"
    using Move(1) by (simp add: flight_def) (simp add: min_def add.commute)
  moreover have "flight ?b a = flight b a" by (simp add: flight_def)
  moreover have "6 * length (drop (Suc j) xs) + 4 * length (take (Suc j) xs) < 6 * length xs"
    if "xs \<noteq> []" for xs :: bytes using that by (cases "length xs \<le> Suc j") auto
  from this [OF Move(1)] have "6 * length (drop (Suc j) (flight a b)) + 4 * length (take (Suc j) (flight a b))
      < 6 * length (flight a b)" .
  ultimately show ?case
    by (simp add: tunnel_measure_def line_measure_def del: length_take length_drop)
next
  case (Fin a b)
  then show ?case by (simp add: tunnel_measure_def line_measure_def flight_def)
qed

lemma tunnel_measure_sym: "tunnel_measure (a, b) = tunnel_measure (b, a)"
  by (simp add: tunnel_measure_def)

lemma tunnel_step_measure:
  "tunnel_step s s' \<Longrightarrow> tunnel_inv s \<Longrightarrow> tunnel_measure s' < tunnel_measure s"
proof (induction rule: tunnel_step.induct)
  case (Forth a b a' b')
  then show ?case by (rule half_measure)
next
  case (Back b a b' a')
  then have "tunnel_inv (b, a)" using tunnel_inv_sym by blast
  from half_measure [OF Back(1) this] show ?case using tunnel_measure_sym by metis
qed

section \<open>Joining\<close>

lemma client_joins:
  assumes "socks5Handshake (str (cl_socksUser c)) (str (cl_socksPass c)) conn = (Inr (), conn1)"
    and "sk_in conn1 = connect_bytes addr port @ payload" and "length addr \<le> 255" and "0 \<le> port" and "port < 65536"
    and "10 \<le> sk_room conn1" and "cl_session c = Some i" and "\<not> cl_sessions c ! i"
    and "openStream i = Inr (sid, stream)" and "sk_in stream = 0 # answer"
    and "length (json_text (connect_request_json (cl_clientID c) addr port)) \<le> sk_room stream"
  shows "client_relay c openStream conn = Some (relay_start payload answer)"
proof -
  have "socks5Request (conn1\<lparr>sk_in := connect_bytes addr port @ payload\<rparr>)
      = (Inr (addr, port), conn1\<lparr>sk_in := payload\<rparr>)"
    using socks5Request_connect_bytes [where s = conn1 and addr = addr and port = port and rest = payload] assms(3-5) by simp
  then have req: "socks5Request conn1 = (Inr (addr, port), conn1\<lparr>sk_in := payload\<rparr>)"
    by (simp flip: assms(2))
  obtain stream' where send: "sendConnectRequest c sid addr port stream = (None, stream')" "sk_in stream' = answer"
    using assms(10,11) by (simp add: sendConnectRequest_def sock_Write_def ReadFull_def)
  have "length replySuccess = 10" by (simp add: replySuccess_def)
  then obtain conn2 where "sock_Write replySuccess (conn1\<lparr>sk_in := payload\<rparr>) = (Inr (), conn2)" "sk_in conn2 = payload"
    using assms(6) by (simp add: sock_Write_def)
  then show ?thesis
    by (simp add: client_relay_def handleSocks5_def assms(1,7,8,9) req tunnel_def send)
qed

lemma server_joins:
  assumes "ascii clientID" and "ascii addr" and "0 \<le> port" and "port < 65536"
    and "length (json_text (connect_request_json clientID addr port)) \<le> 4097"
    and "clean_chunks chunks (str (json_text (connect_request_json clientID addr port)))"
    and "sv_socksProxyAddr s = []" and "dialer (JoinHostPort addr (Itoa port)) = Inr target"
    and "1 \<le> sk_room stream"
  shows "server_relay dialer s chunks stream =
     (if clientID = sv_clientID s then Some (relay_start (sk_in target) (sk_in stream)) else None)"
    and "clientID = sv_clientID s \<Longrightarrow> sk_out (snd (handleStream dialer s chunks stream)) = sk_out stream @ [0]"
proof -
  have read: "read_request s chunks [] =
     (if clientID = sv_clientID s
      then Dispatched \<lparr>cr_Cmd = ''connect'', cr_ClientID = clientID, cr_Addr = addr, cr_Port = port\<rparr>
      else Rejected)"
    by (rule read_request_complete)
      (use assms(1-6) in \<open>auto simp: clean_chunks_def maxConnReq_def connect_request_json_def\<close>)
  show "server_relay dialer s chunks stream =
     (if clientID = sv_clientID s then Some (relay_start (sk_in target) (sk_in stream)) else None)"
    using assms(9) by (simp add: server_relay_def handleStream_def read dispatch_def dial_def assms(7,8) sock_Write_def)
  show "clientID = sv_clientID s \<Longrightarrow> sk_out (snd (handleStream dialer s chunks stream)) = sk_out stream @ [0]"
    using assms(9) by (simp add: handleStream_def read dispatch_def dial_def assms(7,8) sock_Write_def)
qed

section \<open>Properties\<close>

text \<open>C2: what a joined tunnel delivers to the target is a first part of what the application has sent,
  and the other way round, whatever fails and whenever it does. As long as no copy of a direction has
  failed, every byte is delivered or still on its way, in order; and when both copies of a direction
  have returned nil, the sender has finished and everything has been delivered.\<close>

theorem relay_carries:
  assumes "tunnel_reachable (a, b)"
  shows "prefix (po_sent (ry_conn b)) (po_got (ry_conn a))
     \<and> prefix (po_sent (ry_conn a)) (po_got (ry_conn b))
     \<and> ((\<forall>err. ry_up a \<noteq> Returned (Some err) \<and> ry_down b \<noteq> Returned (Some err)) \<longrightarrow>
          po_got (ry_conn a) = po_sent (ry_conn b) @ hand (ry_down b) @ po_in (ry_stream b) @ flight a b
            @ hand (ry_up a) @ po_in (ry_conn a))
     \<and> (ry_up a = Returned None \<and> ry_down b = Returned None \<longrightarrow>
          po_sent (ry_conn b) = po_got (ry_conn a) \<and> po_fin (ry_conn a))"
proof -
  have lines: "line a b" "line b a" using tunnel_reachable_inv [OF assms] by (simp_all add: tunnel_inv_def)
  have pre: "prefix (po_sent (ry_conn d)) (po_got (ry_conn c))" if "line c d" for c d
  proof -
    have "prefix (po_sent (ry_conn d)) (po_got (ry_stream d))" "prefix (po_got (ry_stream d)) (po_sent (ry_stream c))"
      "prefix (po_sent (ry_stream c)) (po_got (ry_conn c))"
      using that copied_prefix unfolding line_def by blast+
    then show ?thesis by (blast intro: prefix_order.trans)
  qed
  have all: "po_got (ry_conn a) = po_sent (ry_conn b) @ hand (ry_down b) @ po_in (ry_stream b) @ flight a b
      @ hand (ry_up a) @ po_in (ry_conn a)"
    if "\<forall>err. ry_up a \<noteq> Returned (Some err) \<and> ry_down b \<noteq> Returned (Some err)"
  proof -
    have "po_got (ry_conn a) = po_sent (ry_stream a) @ hand (ry_up a) @ po_in (ry_conn a)"
      using that lines(1) by (intro copied_hand) (simp_all add: line_def)
    also have "po_sent (ry_stream a) = po_got (ry_stream b) @ flight a b"
      using lines(1) by (intro flight_append) (simp add: line_def)
    also have "po_got (ry_stream b) = po_sent (ry_conn b) @ hand (ry_down b) @ po_in (ry_stream b)"
      using that lines(1) by (intro copied_hand) (simp_all add: line_def)
    finally show ?thesis by simp
  qed
  have done': "po_sent (ry_conn b) = po_got (ry_conn a) \<and> po_fin (ry_conn a)"
    if "ry_up a = Returned None" "ry_down b = Returned None"
    using that lines(1) by (simp add: line_def)
  from pre [OF lines(1)] pre [OF lines(2)] all done' show ?thesis by blast
qed

text \<open>C6: once applications and network are quiet, a joined tunnel comes to rest within a number of steps
  bounded by the bytes it holds; and at rest it is either over, with all four copies returned and both
  connections and streams closed, so that nothing leaks, or it has delivered everything both ways.\<close>

theorem relay_settles:
  assumes "tunnel_reachable s" and "(tunnel_step ^^ n) s (a, b)"
  shows "n + tunnel_measure (a, b) \<le> tunnel_measure s
     \<and> (settled (a, b) \<longrightarrow> (all_over a \<and> all_over b)
          \<or> (po_sent (ry_conn b) = po_got (ry_conn a) \<and> po_sent (ry_conn a) = po_got (ry_conn b)))"
proof -
  have run: "n + tunnel_measure s' \<le> tunnel_measure s \<and> tunnel_inv s'" if "(tunnel_step ^^ n) s s'" for n s'
    using that
  proof (induction n arbitrary: s')
    case 0
    with tunnel_reachable_inv [OF assms(1)] show ?case by simp
  next
    case (Suc n)
    then obtain s1 where s1: "(tunnel_step ^^ n) s s1" "tunnel_step s1 s'" by (metis relpowp_Suc_E)
    from Suc.IH [OF s1(1)] tunnel_step_measure [OF s1(2)] tunnel_step_inv [OF s1(2)]
    show ?case by force
  qed
  from run [OF assms(2)] have inv: "tunnel_inv (a, b)" by simp
  have "(all_over a \<and> all_over b)
      \<or> (po_sent (ry_conn b) = po_got (ry_conn a) \<and> po_sent (ry_conn a) = po_got (ry_conn b))"
    if st: "settled (a, b)"
  proof (cases "some_over a \<or> some_over b")
    case True
    then show ?thesis
      using settled_one_over [OF st inv] settled_one_over [of b a] st inv
      by (auto simp: settled_sym [of a b] tunnel_inv_sym [of a b])
  next
    case False
    then show ?thesis
      using settled_none_over [OF st inv] settled_none_over [of b a] st inv
      by (simp add: settled_sym [of a b] tunnel_inv_sym [of a b])
  qed
  with run [OF assms(2)] show ?thesis by simp
qed


section \<open>An application that finishes first\<close>

text \<open>A run in which the application sends its request and finishes sending, as a client does that
  half-closes its connection: the goroutine closes the whole stream, so the answer of the target, which
  has got the request, is never delivered, though nothing has failed.\<close>

definition po :: "bytes \<Rightarrow> bytes \<Rightarrow> bool \<Rightarrow> bytes \<Rightarrow> bool \<Rightarrow> port" where
  "po got unread fin sent closed =
     \<lparr>po_got = got, po_in = unread, po_fin = fin, po_sent = sent, po_broken = False, po_closed = closed\<rparr>"

definition ry :: "port \<Rightarrow> port \<Rightarrow> copying \<Rightarrow> copying \<Rightarrow> relay" where
  "ry conn stream up down = \<lparr>ry_conn = conn, ry_stream = stream, ry_up = up, ry_down = down\<rparr>"

lemmas relay_eval = po_def ry_def up_step_def down_step_def copy_step_def port_Read_def port_Write_def port_Close_def
  copyBufferSize_def flight_def arrives_def returned_def

lemma half_closed_run:
  "tunnel_reachable
    (ry (po [1] [] True [] False) (po [] [] False [1] True) (Returned None) Reading,
     ry (po [] [] False [1] False) (po [1] [] False [] False) Reading Reading)"
proof -
  let ?b0 = "ry (po [] [] False [] False) (po [] [] False [] False) Reading Reading"
  have "tunnel_reachable (ry (po [1] [1] False [] False) (po [] [] False [] False) Reading Reading, ?b0)"
    using tunnel_reachable.start [of "[1]" "[]"] by (simp add: relay_start_def port_of_def po_def ry_def)
  then have "tunnel_reachable (ry (po [1] [1] True [] False) (po [] [] False [] False) Reading Reading, ?b0)"
    by (rule tunnel_reachable.env1)
      (use env_step.End [of "ry (po [1] [1] False [] False) (po [] [] False [] False) Reading Reading" ?b0]
        in \<open>simp add: po_def ry_def\<close>)
  then have "tunnel_reachable (ry (po [1] [] True [] False) (po [] [] False [] False) (Writing [1]) Reading, ?b0)"
    by (rule tunnel_reachable.step)
      (rule tunnel_step.Forth, rule half_step.Up [where k = 1 and m = 0], simp add: relay_eval)
  then have "tunnel_reachable (ry (po [1] [] True [] False) (po [] [] False [1] False) Reading Reading, ?b0)"
    by (rule tunnel_reachable.step)
      (rule tunnel_step.Forth, rule half_step.Up [where k = 1 and m = 0], simp add: relay_eval)
  then have "tunnel_reachable (ry (po [1] [] True [] False) (po [] [] False [1] True) (Returned None) Reading, ?b0)"
    by (rule tunnel_reachable.step)
      (rule tunnel_step.Forth, rule half_step.Up [where k = 1 and m = 0], simp add: relay_eval)
  then have "tunnel_reachable (ry (po [1] [] True [] False) (po [] [] False [1] True) (Returned None) Reading,
      ry (po [] [] False [] False) (po [1] [1] False [] False) Reading Reading)"
    by (rule tunnel_reachable.step)
      (rule tunnel_step.Forth, use half_step.Move [of "ry (po [1] [] True [] False) (po [] [] False [1] True)
         (Returned None) Reading" ?b0 0] in \<open>simp add: relay_eval\<close>)
  then have "tunnel_reachable (ry (po [1] [] True [] False) (po [] [] False [1] True) (Returned None) Reading,
      ry (po [] [] False [] False) (po [1] [] False [] False) Reading (Writing [1]))"
    by (rule tunnel_reachable.step)
      (rule tunnel_step.Back, rule half_step.Down [where k = 1 and m = 0], simp add: relay_eval)
  then show ?thesis
    by (rule tunnel_reachable.step)
      (rule tunnel_step.Back, rule half_step.Down [where k = 1 and m = 0], simp add: relay_eval)
qed

lemma half_close_loses_answer:
  "\<exists>a b. tunnel_reachable (a, b) \<and> \<not> po_broken (ry_conn a) \<and> \<not> po_broken (ry_conn b)
     \<and> \<not> po_broken (ry_stream a) \<and> \<not> po_broken (ry_stream b)
     \<and> po_got (ry_conn a) = [1] \<and> po_sent (ry_conn b) = [1]
     \<and> po_got (ry_conn b) = [2] \<and> po_sent (ry_conn a) = [] \<and> all_over a"
proof -
  let ?a = "ry (po [1] [] True [] False) (po [] [] False [1] True) (Returned None) Reading"
  let ?b = "ry (po [2] [2] False [1] False) (po [1] [] False [] False) Reading Reading"
  have "tunnel_reachable (?a, ?b)"
    by (rule tunnel_reachable.env2 [OF half_closed_run])
      (use env_step.Data [of "ry (po [] [] False [1] False) (po [1] [] False [] False) Reading Reading" ?a "[2]"]
        in \<open>simp add: po_def ry_def arrives_def\<close>)
  then have "tunnel_reachable (ry (po [1] [] True [] True) (po [] [] False [1] True) (Returned None)
      (Returned (Some ErrClosed)), ?b)"
    by (rule tunnel_reachable.step)
      (rule tunnel_step.Forth, rule half_step.Down [where k = 1 and m = 0], simp add: relay_eval)
  then show ?thesis
    by (intro exI [of _ "ry (po [1] [] True [] True) (po [] [] False [1] True) (Returned None)
      (Returned (Some ErrClosed))"] exI [of _ ?b]) (simp add: po_def ry_def all_over_def)
qed

section \<open>Witnesses\<close>

theorem relay_carries_witness:
  "prefix (po_sent (ry_conn (ry (po [] [] False [1] False) (po [1] [] False [] False) Reading Reading)))
     (po_got (ry_conn (ry (po [1] [] True [] False) (po [] [] False [1] True) (Returned None) Reading)))"
  by (rule conjunct1 [OF relay_carries [OF half_closed_run]])

theorem relay_settles_witness:
  "1 + tunnel_measure (ry (po [1] [] False [] False) (po [] [] False [] False) (Writing [1]) Reading,
        relay_start [] [])
     \<le> tunnel_measure (relay_start [1] [], relay_start [] [])"
proof -
  have "tunnel_step (relay_start [1] [], relay_start [] [])
      (ry (po [1] [] False [] False) (po [] [] False [] False) (Writing [1]) Reading, relay_start [] [])"
    by (rule tunnel_step.Forth, rule half_step.Up [where k = 1 and m = 0])
      (simp add: relay_eval relay_start_def port_of_def)
  then have "(tunnel_step ^^ 1) (relay_start [1] [], relay_start [] [])
      (ry (po [1] [] False [] False) (po [] [] False [] False) (Writing [1]) Reading, relay_start [] [])"
    by (simp only: relpowp_1)
  from relay_settles [OF tunnel_reachable.start this] show ?thesis by (rule conjunct1)
qed

definition joining_client :: client where
  "joining_client = example_client\<lparr>cl_sessions := [False], cl_session := Some 0\<rparr>"

definition app_sock :: sock where
  "app_sock = \<lparr>sk_in = [5, 1, 0] @ connect_bytes ''example.org'' 443 @ [7, 7], sk_rerr = io_EOF, sk_out = [],
     sk_room = 100, sk_werr = io_EOF\<rparr>"

definition fresh_sock :: "bytes \<Rightarrow> sock" where
  "fresh_sock input = \<lparr>sk_in = input, sk_rerr = io_EOF, sk_out = [], sk_room = 100, sk_werr = io_EOF\<rparr>"


end
