(* ===== verification/Lifecycle.thy ===== *)
theory Lifecycle
  imports Tunnel
begin

text \<open>
  The end of \<open>server.Run\<close>: the accept loop, the goroutine that closes the session when the context
  ends, the shutdown, and the reconnect callbacks of the link, each cut into the steps between which
  the others can run. The server's own goroutines make the steps \<open>own_step\<close>; the caller, the link
  and smux make the steps \<open>env_step\<close>. A run is quiet when no reconnect callback is running when the
  context ends and none comes afterwards. What \<open>Run\<close> does last, waiting for the goroutines of the
  streams and of \<open>WatchConnection\<close>, is not part of it; how the former end is in \<open>Relay_Contract\<close>.
  Last, what overlapping reconnects do to the client.
\<close>

section \<open>State\<close>

text \<open>Where \<open>serve\<close> and what follows it in \<open>Run\<close> stand: before the look at the context; about to read
  the session; waiting without a session; in \<open>AcceptStream\<close>; after its error; about to replace the
  session; between the two halves of the replacement; behind the loop; after \<open>closeSession\<close> of
  \<open>shutdown\<close>; after \<open>Close\<close> of the link.\<close>

datatype serve_pc = Polling | Reading | Sleeping | Accepting nat | Accept_failed nat | Replacing nat
  | Installing | Left_loop | Shut | Returned

text \<open>A reconnect callback: with the session it has read, inside the lock, or over.\<close>

datatype reconnect_call = Seen "nat option" | Inside | Finished

text \<open>Who holds \<open>reinstallMu\<close>.\<close>

datatype lock_owner = Serve_holds | Call_holds nat

record life =
  lf_server :: server
  lf_done :: bool
  lf_watched :: bool
  lf_serve :: serve_pc
  lf_lock :: "lock_owner option"
  lf_calls :: "reconnect_call list"

definition life_start :: "go_error option \<Rightarrow> server_args \<Rightarrow> life" where
  "life_start newSess a =
     \<lparr>lf_server = installSession newSess (server_of_args a), lf_done = False, lf_watched = False,
      lf_serve = Polling, lf_lock = None, lf_calls = []\<rparr>"

section \<open>Steps\<close>

inductive own_step :: "life \<Rightarrow> life \<Rightarrow> bool" where
  Poll_done: "lf_serve x = Polling \<Longrightarrow> lf_done x \<Longrightarrow> own_step x (x\<lparr>lf_serve := Left_loop\<rparr>)"
| Poll: "lf_serve x = Polling \<Longrightarrow> \<not> lf_done x \<Longrightarrow> own_step x (x\<lparr>lf_serve := Reading\<rparr>)"
| Read_nil: "lf_serve x = Reading \<Longrightarrow> sv_session (lf_server x) = None \<Longrightarrow> own_step x (x\<lparr>lf_serve := Sleeping\<rparr>)"
| Read_sess: "lf_serve x = Reading \<Longrightarrow> sv_session (lf_server x) = Some i \<Longrightarrow>
    own_step x (x\<lparr>lf_serve := Accepting i\<rparr>)"
| Sleep_done: "lf_serve x = Sleeping \<Longrightarrow> lf_done x \<Longrightarrow> own_step x (x\<lparr>lf_serve := Left_loop\<rparr>)"
| Sleep_over: "lf_serve x = Sleeping \<Longrightarrow> own_step x (x\<lparr>lf_serve := Polling\<rparr>)"
| Accept_closed: "lf_serve x = Accepting i \<Longrightarrow> sv_sessions (lf_server x) ! i \<Longrightarrow>
    own_step x (x\<lparr>lf_serve := Accept_failed i\<rparr>)"
| Failed_done: "lf_serve x = Accept_failed i \<Longrightarrow> lf_done x \<Longrightarrow> own_step x (x\<lparr>lf_serve := Left_loop\<rparr>)"
| Failed_retry: "lf_serve x = Accept_failed i \<Longrightarrow> \<not> lf_done x \<Longrightarrow> own_step x (x\<lparr>lf_serve := Replacing i\<rparr>)"
| Replace_other: "lf_serve x = Replacing i \<Longrightarrow> lf_lock x = None \<Longrightarrow>
    reinstall_begin (Some i) (lf_server x) = (False, s') \<Longrightarrow>
    own_step x (x\<lparr>lf_server := s', lf_serve := Polling\<rparr>)"
| Replace: "lf_serve x = Replacing i \<Longrightarrow> lf_lock x = None \<Longrightarrow>
    reinstall_begin (Some i) (lf_server x) = (True, s') \<Longrightarrow>
    own_step x (x\<lparr>lf_server := s', lf_serve := Installing, lf_lock := Some Serve_holds\<rparr>)"
| Install: "lf_serve x = Installing \<Longrightarrow>
    own_step x (x\<lparr>lf_server := installSession newSess (lf_server x), lf_serve := Polling, lf_lock := None\<rparr>)"
| Leave: "lf_serve x = Left_loop \<Longrightarrow>
    own_step x (x\<lparr>lf_server := closeSession (lf_server x), lf_serve := Shut\<rparr>)"
| Close_link: "lf_serve x = Shut \<Longrightarrow> own_step x (x\<lparr>lf_serve := Returned\<rparr>)"
| Watch: "lf_done x \<Longrightarrow> \<not> lf_watched x \<Longrightarrow>
    own_step x (x\<lparr>lf_server := closeSession (lf_server x), lf_watched := True\<rparr>)"

text \<open>\<open>AcceptStream\<close> of an open session may yield a stream or fail at any time, and of a closed one
  still yield a stream that has come before.\<close>

inductive env_step :: "bool \<Rightarrow> life \<Rightarrow> life \<Rightarrow> bool" for quiet where
  Cancel: "(quiet \<Longrightarrow> set (lf_calls x) \<subseteq> {Finished}) \<Longrightarrow> env_step quiet x (x\<lparr>lf_done := True\<rparr>)"
| Stream: "lf_serve x = Accepting i \<Longrightarrow> env_step quiet x (x\<lparr>lf_serve := Polling\<rparr>)"
| Dies: "lf_serve x = Accepting i \<Longrightarrow> env_step quiet x (x\<lparr>lf_serve := Accept_failed i\<rparr>)"
| Reconnect: "(quiet \<Longrightarrow> \<not> lf_done x) \<Longrightarrow>
    env_step quiet x (x\<lparr>lf_calls := lf_calls x @ [Seen (sv_session (lf_server x))]\<rparr>)"
| Call_other: "j < length (lf_calls x) \<Longrightarrow> lf_calls x ! j = Seen dead \<Longrightarrow> lf_lock x = None \<Longrightarrow>
    reinstall_begin dead (lf_server x) = (False, s') \<Longrightarrow>
    env_step quiet x (x\<lparr>lf_server := s', lf_calls := (lf_calls x)[j := Finished]\<rparr>)"
| Call_begin: "j < length (lf_calls x) \<Longrightarrow> lf_calls x ! j = Seen dead \<Longrightarrow> lf_lock x = None \<Longrightarrow>
    reinstall_begin dead (lf_server x) = (True, s') \<Longrightarrow>
    env_step quiet x (x\<lparr>lf_server := s', lf_lock := Some (Call_holds j), lf_calls := (lf_calls x)[j := Inside]\<rparr>)"
| Call_end: "j < length (lf_calls x) \<Longrightarrow> lf_calls x ! j = Inside \<Longrightarrow>
    env_step quiet x (x\<lparr>lf_server := installSession newSess (lf_server x), lf_lock := None,
                        lf_calls := (lf_calls x)[j := Finished]\<rparr>)"
| Receive: "env_step quiet x (x\<lparr>lf_server := server_onData cipher data (lf_server x)\<rparr>)"

inductive life_reachable :: "bool \<Rightarrow> server_args \<Rightarrow> life \<Rightarrow> bool" for quiet a where
  life_init: "life_reachable quiet a (life_start newSess a)"
| life_own: "life_reachable quiet a x \<Longrightarrow> own_step x x' \<Longrightarrow> life_reachable quiet a x'"
| life_env: "life_reachable quiet a x \<Longrightarrow> env_step quiet x x' \<Longrightarrow> life_reachable quiet a x'"

section \<open>The lock, and the sessions\<close>

definition inside :: "reconnect_call list \<Rightarrow> nat \<Rightarrow> bool" where
  "inside cs j \<longleftrightarrow> j < length cs \<and> cs ! j = Inside"

lemma inside_append [simp]: "inside (cs @ [Seen d]) j = inside cs j"
  by (simp add: inside_def nth_append)

lemma inside_update: "i < length cs \<Longrightarrow> inside (cs[i := c]) j = (if i = j then c = Inside else inside cs j)"
  by (simp add: inside_def)

definition lock_inv :: "life \<Rightarrow> bool" where
  "lock_inv x \<longleftrightarrow>
     (lf_serve x = Installing \<longleftrightarrow> lf_lock x = Some Serve_holds)
     \<and> (\<forall>j. inside (lf_calls x) j \<longleftrightarrow> lf_lock x = Some (Call_holds j))"

lemma own_step_lock: "own_step x x' \<Longrightarrow> lock_inv x \<Longrightarrow> lock_inv x'"
  by (induction rule: own_step.induct) (auto simp: lock_inv_def)

lemma env_step_lock: "env_step quiet x x' \<Longrightarrow> lock_inv x \<Longrightarrow> lock_inv x'"
proof (induction rule: env_step.induct)
  case (Call_other j x dead s')
  then have "\<not> inside (lf_calls x) j" by (simp add: inside_def)
  with Call_other show ?case by (simp add: lock_inv_def inside_update)
next
  case (Call_end j x newSess)
  then have "lf_lock x = Some (Call_holds j)" by (auto simp: lock_inv_def inside_def)
  with Call_end show ?case by (simp add: lock_inv_def inside_update)
qed (auto simp: lock_inv_def inside_update)

lemma life_reachable_lock: "life_reachable quiet a x \<Longrightarrow> lock_inv x"
proof (induction rule: life_reachable.induct)
  case (life_init newSess)
  show ?case by (simp add: lock_inv_def inside_def life_start_def)
qed (auto intro: own_step_lock env_step_lock)

text \<open>The server of a life is one of the interleaving of reconnects and closes that \<open>Tunnel\<close> studies.\<close>

definition sessions_of :: "life \<Rightarrow> server \<times> bool" where
  "sessions_of x = (lf_server x, lf_lock x \<noteq> None)"

lemma own_step_sessions:
  "own_step x x' \<Longrightarrow> lock_inv x \<Longrightarrow> sessions_of x' = sessions_of x \<or> session_step (sessions_of x) (sessions_of x')"
proof (induction rule: own_step.induct)
  case (Replace_other x i s')
  then show ?case using session_step.Begin [of "Some i" "lf_server x" False s'] by (simp add: sessions_of_def)
next
  case (Replace x i s')
  then show ?case using session_step.Begin [of "Some i" "lf_server x" True s'] by (simp add: sessions_of_def)
next
  case (Install x newSess)
  then show ?case using session_step.End [of "lf_server x" newSess] by (simp add: sessions_of_def lock_inv_def)
qed (simp_all add: sessions_of_def session_step.Close)

lemma env_step_sessions:
  "env_step quiet x x' \<Longrightarrow> lock_inv x \<Longrightarrow> sessions_of x' = sessions_of x \<or> session_step (sessions_of x) (sessions_of x')"
proof (induction rule: env_step.induct)
  case (Call_other j x dead s')
  then show ?case using session_step.Begin [of dead "lf_server x" False s'] by (simp add: sessions_of_def)
next
  case (Call_begin j x dead s')
  then show ?case using session_step.Begin [of dead "lf_server x" True s'] by (simp add: sessions_of_def)
next
  case (Call_end j x newSess)
  then have "lf_lock x = Some (Call_holds j)" by (auto simp: lock_inv_def inside_def)
  then show ?case using session_step.End [of "lf_server x" newSess] by (simp add: sessions_of_def)
qed (simp_all add: sessions_of_def session_step.Data)

lemma life_sessions: "life_reachable quiet a x \<Longrightarrow> session_reachable a (sessions_of x)"
proof (induction rule: life_reachable.induct)
  case (life_init newSess)
  show ?case by (simp add: sessions_of_def life_start_def session_reachable.start)
next
  case (life_own x x')
  from own_step_sessions [OF life_own(2) life_reachable_lock [OF life_own(1)]]
  show ?case
  proof
    assume "session_step (sessions_of x) (sessions_of x')"
    then show ?thesis by (rule session_reachable.step [OF life_own(3)])
  qed (simp add: life_own(3))
next
  case (life_env x x')
  from env_step_sessions [OF life_env(2) life_reachable_lock [OF life_env(1)]]
  show ?case
  proof
    assume "session_step (sessions_of x) (sessions_of x')"
    then show ?thesis by (rule session_reachable.step [OF life_env(3)])
  qed (simp add: life_env(3))
qed

definition all_closed :: "server \<Rightarrow> bool" where
  "all_closed s \<longleftrightarrow> (\<forall>i < length (sv_sessions s). sv_sessions s ! i)
     \<and> (\<forall>i < length (sv_conns s). mx_closed (sv_conns s ! i))"

lemma closeSession_all_closed: "session_inv (s, busy) \<Longrightarrow> all_closed (closeSession s)"
  by (auto simp: session_inv_def only_current_def all_closed_def closeSession_def closed_at_def
      conn_closed_at_def nth_list_update split: option.splits)

lemma life_closeSession:
  assumes "life_reachable quiet a x"
  shows "all_closed (closeSession (lf_server x))"
  using session_reachable_inv [OF life_sessions [OF assms]] unfolding sessions_of_def
  by (rule closeSession_all_closed)

lemma nth_update_closed:
  "\<forall>i < length cs. mx_closed (cs ! i) \<Longrightarrow>
     \<forall>i < length cs. mx_closed (cs[k := Push cipher data (cs ! k)] ! i)"
  by (cases "k < length cs") (simp_all add: nth_list_update)

lemma onData_all_closed: "all_closed s \<Longrightarrow> all_closed (server_onData cipher data s)"
  by (cases "sv_conn s") (simp_all add: all_closed_def server_onData_def nth_update_closed)

lemma onData_fields [simp]:
  "sv_sessions (server_onData cipher data s) = sv_sessions s"
  "sv_session (server_onData cipher data s) = sv_session s"
  by (simp_all add: server_onData_def split: option.split)

section \<open>After the context has ended\<close>

text \<open>In a quiet run, once the watcher has closed the session, \<open>serve\<close> neither waits on an open session
  nor is about to read one.\<close>

definition ending_inv :: "life \<Rightarrow> bool" where
  "ending_inv x \<longleftrightarrow>
     (lf_done x \<longrightarrow> set (lf_calls x) \<subseteq> {Finished})
     \<and> (lf_watched x \<or> lf_serve x \<in> {Left_loop, Shut, Returned} \<longrightarrow> lf_done x)
     \<and> (lf_watched x \<longrightarrow> (lf_serve x = Reading \<longrightarrow> sv_session (lf_server x) = None)
          \<and> (\<forall>i. lf_serve x = Accepting i \<longrightarrow> sv_sessions (lf_server x) ! i))
     \<and> (lf_serve x \<in> {Shut, Returned} \<longrightarrow> all_closed (lf_server x))
     \<and> (\<forall>i. lf_serve x = Accepting i \<longrightarrow> i < length (sv_sessions (lf_server x)))"

lemma length_closeSession [simp]: "length (sv_sessions (closeSession s)) = length (sv_sessions s)"
  by (simp add: closeSession_def closed_at_def split: option.split)

lemma closeSession_None [simp]: "sv_session (closeSession s) = None"
  by (simp add: closeSession_def)

lemma reinstall_begin_length:
  "reinstall_begin dead s = (go, s') \<Longrightarrow> length (sv_sessions s') = length (sv_sessions s)"
  by (auto simp: reinstall_begin_def split: if_splits)

lemma installSession_length: "length (sv_sessions s) \<le> length (sv_sessions (installSession newSess s))"
  by (simp add: installSession_def split: option.split)

lemma reading_session:
  assumes "life_reachable quiet a x" and "sv_session (lf_server x) = Some i"
  shows "i < length (sv_sessions (lf_server x))"
  using session_reachable_inv [OF life_sessions [OF assms(1)]] assms(2)
  by (simp add: sessions_of_def session_inv_def only_current_def)

lemma own_step_ending:
  assumes "own_step x x'" and "life_reachable True a x" and "ending_inv x"
  shows "ending_inv x'"
  using assms
proof (induction rule: own_step.induct)
  case (Read_sess x i)
  then show ?case using reading_session [OF Read_sess(3), of i] by (auto simp: ending_inv_def)
next
  case (Leave x)
  then show ?case using life_closeSession [OF Leave(2)] by (auto simp: ending_inv_def)
next
  case (Watch x)
  then show ?case using life_closeSession [OF Watch(3)] by (auto simp: ending_inv_def all_closed_def)
qed (auto simp: ending_inv_def)

lemma env_step_ending:
  assumes "env_step True x x'" and "lock_inv x" and "ending_inv x"
  shows "ending_inv x'"
  using assms
proof (induction rule: env_step.induct)
  case (Call_other j x dead s')
  have "\<not> lf_done x" using Call_other nth_mem [of j "lf_calls x"] by (auto simp: ending_inv_def)
  then show ?case using Call_other by (auto simp: ending_inv_def reinstall_begin_def split: if_splits)
next
  case (Call_begin j x dead s')
  have "\<not> lf_done x" using Call_begin nth_mem [of j "lf_calls x"] by (auto simp: ending_inv_def)
  then show ?case using Call_begin by (auto simp: ending_inv_def reinstall_begin_length)
next
  case (Call_end j x newSess)
  have "\<not> lf_done x" using Call_end nth_mem [of j "lf_calls x"] by (auto simp: ending_inv_def)
  then show ?case using Call_end installSession_length [of "lf_server x" newSess]
    by (fastforce simp: ending_inv_def)
qed (auto simp: ending_inv_def onData_all_closed)

lemma life_reachable_ending: "life_reachable True a x \<Longrightarrow> ending_inv x"
proof (induction rule: life_reachable.induct)
  case (life_init newSess)
  show ?case by (simp add: ending_inv_def life_start_def)
qed (auto intro: own_step_ending env_step_ending life_reachable_lock)

text \<open>How many steps are left at most.\<close>

fun pc_left :: "serve_pc \<Rightarrow> nat" where
  "pc_left Reading = 9"
| "pc_left (Accepting i) = 8"
| "pc_left (Accept_failed i) = 7"
| "pc_left (Replacing i) = 6"
| "pc_left Installing = 5"
| "pc_left Sleeping = 4"
| "pc_left Polling = 3"
| "pc_left Left_loop = 2"
| "pc_left Shut = 1"
| "pc_left Returned = 0"

definition life_left :: "life \<Rightarrow> nat" where
  "life_left x = pc_left (lf_serve x) + (if lf_watched x then 0 else 1)"

lemma life_left_bound: "life_left x \<le> 10"
  by (cases "lf_serve x") (simp_all add: life_left_def)

lemma own_step_left: "own_step x x' \<Longrightarrow> lf_done x \<Longrightarrow> lf_done x' \<and> life_left x' < life_left x"
  by (induction rule: own_step.induct) (simp_all add: life_left_def)

lemma env_step_left: "env_step quiet x x' \<Longrightarrow> lf_done x \<Longrightarrow> lf_done x' \<and> life_left x' \<le> life_left x"
  by (induction rule: env_step.induct) (simp_all add: life_left_def)

lemma ending_proceeds:
  assumes "lock_inv x" and "ending_inv x" and "lf_done x" and "life_left x \<noteq> 0"
  shows "\<exists>x'. own_step x x'"
proof (cases "lf_watched x")
  case False
  then show ?thesis using own_step.Watch assms(3) by blast
next
  case True
  have free: "lf_lock x = None \<or> lf_serve x = Installing"
  proof (cases "lf_lock x")
    case (Some ow)
    show ?thesis
    proof (cases ow)
      case (Call_holds j)
      then have "Inside \<in> set (lf_calls x)" using Some assms(1) by (metis lock_inv_def inside_def nth_mem)
      then show ?thesis using assms(2,3) by (auto simp: ending_inv_def)
    qed (use Some assms(1) in \<open>simp add: lock_inv_def\<close>)
  qed simp
  show ?thesis
  proof (cases "lf_serve x")
    case (Accepting i)
    then show ?thesis using True assms(2) own_step.Accept_closed by (auto simp: ending_inv_def)
  next
    case (Replacing i)
    obtain go s' where "reinstall_begin (Some i) (lf_server x) = (go, s')" by fastforce
    then show ?thesis
      using free Replacing own_step.Replace [of x i s'] own_step.Replace_other [of x i s'] by (cases go) auto
  next
    case Reading
    then show ?thesis using own_step.Read_nil own_step.Read_sess by (cases "sv_session (lf_server x)") blast+
  qed (use assms(3,4) True in \<open>auto simp: life_left_def intro: own_step.intros\<close>)
qed

section \<open>A round of the loop by itself\<close>

lemma two_steps: "r x y \<Longrightarrow> r y z \<Longrightarrow> r\<^sup>*\<^sup>* x z"
  by simp

text \<open>When nothing else runs, the steps of \<open>serve\<close> make its round.\<close>

abbreviation life_step :: "bool \<Rightarrow> life \<Rightarrow> life \<Rightarrow> bool" where
  "life_step quiet x x' \<equiv> own_step x x' \<or> env_step quiet x x'"

definition round_end :: "'st serve_result \<Rightarrow> serve_pc" where
  "round_end res = (case res of Stop \<Rightarrow> Left_loop | Wait \<Rightarrow> Sleeping | Continue \<Rightarrow> Polling | Spawn _ \<Rightarrow> Polling)"

lemma replace_alone:
  assumes "lf_serve x = Replacing i" and "lf_lock x = None"
  shows "(life_step quiet)\<^sup>*\<^sup>* x (x\<lparr>lf_server := reinstallSession (Some i) newSess (lf_server x), lf_serve := Polling\<rparr>)"
proof -
  obtain go s' where b: "reinstall_begin (Some i) (lf_server x) = (go, s')" by fastforce
  show ?thesis
  proof (cases go)
    case True
    let ?y = "x\<lparr>lf_server := s', lf_serve := Installing, lf_lock := Some Serve_holds\<rparr>"
    have "own_step x ?y" using own_step.Replace [OF assms] b True by simp
    moreover have "own_step ?y (?y\<lparr>lf_server := installSession newSess (lf_server ?y), lf_serve := Polling, lf_lock := None\<rparr>)"
      by (rule own_step.Install) simp
    moreover have "?y\<lparr>lf_server := installSession newSess (lf_server ?y), lf_serve := Polling, lf_lock := None\<rparr>
        = x\<lparr>lf_server := reinstallSession (Some i) newSess (lf_server x), lf_serve := Polling\<rparr>"
      using assms(2) b True by (cases x) (simp add: reinstallSession_def)
    ultimately show ?thesis
      using two_steps [of "life_step quiet" x ?y] by simp
  next
    case False
    then have "own_step x (x\<lparr>lf_server := s', lf_serve := Polling\<rparr>)"
      using own_step.Replace_other [OF assms] b by simp
    then show ?thesis using b False by (simp add: reinstallSession_def r_into_rtranclp)
  qed
qed

lemma serve_round_alone:
  assumes "lf_serve x = Polling" and "lf_lock x = None"
    and "serve_round (lf_done x) (lf_done x) accept newSess (lf_server x) = (res, s')"
  shows "(life_step quiet)\<^sup>*\<^sup>* x (x\<lparr>lf_server := s', lf_serve := round_end res\<rparr>)"
proof (cases "lf_done x")
  case True
  have "own_step x (x\<lparr>lf_serve := Left_loop\<rparr>)" by (rule own_step.Poll_done [OF assms(1) True])
  moreover have "res = Stop" "s' = lf_server x" using assms(3) True by (simp_all add: serve_round_def)
  ultimately show ?thesis by (simp add: round_end_def r_into_rtranclp)
next
  case False
  let ?r = "x\<lparr>lf_serve := Reading\<rparr>"
  have r: "life_step quiet x ?r" using own_step.Poll [OF assms(1) False] by simp
  show ?thesis
  proof (cases "sv_session (lf_server x)")
    case None
    have "life_step quiet ?r (?r\<lparr>lf_serve := Sleeping\<rparr>)" using own_step.Read_nil [of ?r] None by simp
    moreover have "res = Wait" "s' = lf_server x" using assms(3) None False by (simp_all add: serve_round_def)
    ultimately show ?thesis using r by (simp add: round_end_def converse_rtranclp_into_rtranclp r_into_rtranclp)
  next
    case (Some sess)
    let ?a = "x\<lparr>lf_serve := Accepting sess\<rparr>"
    have "life_step quiet ?r ?a" using own_step.Read_sess [of ?r sess] Some by simp
    with r have a: "(life_step quiet)\<^sup>*\<^sup>* x ?a" by (rule two_steps)
    show ?thesis
    proof (cases "accept sess")
      case (Inl err)
      let ?f = "x\<lparr>lf_serve := Accept_failed sess\<rparr>" and ?p = "x\<lparr>lf_serve := Replacing sess\<rparr>"
      have "life_step quiet ?a ?f" using env_step.Dies [of ?a sess quiet] by simp
      moreover have "life_step quiet ?f ?p" using own_step.Failed_retry [of ?f sess] False by simp
      moreover have "(life_step quiet)\<^sup>*\<^sup>* ?p
          (?p\<lparr>lf_server := reinstallSession (Some sess) newSess (lf_server ?p), lf_serve := Polling\<rparr>)"
        by (rule replace_alone) (simp_all add: assms(2))
      moreover have "res = Continue" "s' = reinstallSession (Some sess) newSess (lf_server x)"
        using assms(3) Some Inl False by (simp_all add: serve_round_def)
      ultimately show ?thesis using a
        by (simp add: round_end_def del: sup_apply) (rule rtranclp_trans, assumption, rule rtranclp_trans, rule two_steps, simp_all)
    next
      case (Inr stream)
      have "life_step quiet ?a (?a\<lparr>lf_serve := Polling\<rparr>)" using env_step.Stream [of ?a sess quiet] by simp
      moreover have "res = Spawn stream" "s' = lf_server x"
        using assms(3) Some Inr False by (simp_all add: serve_round_def)
      ultimately show ?thesis using a by (simp add: round_end_def rtranclp.rtrancl_into_rtrancl)
    qed
  qed
qed

section \<open>Property\<close>


section \<open>A reconnect that comes late\<close>

text \<open>A callback that finds no session installs one all the same. It does so after the watcher and
  \<open>shutdown\<close> have closed everything, and then a session is left open by a \<open>Run\<close> that has returned; or
  between the look of \<open>serve\<close> at the context and its reading of the session, and then \<open>serve\<close> waits on a
  session that nobody closes. \<open>late_call\<close> is such a callback, from its start to its end.\<close>

definition late_call :: "life \<Rightarrow> life" where
  "late_call x =
     x\<lparr>lf_server := installSession None (closeSession (lf_server x)), lf_lock := None,
       lf_calls := lf_calls x @ [Finished]\<rparr>"

lemma late_call_reachable:
  assumes "life_reachable False a x" and "lf_lock x = None"
  shows "life_reachable False a (late_call x)"
proof -
  let ?n = "length (lf_calls x)"
  let ?s = "x\<lparr>lf_calls := lf_calls x @ [Seen (sv_session (lf_server x))]\<rparr>"
  let ?b = "?s\<lparr>lf_server := closeSession (lf_server x), lf_lock := Some (Call_holds ?n),
               lf_calls := (lf_calls ?s)[?n := Inside]\<rparr>"
  have "env_step False x ?s" by (rule env_step.Reconnect) simp
  moreover have "env_step False ?s ?b"
    by (rule env_step.Call_begin [where dead = "sv_session (lf_server x)"])
      (simp_all add: assms(2) reinstall_begin_def)
  moreover have "env_step False ?b
      (?b\<lparr>lf_server := installSession None (lf_server ?b), lf_lock := None, lf_calls := (lf_calls ?b)[?n := Finished]\<rparr>)"
    by (rule env_step.Call_end) simp_all
  ultimately have "life_reachable False a
      (?b\<lparr>lf_server := installSession None (lf_server ?b), lf_lock := None, lf_calls := (lf_calls ?b)[?n := Finished]\<rparr>)"
    using assms(1) life_env by blast
  then show ?thesis by (simp add: late_call_def)
qed

definition stopping :: "serve_pc \<Rightarrow> server_args \<Rightarrow> life" where
  "stopping pc a = (life_start None a)\<lparr>lf_done := True, lf_watched := True, lf_serve := pc,
     lf_server := closeSession (lf_server (life_start None a))\<rparr>"

lemma stopping_fields:
  "lf_lock (stopping pc a) = None" "lf_calls (stopping pc a) = []" "lf_serve (stopping pc a) = pc"
  "lf_done (stopping pc a)" "lf_watched (stopping pc a)"
  "sv_sessions (lf_server (stopping pc a)) = [True]" "sv_session (lf_server (stopping pc a)) = None"
  by (simp_all add: stopping_def life_start_def installSession_def server_of_args_def closeSession_def closed_at_def)

lemma stopping_reachable: "life_reachable False a (stopping Reading a)" "life_reachable False a (stopping Polling a)"
proof -
  let ?i = "life_start None a"
  have i: "life_reachable False a ?i" by (rule life_init)
  have "own_step ?i (?i\<lparr>lf_serve := Reading\<rparr>)" by (rule own_step.Poll) (simp_all add: life_start_def)
  then have r: "life_reachable False a (?i\<lparr>lf_serve := Reading\<rparr>)" by (rule life_own [OF i])
  have stop: "life_reachable False a (x\<lparr>lf_done := True, lf_server := closeSession (lf_server x), lf_watched := True\<rparr>)"
    if "life_reachable False a x" "\<not> lf_watched x" for x
  proof -
    have "env_step False x (x\<lparr>lf_done := True\<rparr>)" by (rule env_step.Cancel) simp
    then have "life_reachable False a (x\<lparr>lf_done := True\<rparr>)" by (rule life_env [OF that(1)])
    moreover have "own_step (x\<lparr>lf_done := True\<rparr>)
        (x\<lparr>lf_done := True, lf_server := closeSession (lf_server (x\<lparr>lf_done := True\<rparr>)), lf_watched := True\<rparr>)"
      using that(2) own_step.Watch [of "x\<lparr>lf_done := True\<rparr>"] by simp
    ultimately show ?thesis by (simp add: life_own)
  qed
  show "life_reachable False a (stopping Reading a)" "life_reachable False a (stopping Polling a)"
    using stop [OF r] stop [OF i] by (simp_all add: stopping_def life_start_def)
qed

inductive_simps accepting_own: "own_step x x'"

lemma late_call_strands:
  "\<exists>x. life_reachable False a x \<and> lf_done x \<and> lf_watched x \<and> set (lf_calls x) \<subseteq> {Finished}
     \<and> lf_serve x = Accepting 1 \<and> (\<nexists>x'. own_step x x')"
proof -
  let ?l = "late_call (stopping Reading a)"
  let ?x = "?l\<lparr>lf_serve := Accepting 1\<rparr>"
  have l: "life_reachable False a ?l" by (rule late_call_reachable [OF stopping_reachable(1)]) (rule stopping_fields)
  have f: "sv_sessions (lf_server ?l) = [True, False]" "sv_session (lf_server ?l) = Some 1"
    "lf_serve ?l = Reading" "lf_done ?l" "lf_watched ?l" "set (lf_calls ?l) \<subseteq> {Finished}"
    by (simp_all add: late_call_def installSession_def closeSession_def closed_at_def stopping_fields)
  have "own_step ?l ?x" by (rule own_step.Read_sess) (simp_all add: f)
  then have "life_reachable False a ?x" by (rule life_own [OF l])
  moreover have "\<not> own_step ?x x'" for x'
    using f by (auto simp: accepting_own)
  ultimately show ?thesis using f by (intro exI [of _ ?x]) auto
qed

lemma late_call_leaks:
  "\<exists>x. life_reachable False a x \<and> lf_serve x = Returned \<and> set (lf_calls x) \<subseteq> {Finished}
     \<and> \<not> all_closed (lf_server x)"
proof -
  let ?o = "(stopping Polling a)\<lparr>lf_serve := Left_loop\<rparr>"
  let ?s = "?o\<lparr>lf_server := closeSession (lf_server ?o), lf_serve := Shut\<rparr>"
  let ?x = "(late_call ?s)\<lparr>lf_serve := Returned\<rparr>"
  have "own_step (stopping Polling a) ?o" by (rule own_step.Poll_done) (simp_all add: stopping_fields)
  then have o: "life_reachable False a ?o" by (rule life_own [OF stopping_reachable(2)])
  have "own_step ?o ?s" by (rule own_step.Leave) simp
  then have s: "life_reachable False a ?s" by (rule life_own [OF o])
  have l: "life_reachable False a (late_call ?s)" by (rule late_call_reachable [OF s]) (simp add: stopping_fields)
  have "own_step (late_call ?s) ?x" by (rule own_step.Close_link) (simp add: late_call_def)
  then have "life_reachable False a ?x" by (rule life_own [OF l])
  moreover have "\<not> all_closed (lf_server ?x)"
    by (auto simp: all_closed_def late_call_def installSession_def closeSession_def closed_at_def stopping_fields
        intro!: exI [of _ 1])
  moreover have "set (lf_calls ?x) \<subseteq> {Finished}" by (simp add: late_call_def stopping_fields)
  ultimately show ?thesis by (intro exI [of _ ?x]) simp
qed

section \<open>Reconnects of the client\<close>

text \<open>The client has no \<open>reinstallMu\<close>. When two reconnect callbacks overlap, so that both have torn down
  before either installs, the session and the connection of the first stay open and nothing refers to
  them any more.\<close>

lemma client_reconnects_leak:
  fixes c
  defines "c' \<equiv> client_new_session None (client_new_session None (client_teardown (client_teardown c)))"
  shows "\<not> cl_sessions c' ! length (cl_sessions c)" and "cl_session c' = Some (Suc (length (cl_sessions c)))"
    and "\<not> mx_closed (cl_conns c' ! length (cl_conns c))" and "cl_conn c' = Some (Suc (length (cl_conns c)))"
  by (auto simp: c'_def client_new_session_def client_teardown_def close_session_at_def close_conn_at_def
      nth_append mux_New_def split: option.splits)

section \<open>Witness\<close>


end
