(* ===== verification/Http.thy ===== *)
theory Http
  imports Io Json
begin

text \<open>
  The HTTP calls of the providers' signalling APIs. What \<open>net/http\<close> and the service behind it do
  is the record \<open>http\<close>, a parameter: what \<open>NewRequest\<close> says of a URL, the answer to a request on a
  world \<open>'w\<close>, and the error of \<open>encoding/json\<close> for a body that does not decode. A body is the text
  read from it. Query parameters added by the code are kept beside the URL they are added to.
\<close>

record http_request =
  rq_Method :: string
  rq_URL :: string
  rq_Query :: "(string \<times> string) list"
  rq_Header :: "(string \<times> string) list"
  rq_Body :: string

record http_response =
  rs_StatusCode :: int
  rs_Body :: string

record 'w http =
  h_NewRequest :: "string \<Rightarrow> go_error option"
  h_Do :: "http_request \<Rightarrow> 'w \<Rightarrow> (go_error + http_response) \<times> 'w"
  h_json :: "string \<Rightarrow> go_error"

definition StatusOK :: int where "StatusOK = 200"
definition StatusCreated :: int where "StatusCreated = 201"

definition send_request ::
    "'w http \<Rightarrow> string \<Rightarrow> string \<Rightarrow> http_request \<Rightarrow> 'w \<Rightarrow> (go_error + http_response) \<times> 'w" where
  "send_request h create_ctx do_ctx req w =
     (case h_NewRequest h (rq_URL req) of
        Some err \<Rightarrow> (Inl (Ctx create_ctx err), w)
      | None \<Rightarrow> io_ctx do_ctx (h_Do h req) w)"

text \<open>\<open>json.NewDecoder(body).Decode(&res)\<close>: the first value of the body; what follows it is not read,
  except that a literal or number must end where it ends.\<close>

definition json_first :: "string \<Rightarrow> json option" where
  "json_first s =
     (case json_value (2 * length s + 2) 10000 s of
        None \<Rightarrow> None
      | Some (v, r) \<Rightarrow>
          (case v of
             JObj _ \<Rightarrow> Some v
           | JArr _ \<Rightarrow> Some v
           | JStr _ \<Rightarrow> Some v
           | _ \<Rightarrow> if r = [] \<or> is_ws (hd r) then Some v else None))"

definition Decode ::
    "'w http \<Rightarrow> string \<Rightarrow> (string \<Rightarrow> json \<Rightarrow> 'r \<Rightarrow> 'r option) \<Rightarrow> 'r \<Rightarrow> http_response \<Rightarrow> 'w \<Rightarrow> (go_error + 'r) \<times> 'w" where
  "Decode h c store zero resp w =
     (case json_first (rs_Body resp) of
        None \<Rightarrow> (Inl (Ctx c (h_json h (rs_Body resp))), w)
      | Some v \<Rightarrow>
          (case store_object store v zero of
             None \<Rightarrow> (Inl (Ctx c (h_json h (rs_Body resp))), w)
           | Some r \<Rightarrow> (Inr r, w)))"

text \<open>A status other than the expected ones is an error; some of the APIs quote the body in it.\<close>

definition check_status :: "go_error \<Rightarrow> string \<Rightarrow> int list \<Rightarrow> bool \<Rightarrow> http_response \<Rightarrow> 'w \<Rightarrow> (go_error + unit) \<times> 'w" where
  "check_status sentinel pre ok with_body resp w =
     (if rs_StatusCode resp \<in> set ok then (Inr (), w)
      else (Inl (Detail sentinel (pre @ Itoa (rs_StatusCode resp)
                  @ (if with_body then '' '' @ rs_Body resp else []))), w))"

lemma send_request_Inr:
  "send_request h c d req w = (Inr resp, w') \<longleftrightarrow>
     h_NewRequest h (rq_URL req) = None \<and> h_Do h req w = (Inr resp, w')"
  by (auto simp: send_request_def split: option.splits)

lemma check_status_Inr [simp]:
  "check_status e p ok b resp w = (Inr u, w') \<longleftrightarrow> rs_StatusCode resp \<in> set ok \<and> w' = w"
  by (auto simp: check_status_def)

lemma Decode_Inr:
  "Decode h c store zero resp w = (Inr r, w') \<longleftrightarrow>
     (\<exists>v. json_first (rs_Body resp) = Some v \<and> store_object store v zero = Some r) \<and> w' = w"
  by (auto simp: Decode_def split: option.splits)

lemma json_first_text:
  assumes "json_ok (JObj ms)" and "json_depth (JObj ms) \<le> 10000"
  shows "json_first (json_text (JObj ms)) = Some (JObj ms)"
  using json_parse_text [OF assms] by (auto simp: json_parse_def json_first_def split: option.splits if_splits)

end
