(* ===== verification/Jazz_Api.thy ===== *)
theory Jazz_Api
  imports Http Session
begin

text \<open>
  \<open>internal/provider/jazz/api.go\<close> and the room handling of \<open>NewPeer\<close>: creating a meeting, asking for
  the connector of a room, and reading a room identifier of the form \<open>id:password\<close>. \<open>clientID\<close> is
  the fresh UUID.
\<close>

definition jazz_apiBase :: string where "jazz_apiBase = ''https://bk.salutejazz.ru''"
definition authTypeAnonymous :: string where "authTypeAnonymous = ''ANONYMOUS''"

definition errCreateRoomFailed :: go_error where "errCreateRoomFailed = Base ''create room failed''"
definition errPreconnectFailed :: go_error where "errPreconnectFailed = Base ''preconnect failed''"

record RoomInfo =
  RoomID :: string
  Password :: string
  ConnectorURL :: string

text \<open>The headers are a map whose keys \<open>Header.Set\<close> puts into canonical form: the two spellings of
  \<open>X-Jazz-Authtype\<close> in the source are one header.\<close>

definition jazz_headers :: "string \<Rightarrow> (string \<times> string) list" where
  "jazz_headers clientID =
     [(''X-Jazz-Clientid'', clientID), (''X-Jazz-Authtype'', authTypeAnonymous),
      (''X-Client-Authtype'', authTypeAnonymous), (''Content-Type'', ''application/json'')]"

definition createPayload :: json where
  "createPayload =
     JObj [(''guestEnabled'', JBool True), (''lobbyEnabled'', JBool False), (''moderatorEmails'', JArr []),
           (''room3dEnabled'', JBool False), (''room3dScene'', JStr ''XRLobby''),
           (''serverVideoRecordAutoStartEnabled'', JBool False), (''sipEnabled'', JBool False),
           (''summarizationEnabled'', JBool False), (''title'', JStr ''olcrtc'')]"

definition preconnectPayload :: "string \<Rightarrow> json" where
  "preconnectPayload password =
     JObj [(''jazzNextMigration'',
              JObj [(''b2bBaseRoomSupport'', JBool True), (''demoRoomBaseSupport'', JBool True),
                    (''demoRoomVersionSupport'', JNum ''2''), (''mediaWithoutAutoSubscribeSupport'', JBool True),
                    (''sberclassRoomSupport'', JBool True), (''sdkRoomSupport'', JBool True),
                    (''webinarSpeakerSupport'', JBool True), (''webinarViewerSupport'', JBool True)]),
           (''password'', JStr password)]"

definition store_createResponse :: "string \<Rightarrow> json \<Rightarrow> string \<times> string \<Rightarrow> (string \<times> string) option" where
  "store_createResponse k v = (\<lambda>(roomID, password).
     if EqualFold k ''roomId'' then map_option (\<lambda>x. (x, password)) (store_string v roomID)
     else if EqualFold k ''password'' then map_option (\<lambda>x. (roomID, x)) (store_string v password)
     else Some (roomID, password))"

definition store_connectorUrl :: "string \<Rightarrow> json \<Rightarrow> string \<Rightarrow> string option" where
  "store_connectorUrl k v old = (if EqualFold k ''connectorUrl'' then store_string v old else Some old)"

definition createMeeting :: "'w http \<Rightarrow> (string \<times> string) list \<Rightarrow> 'w \<Rightarrow> (go_error + string \<times> string) \<times> 'w" where
  "createMeeting h headers =
     io_bind (send_request h ''create request'' ''do create request''
       \<lparr>rq_Method = ''POST'', rq_URL = jazz_apiBase @ ''/room/create-meeting'', rq_Query = [],
        rq_Header = headers, rq_Body = json_text createPayload\<rparr>)
     (\<lambda>resp. io_bind (check_status errCreateRoomFailed '': status '' [StatusOK] False resp)
     (\<lambda>_. Decode h ''decode create response'' store_createResponse ([], []) resp))"

definition preconnect ::
    "'w http \<Rightarrow> string \<Rightarrow> string \<Rightarrow> (string \<times> string) list \<Rightarrow> 'w \<Rightarrow> (go_error + string) \<times> 'w" where
  "preconnect h roomID password headers =
     io_bind (send_request h ''create preconnect request'' ''do preconnect request''
       \<lparr>rq_Method = ''POST'', rq_URL = jazz_apiBase @ ''/room/'' @ roomID @ ''/preconnect'', rq_Query = [],
        rq_Header = headers, rq_Body = json_text (preconnectPayload password)\<rparr>)
     (\<lambda>resp. io_bind (check_status errPreconnectFailed '': status '' [StatusOK] False resp)
     (\<lambda>_. Decode h ''decode preconnect response'' store_connectorUrl [] resp))"

definition jazz_createRoom :: "'w http \<Rightarrow> string \<Rightarrow> 'w \<Rightarrow> (go_error + RoomInfo) \<times> 'w" where
  "jazz_createRoom h clientID =
     io_bind (io_ctx ''create meeting'' (createMeeting h (jazz_headers clientID))) (\<lambda>(roomID, password).
     io_bind (io_ctx ''preconnect'' (preconnect h roomID password (jazz_headers clientID))) (\<lambda>connectorURL.
     io_return \<lparr>RoomID = roomID, Password = password, ConnectorURL = connectorURL\<rparr>))"

definition jazz_CreateRoom :: "'w http \<Rightarrow> string \<Rightarrow> 'w \<Rightarrow> (go_error + RoomInfo) \<times> 'w" where
  "jazz_CreateRoom h clientID = jazz_createRoom h clientID"

definition jazz_joinRoom :: "'w http \<Rightarrow> string \<Rightarrow> string \<Rightarrow> string \<Rightarrow> 'w \<Rightarrow> (go_error + RoomInfo) \<times> 'w" where
  "jazz_joinRoom h clientID roomID password =
     io_bind (preconnect h roomID password (jazz_headers clientID)) (\<lambda>connectorURL.
     io_return \<lparr>RoomID = roomID, Password = password, ConnectorURL = connectorURL\<rparr>)"

section \<open>The room of a peer\<close>

text \<open>\<open>strings.Split(s, ":")\<close>.\<close>

fun Split :: "char \<Rightarrow> string \<Rightarrow> string list" where
  "Split sep [] = [[]]"
| "Split sep (c # s) =
     (if c = sep then [] # Split sep s
      else (case Split sep s of [] \<Rightarrow> [[c]] | part # parts \<Rightarrow> (c # part) # parts))"

definition split_room :: "string \<Rightarrow> string \<times> string" where
  "split_room roomID =
     (case Split (CHR '':'') roomID of
        [room, password] \<Rightarrow> (room, password)
      | _ \<Rightarrow> (roomID, []))"

text \<open>The room information a new peer starts with.\<close>

definition jazz_room :: "'w http \<Rightarrow> string \<Rightarrow> string \<Rightarrow> 'w \<Rightarrow> (go_error + RoomInfo) \<times> 'w" where
  "jazz_room h clientID roomID =
     (if roomID \<in> {[], ''any'', ''dummy''} then io_ctx ''create room'' (jazz_createRoom h clientID)
      else (case split_room roomID of
              (room, password) \<Rightarrow> io_ctx ''join room'' (jazz_joinRoom h clientID room password)))"

section \<open>Generated rooms\<close>

lemma Split_none: "sep \<notin> set s \<Longrightarrow> Split sep s = [s]"
  by (induction s) auto

lemma Split_one: "sep \<notin> set s \<Longrightarrow> sep \<notin> set t \<Longrightarrow> Split sep (s @ sep # t) = [s, t]"
  by (induction s) (auto simp: Split_none)

lemma Split_length: "length (Split sep s) = Suc (count_list s sep)"
  by (induction s) (auto split: list.splits)

lemma Split_nonempty: "Split sep s \<noteq> []"
  using Split_length [of sep s] by auto

lemma Split_concat: "Split sep s = [a, b] \<Longrightarrow> s = a @ sep # b"
proof (induction s arbitrary: a)
  case (Cons c s)
  then show ?case
  proof (cases "c = sep")
    case True
    with Cons.prems have "a = []" "Split sep s = [b]" by simp_all
    moreover from this(2) have "sep \<notin> set s" using Split_length [of sep s] by (simp add: count_list_0_iff)
    ultimately show ?thesis using True by (simp add: Split_none)
  next
    case False
    with Cons.prems obtain part where "Split sep s = [part, b]" "a = c # part"
      by (auto split: list.splits)
    with Cons.IH [OF this(1)] show ?thesis by simp
  qed
qed simp

lemma split_room_cases:
  "split_room roomID = (room, password) \<longleftrightarrow>
     (if count_list roomID (CHR '':'') = 1 then roomID = room @ '':'' @ password
      else room = roomID \<and> password = [])"
proof (cases "count_list roomID (CHR '':'') = 1")
  case True
  then have "length (Split (CHR '':'') roomID) = 2" using Split_length [of "CHR '':''" roomID] by simp
  then obtain a b where s: "Split (CHR '':'') roomID = [a, b]"
    by (auto simp: numeral_2_eq_2 length_Suc_conv)
  have c: "roomID = a @ CHR '':'' # b" by (rule Split_concat [OF s])
  moreover have "count_list a (CHR '':'') = 0" "count_list b (CHR '':'') = 0" using True c by simp_all
  moreover have "count_list roomID (CHR '':'') = 1" by (rule True)
  ultimately show ?thesis
    using s True by (auto simp: split_room_def count_list_0_iff append_eq_append_conv2 append_eq_Cons_conv Cons_eq_append_conv)
next
  case False
  then have "length (Split (CHR '':'') roomID) \<noteq> 2" using Split_length [of "CHR '':''" roomID] by simp
  then have "split_room roomID = (roomID, [])" by (auto simp: split_room_def split: list.splits)
  with False show ?thesis by auto
qed

text \<open>What \<open>Gen\<close> is given to make a room: the identifier and the password of \<open>CreateRoom\<close>.\<close>

definition gen_room :: "'w http \<Rightarrow> string \<Rightarrow> 'w \<Rightarrow> (go_error + string \<times> string) \<times> 'w" where
  "gen_room h clientID = io_bind (jazz_CreateRoom h clientID) (\<lambda>info. io_return (RoomID info, Password info))"

lemma gen_attempt_Some:
  "gen_attempt (gen_room h clientID) (w, x) = (None, w', roomID) \<longleftrightarrow>
     (\<exists>info. jazz_CreateRoom h clientID w = (Inr info, w') \<and> roomID = RoomID info @ '':'' @ Password info)"
  by (auto simp: gen_attempt_def gen_room_def io_bind_def io_return_def split: prod.splits sum.splits)

section \<open>Properties\<close>

text \<open>C37: an identifier printed by room generation, passed on as the room of a client, makes the client
  join exactly the generated room with its password, as long as neither contains a colon; with a
  colon in one of them the whole text is taken for the room and the password is lost.\<close>

theorem jazz_generated_room_joins:
  assumes "gen_attempt (gen_room h clientID) (w, x) = (None, w', roomID)"
  shows "\<exists>info. jazz_CreateRoom h clientID w = (Inr info, w')
     \<and> (if CHR '':'' \<notin> set (RoomID info) \<and> CHR '':'' \<notin> set (Password info)
        then jazz_room h2 clientID2 (buildRoomURL ''jazz'' roomID) v
          = io_ctx ''join room'' (jazz_joinRoom h2 clientID2 (RoomID info) (Password info)) v
        else jazz_room h2 clientID2 (buildRoomURL ''jazz'' roomID) v
          = io_ctx ''join room'' (jazz_joinRoom h2 clientID2 (RoomID info @ '':'' @ Password info) []) v)"
proof -
  obtain info where info: "jazz_CreateRoom h clientID w = (Inr info, w')"
    "roomID = RoomID info @ '':'' @ Password info"
    using assms by (auto simp: gen_attempt_Some)
  have url: "buildRoomURL ''jazz'' roomID = roomID" "roomID \<notin> {[], ''any'', ''dummy''}"
    using info(2) by (auto simp: buildRoomURL_def append_eq_Cons_conv Cons_eq_append_conv)
  have n: "count_list roomID (CHR '':'') =
      Suc (count_list (RoomID info) (CHR '':'') + count_list (Password info) (CHR '':''))"
    by (simp add: info(2))
  show ?thesis
  proof (cases "CHR '':'' \<notin> set (RoomID info) \<and> CHR '':'' \<notin> set (Password info)")
    case True
    then have "split_room roomID = (RoomID info, Password info)"
      by (simp add: split_room_def info(2) Split_one)
    with True show ?thesis using info(1) url by (intro exI [of _ info]) (simp add: jazz_room_def)
  next
    case False
    then have "count_list roomID (CHR '':'') \<noteq> 1" using n by (auto simp: count_list_0_iff)
    then have "split_room roomID = (roomID, [])" by (simp add: split_room_cases)
    with False show ?thesis using info url by (intro exI [of _ info]) (auto simp: jazz_room_def)
  qed
qed

section \<open>Witness\<close>

text \<open>A service that gives every caller the same room.\<close>

definition example_service :: "nat http" where
  "example_service =
     \<lparr>h_NewRequest = (\<lambda>_. None),
      h_Do = (\<lambda>req n. (Inr \<lparr>rs_StatusCode = 200, rs_Body = json_text (JObj
        [(''roomId'', JStr ''r1''), (''password'', JStr ''p1''), (''connectorUrl'', JStr ''wss://c'')])\<rparr>, n + 1)),
      h_json = (\<lambda>_. Base ''EOF'')\<rparr>"

lemma example_room:
  "jazz_CreateRoom example_service c n =
     (Inr \<lparr>RoomID = ''r1'', Password = ''p1'', ConnectorURL = ''wss://c''\<rparr>, n + 2)"
proof -
  have "json_first (json_text (JObj
        [(''roomId'', JStr ''r1''), (''password'', JStr ''p1''), (''connectorUrl'', JStr ''wss://c'')]))
      = Some (JObj [(''roomId'', JStr ''r1''), (''password'', JStr ''p1''), (''connectorUrl'', JStr ''wss://c'')])"
    by (rule json_first_text) (auto simp: ascii_def)
  then show ?thesis
    by (simp add: jazz_CreateRoom_def jazz_createRoom_def createMeeting_def preconnect_def io_bind_def io_ctx_def
        io_return_def send_request_def example_service_def check_status_def StatusOK_def Decode_def
        store_object_def store_createResponse_def store_connectorUrl_def store_string_def EqualFold_def
        ToLower_def char_lower_def del: json_text.simps)
qed

theorem jazz_generated_room_joins_witness:
  "jazz_room example_service ''c2'' (buildRoomURL ''jazz'' ''r1:p1'') 5
     = io_ctx ''join room'' (jazz_joinRoom example_service ''c2'' ''r1'' ''p1'') 5"
proof -
  have "gen_attempt (gen_room example_service ''c1'') (0, []) = (None, 2, ''r1:p1'')"
    by (simp add: gen_attempt_Some example_room)
  from jazz_generated_room_joins [OF this, of example_service "''c2''" 5]
  show ?thesis by (simp add: example_room)
qed

end
