(* ===== verification/Jazz_Packet.thy ===== *)
theory Jazz_Packet
  imports Go_Std "HOL-Library.Sublist"
begin

text \<open>
  \<open>internal/provider/jazz/datapacket.go\<close>: the protobuf framing of SaluteJazz data packets. The
  reader is the bytes it has not read yet; moving its position past the end leaves nothing.
\<close>

section \<open>Writing\<close>

definition encodeVarint :: "u64 \<Rightarrow> bytes" where
  "encodeVarint value = PutUvarint value"

definition encodeField :: "nat \<Rightarrow> nat \<Rightarrow> bytes \<Rightarrow> bytes" where
  "encodeField fieldNumber wireType data =
     (let tag = encodeVarint (push_bit 3 (word_of_nat fieldNumber) OR word_of_nat wireType) in
      if wireType = 2 then tag @ encodeVarint (word_of_nat (length data)) @ data
      else tag @ data)"

text \<open>\<open>msgID\<close> is the fresh UUID.\<close>

definition EncodeDataPacket :: "bytes \<Rightarrow> bytes \<Rightarrow> bytes" where
  "EncodeDataPacket msgID payload =
     (let userFields = encodeField 2 2 payload @ encodeField 8 2 msgID
      in encodeField 1 0 (encodeVarint 0) @ encodeField 2 2 userFields)"

section \<open>Reading\<close>

text \<open>\<open>byteReader.Read\<close> of \<open>n\<close> bytes that are known to be there: at the end of the data it is EOF,
  also for no bytes at all.\<close>

definition byteReader_Read :: "nat \<Rightarrow> bytes \<Rightarrow> bytes option \<times> bytes" where
  "byteReader_Read n r = (if r = [] then (None, r) else (Some (take n r), drop n r))"

definition handleWireType :: "nat \<Rightarrow> bytes \<Rightarrow> bytes option \<times> bytes" where
  "handleWireType wireType r =
     (if wireType = 0 then (Some [], snd (ReadUvarint r))
      else if wireType = 2
      then (case ReadUvarint r of
              (None, r') \<Rightarrow> (None, r')
            | (Some len, r') \<Rightarrow>
                if length r' < unat len then (None, r')
                else (case byteReader_Read (unat len) r' of
                        (None, r'') \<Rightarrow> (None, r'')
                      | (Some fieldData, r'') \<Rightarrow>
                          if length fieldData \<noteq> unat len then (None, r'') else (Some fieldData, r'')))
      else if wireType = 1 then (Some [], drop 8 r)
      else if wireType = 5 then (Some [], drop 4 r)
      else (None, r))"

lemma handleWireType_shorter: "handleWireType wt r = (v, r') \<Longrightarrow> length r' \<le> length r"
  by (cases "ReadUvarint r")
    (auto simp: handleWireType_def byteReader_Read_def dest!: ReadUvarint_le split: if_splits option.splits)

function parseFields_loop :: "nat \<Rightarrow> bytes \<Rightarrow> bytes \<Rightarrow> bytes" where
  "parseFields_loop targetField r result =
     (if r = [] then result
      else (case ReadUvarint r of
              (None, _) \<Rightarrow> result
            | (Some tagVal, r1) \<Rightarrow>
                (let fieldNumber = unat (drop_bit 3 tagVal); wireType = unat (tagVal AND 7)
                 in case handleWireType wireType r1 of
                      (None, _) \<Rightarrow> result
                    | (Some fieldData, r2) \<Rightarrow>
                        parseFields_loop targetField r2
                          (if fieldNumber = targetField \<and> wireType = 2 then fieldData else result))))"
  by pat_completeness auto
termination
  by (relation "measure (\<lambda>(_, r, _). length r)")
    (auto dest!: ReadUvarint_Some_shorter handleWireType_shorter sym [of "(_, _)"])

declare parseFields_loop.simps [simp del]

definition parseFields :: "bytes \<Rightarrow> nat \<Rightarrow> bytes \<times> bool" where
  "parseFields data targetField =
     (let result = parseFields_loop targetField data [] in (result, result \<noteq> []))"

definition DecodeDataPacket :: "bytes \<Rightarrow> bytes \<times> bool" where
  "DecodeDataPacket raw =
     (case parseFields raw 2 of
        (_, False) \<Rightarrow> ([], False)
      | (userData, True) \<Rightarrow> parseFields userData 2)"

section \<open>Fields\<close>

lemma tag_words:
  fixes f w :: u64
  assumes "take_bit 61 f = f" and "take_bit 3 w = w"
  shows "drop_bit 3 (push_bit 3 f OR w) = f" and "(push_bit 3 f OR w) AND 7 = w"
proof -
  have hi: "n < 3" if "bit w n" for n using assms(2) that by (metis bit_take_bit_iff)
  have lo: "n < 61" if "bit f n" for n using assms(1) that by (metis bit_take_bit_iff)
  show "drop_bit 3 (push_bit 3 f OR w) = f"
    by (rule bit_word_eqI) (auto simp: bit_simps dest: hi lo)
  have "(push_bit 3 f OR w) AND mask 3 = w"
    by (rule bit_word_eqI) (auto simp: bit_simps dest: hi)
  moreover have "mask 3 = (7 :: u64)" by (simp add: mask_eq_exp_minus_1)
  ultimately show "(push_bit 3 f OR w) AND 7 = w" by simp
qed

lemma take_bit_of_nat64: "n < 2 ^ k \<Longrightarrow> k \<le> 64 \<Longrightarrow> take_bit k (word_of_nat n :: u64) = word_of_nat n"
  by (simp add: take_bit_of_nat take_bit_nat_eq_self)

lemma tag_parts:
  assumes "fieldNumber < 2 ^ 61" and "wireType < 8"
  shows "unat (drop_bit 3 (push_bit 3 (word_of_nat fieldNumber) OR word_of_nat wireType :: u64)) = fieldNumber"
    and "unat ((push_bit 3 (word_of_nat fieldNumber) OR word_of_nat wireType :: u64) AND 7) = wireType"
proof -
  have f: "take_bit 61 (word_of_nat fieldNumber :: u64) = word_of_nat fieldNumber"
    by (rule take_bit_of_nat64 [OF assms(1)]) simp
  have w: "take_bit 3 (word_of_nat wireType :: u64) = word_of_nat wireType"
    by (rule take_bit_of_nat64) (use assms(2) in simp_all)
  show "unat (drop_bit 3 (push_bit 3 (word_of_nat fieldNumber) OR word_of_nat wireType :: u64)) = fieldNumber"
    unfolding tag_words [OF f w] using assms(1) by (simp add: unat_of_nat)
  show "unat ((push_bit 3 (word_of_nat fieldNumber) OR word_of_nat wireType :: u64) AND 7) = wireType"
    unfolding tag_words [OF f w] using assms(2) by (simp add: unat_of_nat)
qed

lemma parseFields_bytes_field:
  assumes "fieldNumber < 2 ^ 61" and "length d < 2 ^ 64" and "d \<noteq> [] \<or> rest \<noteq> []"
  shows "parseFields_loop t (encodeField fieldNumber 2 d @ rest) res =
     parseFields_loop t rest (if fieldNumber = t then d else res)"
proof -
  have "unat (word_of_nat (length d) :: u64) = length d" using assms(2) by (simp add: unat_of_nat)
  then have "handleWireType 2 (encodeVarint (word_of_nat (length d)) @ d @ rest) = (Some d, rest)"
    using assms(3) by (auto simp: handleWireType_def encodeVarint_def byteReader_Read_def)
  then show ?thesis
    using tag_parts [OF assms(1), of 2]
    by (subst parseFields_loop.simps) (simp add: encodeField_def encodeVarint_def Let_def)
qed

lemma parseFields_empty_end:
  assumes "fieldNumber < 2 ^ 61"
  shows "parseFields_loop t (encodeField fieldNumber 2 []) res = res"
proof -
  have "handleWireType 2 (encodeVarint 0) = (None, [])"
    using ReadUvarint_PutUvarint [of 0 "[]"]
    by (simp add: handleWireType_def encodeVarint_def byteReader_Read_def del: ReadUvarint_PutUvarint)
  then show ?thesis
    using tag_parts [OF assms, of 2]
    by (subst parseFields_loop.simps) (simp add: encodeField_def encodeVarint_def Let_def)
qed

lemma parseFields_varint_field:
  assumes "fieldNumber < 2 ^ 61"
  shows "parseFields_loop t (encodeField fieldNumber 0 (encodeVarint v) @ rest) res = parseFields_loop t rest res"
  using tag_parts [OF assms, of 0]
  by (subst parseFields_loop.simps) (simp add: encodeField_def encodeVarint_def handleWireType_def Let_def)

lemma parseFields_end [simp]: "parseFields_loop t [] res = res"
  by (simp add: parseFields_loop.simps)

text \<open>Whatever is parsed, what comes out is a stretch of the input.\<close>

lemma ReadUvarint_rest: "suffix (snd (ReadUvarint r)) r"
  using ReadUvarint_suffix [of r] by (cases "ReadUvarint r") (auto simp: suffix_def)

lemma handleWireType_rest: "suffix (snd (handleWireType wt r)) r"
  using ReadUvarint_rest [of r] suffix_order.trans [OF suffix_drop ReadUvarint_rest [of r]]
  by (auto simp: handleWireType_def byteReader_Read_def suffix_drop split: option.splits prod.splits)

lemma handleWireType_data: "fst (handleWireType wt r) = Some d \<Longrightarrow> sublist d r"
proof -
  have "sublist (take n (snd (ReadUvarint r))) r" for n
    using sublist_order.order.trans [OF sublist_take suffix_imp_sublist [OF ReadUvarint_rest]] .
  moreover assume "fst (handleWireType wt r) = Some d"
  ultimately show ?thesis
    by (auto simp: handleWireType_def byteReader_Read_def split: option.splits prod.splits if_splits)
qed

lemma parseFields_loop_inside: "parseFields_loop t r res = res \<or> sublist (parseFields_loop t r res) r"
proof (induction t r res rule: parseFields_loop.induct)
  case (1 t r res)
  show ?case
  proof (cases "r = [] \<or> fst (ReadUvarint r) = None")
    case True
    then have "parseFields_loop t r res = res"
      by (subst parseFields_loop.simps) (auto split: prod.splits option.splits)
    then show ?thesis by simp
  next
    case False
    then obtain tagVal r1 where tag: "ReadUvarint r = (Some tagVal, r1)" "r \<noteq> []"
      by (cases "ReadUvarint r") auto
    let ?w = "unat (tagVal AND 7)"
    have r1: "sublist x r" if "sublist x r1" for x
      using sublist_order.order.trans [OF that suffix_imp_sublist] ReadUvarint_rest [of r] tag by simp
    show ?thesis
    proof (cases "handleWireType ?w r1")
      case (Pair v r2)
      have data: "sublist d r" if "v = Some d" for d
        using handleWireType_data [of ?w r1 d] that Pair r1 by simp
      have r2: "sublist x r" if "sublist x r2" for x
        using sublist_order.order.trans [OF that suffix_imp_sublist] handleWireType_rest [of ?w r1] Pair r1 by simp
      show ?thesis
      proof (cases v)
        case None
        then have "parseFields_loop t r res = res"
          using tag Pair by (subst parseFields_loop.simps) (simp add: Let_def)
        then show ?thesis by simp
      next
        case (Some d)
        let ?res = "if unat (drop_bit 3 tagVal) = t \<and> ?w = 2 then d else res"
        have step: "parseFields_loop t r res = parseFields_loop t r2 ?res"
          using tag Pair Some by (subst parseFields_loop.simps) (simp add: Let_def)
        have "parseFields_loop t r2 ?res = ?res \<or> sublist (parseFields_loop t r2 ?res) r2"
          by (rule "1" [OF tag(2) tag(1) [symmetric] refl refl refl Pair [symmetric] Some])
        then show ?thesis unfolding step using data [OF Some] r2 by (auto split: if_splits)
      qed
    qed
  qed
qed

lemma PutUvarint_length: "unat x < 2 ^ (7 * Suc k) \<Longrightarrow> length (PutUvarint x) \<le> Suc k"
proof (induction k arbitrary: x)
  case 0
  then have "\<not> 0x80 \<le> x" by (simp add: word_le_nat_alt)
  then show ?case by (simp add: PutUvarint.simps [of x])
next
  case (Suc k)
  have "unat (drop_bit 7 x) < 2 ^ (7 * Suc k)"
    using Suc.prems
    by (simp only: unat_drop_bit_eq) (simp add: drop_bit_eq_div less_mult_imp_div_less power_add)
  from Suc.IH [OF this] show ?case by (simp add: PutUvarint.simps [of x])
qed

lemma encodeVarint_length: "length (encodeVarint x) \<le> 10"
proof -
  have "unat x < 2 ^ (7 * Suc 9)" using unsigned_less [of x, where ?'a = nat] by simp
  from PutUvarint_length [OF this] show ?thesis by (simp add: encodeVarint_def)
qed

lemma encodeField_length: "length (encodeField n 2 d) \<le> 20 + length d"
  using add_mono [OF encodeVarint_length encodeVarint_length] by (simp add: encodeField_def Let_def)

lemma packet_decodes:
  assumes len: "length payload + length msgID < 2 ^ 63"
  shows "DecodeDataPacket (EncodeDataPacket msgID payload) = (payload, payload \<noteq> [])"
proof -
  let ?u = "encodeField 2 2 payload @ encodeField 8 2 msgID"
  have inner: "parseFields_loop 2 ?u [] = payload"
    using len parseFields_bytes_field [of 2 payload "encodeField 8 2 msgID" 2 "[]"]
      parseFields_bytes_field [of 8 msgID "[]" 2 payload] parseFields_empty_end [of 8 2 payload]
    by (cases "msgID = []") (simp_all add: encodeField_def Let_def encodeVarint_def)
  have "length ?u \<le> (20 + length payload) + (20 + length msgID)"
    using add_mono [OF encodeField_length encodeField_length] by simp
  then have u_len: "length ?u < 2 ^ 64" using len by simp
  have u_nonempty: "?u \<noteq> []" by (simp add: encodeField_def encodeVarint_def Let_def)
  show ?thesis
    using parseFields_varint_field [of 1 2 0 "encodeField 2 2 ?u" "[]"]
      parseFields_bytes_field [of 2 ?u "[]" 2 "[]"] u_len u_nonempty inner
    by (simp add: DecodeDataPacket_def EncodeDataPacket_def parseFields_def Let_def)
qed

lemma packet_inside:
  assumes "DecodeDataPacket raw = (data, True)"
  shows "data \<noteq> []" and "sublist data raw"
proof -
  from assms obtain userData where u: "parseFields_loop 2 raw [] = userData" "userData \<noteq> []"
    "parseFields_loop 2 userData [] = data" "data \<noteq> []"
    by (auto simp: DecodeDataPacket_def parseFields_def Let_def split: prod.splits bool.splits)
  then show "data \<noteq> []" by simp
  have "sublist data userData" using parseFields_loop_inside [of 2 userData "[]"] u(3,4) by auto
  moreover have "sublist userData raw" using parseFields_loop_inside [of 2 raw "[]"] u(1,2) by auto
  ultimately show "sublist data raw" by (rule sublist_order.order.trans)
qed

section \<open>Properties\<close>

text \<open>A data packet decodes to the payload it was made of, whatever the message identifier, except
  that an empty payload comes back as no packet at all; and whatever bytes arrive, what decoding
  yields is never empty and is a stretch of them.\<close>

lemma jazz_packet_roundtrip:
  "(length payload + length msgID < 2 ^ 63 \<longrightarrow>
      DecodeDataPacket (EncodeDataPacket msgID payload) = (payload, payload \<noteq> []))
   \<and> (\<forall>data. DecodeDataPacket raw = (data, True) \<longrightarrow> data \<noteq> [] \<and> sublist data raw)"
  using packet_decodes packet_inside by blast

end
