(* ===== verification/Webrtc.thy ===== *)
theory Webrtc
  imports Http
begin

text \<open>
  What the Jazz and Telemost peers share: the state that both \<open>Peer\<close> structs have, and the WebRTC and
  websocket libraries they work with. pion, gorilla and the services behind them are not in the
  repository: they are the record \<open>rtc\<close> of operations on a world \<open>'w\<close>, a parameter. The world also
  holds what the callbacks of the layer above change.
\<close>

datatype pc_role = Subscriber | Publisher
datatype sdp_type = Offer | Answer

datatype pc_state = PC_Unknown | PC_New | PC_Connecting | PC_Connected | PC_Disconnected | PC_Failed | PC_Closed
datatype dc_state = DC_Connecting | DC_Open | DC_Closing | DC_Closed

record ice_server =
  URLs :: "string list"
  Username :: string
  Credential :: string

record ice_candidate =
  ic_Candidate :: string
  ic_SDPMid :: string
  ic_SDPMLineIndex :: u16

text \<open>A transceiver of the publisher with a sender and a track.\<close>

record sent_track =
  st_Mid :: string
  st_ID :: string
  st_audio :: bool

record ('w, 't) rtc =
  rtc_NewPeerConnection :: "pc_role \<Rightarrow> ice_server list \<Rightarrow> 'w \<Rightarrow> go_error option \<times> 'w"
  rtc_AddTrack :: "'t \<Rightarrow> 'w \<Rightarrow> go_error option \<times> 'w"
  rtc_CreateDataChannel :: "string \<Rightarrow> 'w \<Rightarrow> go_error option \<times> 'w"
  rtc_SetConfiguration :: "pc_role \<Rightarrow> ice_server list \<Rightarrow> 'w \<Rightarrow> 'w"
  rtc_SetRemoteDescription :: "pc_role \<Rightarrow> sdp_type \<Rightarrow> string \<Rightarrow> 'w \<Rightarrow> go_error option \<times> 'w"
  rtc_CreateAnswer :: "pc_role \<Rightarrow> 'w \<Rightarrow> (go_error + string) \<times> 'w"
  rtc_CreateOffer :: "pc_role \<Rightarrow> 'w \<Rightarrow> (go_error + string) \<times> 'w"
  rtc_SetLocalDescription :: "pc_role \<Rightarrow> sdp_type \<Rightarrow> string \<Rightarrow> 'w \<Rightarrow> go_error option \<times> 'w"
  rtc_AddICECandidate :: "pc_role \<Rightarrow> ice_candidate \<Rightarrow> 'w \<Rightarrow> 'w"
  rtc_SentTracks :: "'w \<Rightarrow> sent_track list"
  rtc_ClosePC :: "pc_role \<Rightarrow> 'w \<Rightarrow> 'w"
  dc_ReadyState :: "'w \<Rightarrow> dc_state"
  dc_Send :: "bytes \<Rightarrow> 'w \<Rightarrow> go_error option \<times> 'w"
  dc_Close :: "'w \<Rightarrow> 'w"
  dc_BufferedAmount :: "'w \<Rightarrow> u64"
  ws_Dial :: "string \<Rightarrow> 'w \<Rightarrow> go_error option \<times> 'w"
  ws_WriteJSON :: "json \<Rightarrow> 'w \<Rightarrow> go_error option \<times> 'w"
  ws_Ping :: "'w \<Rightarrow> go_error option \<times> 'w"
  ws_Shutdown :: "'w \<Rightarrow> 'w"
  uuid_New :: "'w \<Rightarrow> string \<times> 'w"

text \<open>
  The common fields: whether the pointers are non-nil, the messages handed to \<open>onData\<close>, the
  callbacks (the reconnect callback is told whether it gets a data channel), the one-slot reconnect
  channel, and the flags. \<open>wp_subConn\<close> and \<open>wp_pubConn\<close> say whether the signal channels are closed.
\<close>

record ('w, 't, 'h) wpeer =
  wp_name :: string
  wp_pcSub :: bool
  wp_pcPub :: bool
  wp_dc :: bool
  wp_ws :: bool
  wp_onData :: bool
  wp_app :: "bytes list"
  wp_onReconnect :: "(bool \<Rightarrow> 'w \<Rightarrow> 'w) option"
  wp_shouldReconnect :: "('w \<Rightarrow> bool) option"
  wp_onEnded :: "(string \<Rightarrow> 'w \<Rightarrow> 'w) option"
  wp_reconnectCh :: bool
  wp_closeCh :: bool
  wp_closed :: bool
  wp_reconnecting :: bool
  wp_sendQueue :: "bytes list"
  wp_sendQueueClosed :: bool
  wp_videoTracks :: "'t list"
  wp_onVideoTrack :: "'h option"
  wp_subscriberReady :: bool
  wp_publisherReady :: bool
  wp_subConn :: bool
  wp_pubConn :: bool

definition wpeer_new :: "string \<Rightarrow> bool \<Rightarrow> ('w, 't, 'h) wpeer" where
  "wpeer_new name onData =
     \<lparr>wp_name = name, wp_pcSub = False, wp_pcPub = False, wp_dc = False, wp_ws = False, wp_onData = onData,
      wp_app = [], wp_onReconnect = None, wp_shouldReconnect = None, wp_onEnded = None,
      wp_reconnectCh = False, wp_closeCh = False, wp_closed = False, wp_reconnecting = False,
      wp_sendQueue = [], wp_sendQueueClosed = False, wp_videoTracks = [], wp_onVideoTrack = None,
      wp_subscriberReady = False, wp_publisherReady = False, wp_subConn = False, wp_pubConn = False\<rparr>"

definition sendQueue_cap :: nat where "sendQueue_cap = 5000"

text \<open>How the wait for a channel in \<open>Connect\<close> ends.\<close>

datatype wait_result = Signalled | Timeout | Cancelled go_error

section \<open>Reading messages\<close>

text \<open>
  A message is decoded into a \<open>map[string]any\<close>; a type assertion that fails gives the zero value of
  its type. Of a repeated key the last value counts.
\<close>

definition json_get :: "string \<Rightarrow> (string \<times> json) list \<Rightarrow> json option" where
  "json_get k ms = map_of (rev ms) k"

definition as_string :: "json option \<Rightarrow> string" where
  "as_string v = (case v of Some (JStr s) \<Rightarrow> s | _ \<Rightarrow> [])"

definition as_object :: "json option \<Rightarrow> (string \<times> json) list option" where
  "as_object v = (case v of Some (JObj ms) \<Rightarrow> Some ms | _ \<Rightarrow> None)"

definition as_array :: "json option \<Rightarrow> json list option" where
  "as_array v = (case v of Some (JArr vs) \<Rightarrow> Some vs | _ \<Rightarrow> None)"

definition as_number :: "json option \<Rightarrow> string option" where
  "as_number v = (case v of Some (JNum l) \<Rightarrow> Some l | _ \<Rightarrow> None)"

definition get_string :: "string \<Rightarrow> (string \<times> json) list \<Rightarrow> string" where
  "get_string k ms = as_string (json_get k ms)"

definition get_object :: "string \<Rightarrow> (string \<times> json) list \<Rightarrow> (string \<times> json) list" where
  "get_object k ms = (case as_object (json_get k ms) of Some o' \<Rightarrow> o' | None \<Rightarrow> [])"

definition get_array :: "string \<Rightarrow> (string \<times> json) list \<Rightarrow> json list" where
  "get_array k ms = (case as_array (json_get k ms) of Some vs \<Rightarrow> vs | None \<Rightarrow> [])"

definition object_of :: "json \<Rightarrow> (string \<times> json) list" where
  "object_of v = (case v of JObj ms \<Rightarrow> ms | _ \<Rightarrow> [])"

text \<open>\<open>ReadJSON(&msg)\<close> on what the socket gives: an error, or a value that must be an object or null.\<close>

definition ReadJSON :: "go_error + json \<Rightarrow> (string \<times> json) list option" where
  "ReadJSON r =
     (case r of
        Inr (JObj ms) \<Rightarrow> Some ms
      | Inr JNull \<Rightarrow> Some []
      | _ \<Rightarrow> None)"

section \<open>An instance for examples\<close>

text \<open>The world is what has been sent on the data channel; everything else succeeds and does nothing.\<close>

definition example_rtc :: "(bytes list, unit) rtc" where
  "example_rtc =
     \<lparr>rtc_NewPeerConnection = (\<lambda>_ _ w. (None, w)), rtc_AddTrack = (\<lambda>_ w. (None, w)),
      rtc_CreateDataChannel = (\<lambda>_ w. (None, w)), rtc_SetConfiguration = (\<lambda>_ _ w. w),
      rtc_SetRemoteDescription = (\<lambda>_ _ _ w. (None, w)), rtc_CreateAnswer = (\<lambda>_ w. (Inr ''v=0'', w)),
      rtc_CreateOffer = (\<lambda>_ w. (Inr ''v=0'', w)), rtc_SetLocalDescription = (\<lambda>_ _ _ w. (None, w)),
      rtc_AddICECandidate = (\<lambda>_ _ w. w), rtc_SentTracks = (\<lambda>_. []), rtc_ClosePC = (\<lambda>_ w. w),
      dc_ReadyState = (\<lambda>_. DC_Open), dc_Send = (\<lambda>d w. (None, w @ [d])), dc_Close = (\<lambda>w. w),
      dc_BufferedAmount = (\<lambda>_. 0), ws_Dial = (\<lambda>_ w. (None, w)), ws_WriteJSON = (\<lambda>_ w. (None, w)),
      ws_Ping = (\<lambda>w. (None, w)), ws_Shutdown = (\<lambda>w. w),
      uuid_New = (\<lambda>w. (replicate 36 (CHR ''0''), w))\<rparr>"

end
