(* ===== verification/Jazz_Peer.thy ===== *)
theory Jazz_Peer
  imports Jazz_Api Jazz_Packet Webrtc
begin

text \<open>
  \<open>internal/provider/jazz/peer.go\<close> over the shared peer state of \<open>Webrtc\<close>. Goroutines are steps: the
  rounds of \<open>processSendQueue\<close>, \<open>handleSignaling\<close> and \<open>WatchConnection\<close> are functions from the state
  to what can happen next.
\<close>

definition maxDataChannelMessageSize :: nat where "maxDataChannelMessageSize = 12288"

definition ErrDataChannelTimeout :: go_error where "ErrDataChannelTimeout = Base ''datachannel timeout''"
definition ErrDataChannelNotReady :: go_error where "ErrDataChannelNotReady = Base ''datachannel not ready''"
definition ErrSendQueueClosed :: go_error where "ErrSendQueueClosed = Base ''send queue closed''"
definition ErrSendQueueTimeout :: go_error where "ErrSendQueueTimeout = Base ''send queue timeout''"
definition jz_ErrSubscriberMediaTimeout :: go_error where
  "jz_ErrSubscriberMediaTimeout = Base ''subscriber media timeout''"

record ('w, 't, 'h) jazz = "('w, 't, 'h) wpeer" +
  jz_roomInfo :: RoomInfo
  jz_groupID :: string
  jz_senders :: nat
  jz_signaling :: bool

definition jz_NewPeer ::
    "'w http \<Rightarrow> string \<Rightarrow> string \<Rightarrow> string \<Rightarrow> bool \<Rightarrow> 'w \<Rightarrow> (go_error + ('w, 't, 'h) jazz) \<times> 'w" where
  "jz_NewPeer h clientID roomID name onData =
     io_bind (jazz_room h clientID roomID) (\<lambda>roomInfo.
     io_return (wpeer.extend (wpeer_new name onData) (jazz.fields roomInfo [] 0 False)))"

section \<open>Reconnect requests and connection states\<close>

definition jz_queueReconnect :: "'w \<Rightarrow> ('w, 't, 'h) jazz \<Rightarrow> ('w, 't, 'h) jazz" where
  "jz_queueReconnect w p =
     (if wp_closed p \<or> wp_reconnecting p then p
      else if (\<exists>fn. wp_shouldReconnect p = Some fn \<and> \<not> fn w) then p
      else p\<lparr>wp_reconnectCh := True\<rparr>)"

definition jz_resetMediaState :: "('w, 't, 'h) jazz \<Rightarrow> ('w, 't, 'h) jazz" where
  "jz_resetMediaState p =
     p\<lparr>wp_subscriberReady := False, wp_publisherReady := False, wp_subConn := False, wp_pubConn := False\<rparr>"

definition jz_onSubscriberConnectionStateChange ::
    "'w \<Rightarrow> pc_state \<Rightarrow> ('w, 't, 'h) jazz \<Rightarrow> ('w, 't, 'h) jazz" where
  "jz_onSubscriberConnectionStateChange w st p =
     (if st = PC_Connected then p\<lparr>wp_subscriberReady := True, wp_subConn := True\<rparr>
      else if st \<in> {PC_Disconnected, PC_Failed}
      then (let p1 = p\<lparr>wp_subscriberReady := False\<rparr> in if wp_closed p1 then p1 else jz_queueReconnect w p1)
      else if st = PC_Closed then p\<lparr>wp_subscriberReady := False\<rparr>
      else p)"

definition jz_onPublisherConnectionStateChange ::
    "'w \<Rightarrow> pc_state \<Rightarrow> ('w, 't, 'h) jazz \<Rightarrow> ('w, 't, 'h) jazz" where
  "jz_onPublisherConnectionStateChange w st p =
     (if st = PC_Connected then p\<lparr>wp_publisherReady := True, wp_pubConn := True\<rparr>
      else if st \<in> {PC_Disconnected, PC_Failed}
      then (let p1 = p\<lparr>wp_publisherReady := False\<rparr> in if wp_closed p1 then p1 else jz_queueReconnect w p1)
      else if st = PC_Closed then p\<lparr>wp_publisherReady := False\<rparr>
      else p)"

text \<open>The handler a remote track is given to, if any.\<close>

definition jz_OnTrack :: "bool \<Rightarrow> ('w, 't, 'h) jazz \<Rightarrow> 'h option" where
  "jz_OnTrack isVideo p = (if isVideo then wp_onVideoTrack p else None)"

section \<open>Connecting\<close>

definition jz_hasLocalVideoTracks :: "('w, 't, 'h) jazz \<Rightarrow> bool" where
  "jz_hasLocalVideoTracks p \<longleftrightarrow> wp_videoTracks p \<noteq> []"

fun jz_attachPendingVideoTracks :: "('w, 't) rtc \<Rightarrow> 't list \<Rightarrow> 'w \<Rightarrow> go_error option \<times> 'w" where
  "jz_attachPendingVideoTracks rtc [] w = (None, w)"
| "jz_attachPendingVideoTracks rtc (track # ts) w =
     (case rtc_AddTrack rtc track w of
        (Some err, w') \<Rightarrow> (Some (Ctx ''failed to add track'' err), w')
      | (None, w') \<Rightarrow> jz_attachPendingVideoTracks rtc ts w')"

definition jz_createPeerConnections ::
    "('w, 't) rtc \<Rightarrow> ('w, 't, 'h) jazz \<times> 'w \<Rightarrow> go_error option \<times> ('w, 't, 'h) jazz \<times> 'w" where
  "jz_createPeerConnections rtc = (\<lambda>(p, w).
     case rtc_NewPeerConnection rtc Subscriber [] w of
       (Some err, w1) \<Rightarrow> (Some (Ctx ''create subscriber pc'' err), p\<lparr>wp_pcSub := False\<rparr>, w1)
     | (None, w1) \<Rightarrow>
         (case rtc_NewPeerConnection rtc Publisher [] w1 of
            (Some err, w2) \<Rightarrow> (Some (Ctx ''create publisher pc'' err), p\<lparr>wp_pcSub := True, wp_pcPub := False\<rparr>, w2)
          | (None, w2) \<Rightarrow> (None, p\<lparr>wp_pcSub := True, wp_pcPub := True\<rparr>, w2)))"

definition jz_createDataChannel ::
    "('w, 't) rtc \<Rightarrow> ('w, 't, 'h) jazz \<times> 'w \<Rightarrow> go_error option \<times> ('w, 't, 'h) jazz \<times> 'w" where
  "jz_createDataChannel rtc = (\<lambda>(p, w).
     case rtc_CreateDataChannel rtc ''_reliable'' w of
       (Some err, w1) \<Rightarrow> (Some (Ctx ''create datachannel'' err), p\<lparr>wp_dc := False\<rparr>, w1)
     | (None, w1) \<Rightarrow> (None, p\<lparr>wp_dc := True\<rparr>, w1))"

definition jz_dialWebSocket ::
    "('w, 't) rtc \<Rightarrow> ('w, 't, 'h) jazz \<times> 'w \<Rightarrow> go_error option \<times> ('w, 't, 'h) jazz \<times> 'w" where
  "jz_dialWebSocket rtc = (\<lambda>(p, w).
     case ws_Dial rtc (ConnectorURL (jz_roomInfo p)) w of
       (Some err, w1) \<Rightarrow> (Some (Ctx ''dial websocket'' err), p, w1)
     | (None, w1) \<Rightarrow> (None, p\<lparr>wp_ws := True\<rparr>, w1))"

definition jz_joinMsg :: "string \<Rightarrow> ('w, 't, 'h) jazz \<Rightarrow> json" where
  "jz_joinMsg requestID p =
     JObj [(''event'', JStr ''join''),
           (''payload'', JObj
              [(''isSilent'', JBool False), (''participantName'', JStr (wp_name p)),
               (''password'', JStr (Password (jz_roomInfo p))),
               (''supportedFeatures'', JObj
                  [(''attachedRooms'', JBool True), (''sessionGroups'', JBool True), (''transcription'', JBool True)])]),
           (''requestId'', JStr requestID), (''roomId'', JStr (RoomID (jz_roomInfo p)))]"

definition jz_sendJoin :: "('w, 't) rtc \<Rightarrow> ('w, 't, 'h) jazz \<Rightarrow> 'w \<Rightarrow> go_error option \<times> 'w" where
  "jz_sendJoin rtc p w =
     (case uuid_New rtc w of (u, w1) \<Rightarrow>
        wrap_op ''write join json'' (ws_WriteJSON rtc (jz_joinMsg u p)) w1)"

definition jz_waitForReady :: "bool \<Rightarrow> wait_result \<Rightarrow> go_error option" where
  "jz_waitForReady hasDc r =
     (case r of
        Signalled \<Rightarrow> None
      | Timeout \<Rightarrow> Some (if hasDc then ErrDataChannelTimeout else jz_ErrSubscriberMediaTimeout)
      | Cancelled err \<Rightarrow> Some (Ctx (if hasDc then ''connect canceled'' else ''connect cancelled'') err))"

text \<open>Running operations that return an error one after the other.\<close>

definition then_do ::
    "('s \<Rightarrow> go_error option \<times> 's) \<Rightarrow> ('s \<Rightarrow> go_error option \<times> 's) \<Rightarrow> 's \<Rightarrow> go_error option \<times> 's" where
  "then_do f g s = (case f s of (Some e, s') \<Rightarrow> (Some e, s') | (None, s') \<Rightarrow> g s')"

text \<open>\<open>Connect\<close>; \<open>wait\<close> is how its last wait ends, for the data channel or for the subscriber.\<close>

definition jz_Connect ::
    "('w, 't) rtc \<Rightarrow> wait_result \<Rightarrow> ('w, 't, 'h) jazz \<times> 'w \<Rightarrow> go_error option \<times> ('w, 't, 'h) jazz \<times> 'w" where
  "jz_Connect rtc wait = (\<lambda>(p, w).
     then_do (jz_createPeerConnections rtc)
     (then_do (\<lambda>(p, w). case jz_attachPendingVideoTracks rtc (wp_videoTracks p) w of (e, w') \<Rightarrow> (e, p, w'))
     (then_do (\<lambda>(p, w). if wp_onData p then jz_createDataChannel rtc (p, w) else (None, p, w))
     (then_do (jz_dialWebSocket rtc)
     (then_do (\<lambda>(p, w). case jz_sendJoin rtc p w of (e, w') \<Rightarrow> (e, p, w'))
     (\<lambda>(p, w). (jz_waitForReady (wp_onData p) wait, p\<lparr>jz_signaling := True\<rparr>, w))))))
     (jz_resetMediaState (p\<lparr>wp_closed := False\<rparr>), w))"

section \<open>Data\<close>

text \<open>The data channel opened: one more sender.\<close>

definition jz_dc_OnOpen :: "('w, 't, 'h) jazz \<Rightarrow> ('w, 't, 'h) jazz" where
  "jz_dc_OnOpen p = p\<lparr>jz_senders := jz_senders p + 1\<rparr>"

definition jz_dc_OnClose :: "'w \<Rightarrow> ('w, 't, 'h) jazz \<Rightarrow> ('w, 't, 'h) jazz" where
  "jz_dc_OnClose w p = (if wp_closed p then p else jz_queueReconnect w p)"

definition jz_handleIncomingMessage :: "bytes \<Rightarrow> ('w, 't, 'h) jazz \<Rightarrow> ('w, 't, 'h) jazz" where
  "jz_handleIncomingMessage data p =
     (case DecodeDataPacket data of
        (_, False) \<Rightarrow> if wp_onData p \<and> data \<noteq> [] then p\<lparr>wp_app := wp_app p @ [data]\<rparr> else p
      | (payload, True) \<Rightarrow> if wp_onData p \<and> payload \<noteq> [] then p\<lparr>wp_app := wp_app p @ [payload]\<rparr> else p)"

text \<open>Messages of the subscriber's data channel, which is listened to when it has the right label.\<close>

definition jz_subscriber_message :: "string \<Rightarrow> bytes \<Rightarrow> ('w, 't, 'h) jazz \<Rightarrow> ('w, 't, 'h) jazz" where
  "jz_subscriber_message label data p =
     (if label = ''_reliable'' \<and> wp_onData p then jz_handleIncomingMessage data p else p)"

text \<open>\<open>Send\<close>: what it can return now; the timeout is possible while the queue is full.\<close>

definition jz_Send ::
    "('w, 't) rtc \<Rightarrow> bytes \<Rightarrow> ('w, 't, 'h) jazz \<times> 'w \<Rightarrow> go_error option \<times> ('w, 't, 'h) jazz \<times> 'w" where
  "jz_Send rtc data = (\<lambda>(p, w).
     if \<not> wp_dc p \<or> dc_ReadyState rtc w \<noteq> DC_Open then (Some ErrDataChannelNotReady, p, w)
     else if wp_sendQueueClosed p then (Some ErrSendQueueClosed, p, w)
     else (case chan_send sendQueue_cap data (wp_sendQueue p) of
             Some q \<Rightarrow> (None, p\<lparr>wp_sendQueue := q\<rparr>, w)
           | None \<Rightarrow> (Some ErrSendQueueTimeout, p, w)))"

text \<open>One message taken from the queue by \<open>processSendQueue\<close>, and whether the loop goes on.\<close>

definition jz_send_one ::
    "('w, 't) rtc \<Rightarrow> bytes \<Rightarrow> ('w, 't, 'h) jazz \<times> 'w \<Rightarrow> bool \<times> ('w, 't, 'h) jazz \<times> 'w" where
  "jz_send_one rtc data = (\<lambda>(p, w).
     if maxDataChannelMessageSize < length data then (True, p, w)
     else (case uuid_New rtc w of (msgID, w1) \<Rightarrow>
          (case dc_Send rtc (EncodeDataPacket (str msgID) data) w1 of
             (Some err, w2) \<Rightarrow> (False, jz_queueReconnect w2 p, w2)
           | (None, w2) \<Rightarrow> (True, p, w2))))"

text \<open>A round of \<open>processSendQueue\<close>: every choice of its \<open>select\<close>. The session channel it also looks at is
  never closed.\<close>

definition jz_processSendQueue ::
    "('w, 't) rtc \<Rightarrow> ('w, 't, 'h) jazz \<times> 'w \<Rightarrow> (bool \<times> ('w, 't, 'h) jazz \<times> 'w) list" where
  "jz_processSendQueue rtc = (\<lambda>(p, w).
     (if wp_closeCh p then [(False, p, w)] else [])
     @ (case chan_recv (wp_sendQueue p) of
          None \<Rightarrow> []
        | Some (data, q) \<Rightarrow> [jz_send_one rtc data (p\<lparr>wp_sendQueue := q\<rparr>, w)]))"

section \<open>Signalling\<close>

definition jz_handleJoinResponse :: "(string \<times> json) list \<Rightarrow> ('w, 't, 'h) jazz \<Rightarrow> ('w, 't, 'h) jazz" where
  "jz_handleJoinResponse payload p =
     p\<lparr>jz_groupID := get_string ''groupId'' (get_object ''participantGroup'' payload)\<rparr>"

definition jz_ice_urls :: "json list \<Rightarrow> string list" where
  "jz_ice_urls urls = concat (map (\<lambda>u. case u of JStr s \<Rightarrow> if s \<noteq> [] then [s] else [] | _ \<Rightarrow> []) urls)"

definition jz_ice_servers :: "(string \<times> json) list \<Rightarrow> ice_server list" where
  "jz_ice_servers payload =
     concat (map (\<lambda>s.
       let server = object_of s; urlStrs = jz_ice_urls (get_array ''urls'' server) in
       if urlStrs \<noteq> []
       then [\<lparr>URLs = urlStrs, Username = get_string ''username'' server, Credential = get_string ''credential'' server\<rparr>]
       else [])
       (get_array ''iceServers'' (get_object ''configuration'' payload)))"

definition jz_handleRTCConfig :: "('w, 't) rtc \<Rightarrow> (string \<times> json) list \<Rightarrow> 'w \<Rightarrow> 'w" where
  "jz_handleRTCConfig rtc payload w =
     (let iceServers = jz_ice_servers payload in
      if iceServers \<noteq> []
      then rtc_SetConfiguration rtc Publisher iceServers (rtc_SetConfiguration rtc Subscriber iceServers w)
      else w)"

definition jz_media_in :: "string \<Rightarrow> string \<Rightarrow> string \<Rightarrow> string \<Rightarrow> ('w, 't, 'h) jazz \<Rightarrow> json" where
  "jz_media_in requestID method type sdp p =
     JObj [(''event'', JStr ''media-in''), (''groupId'', JStr (jz_groupID p)),
           (''payload'', JObj
              [(''description'', JObj [(''sdp'', JStr sdp), (''type'', JStr type)]), (''method'', JStr method)]),
           (''requestId'', JStr requestID), (''roomId'', JStr (RoomID (jz_roomInfo p)))]"

definition jz_write_media_in ::
    "('w, 't) rtc \<Rightarrow> string \<Rightarrow> string \<Rightarrow> string \<Rightarrow> ('w, 't, 'h) jazz \<Rightarrow> 'w \<Rightarrow> 'w" where
  "jz_write_media_in rtc method type sdp p w =
     (case uuid_New rtc w of (u, w1) \<Rightarrow> snd (ws_WriteJSON rtc (jz_media_in u method type sdp p) w1))"

definition jz_sendPublisherOffer :: "('w, 't) rtc \<Rightarrow> ('w, 't, 'h) jazz \<Rightarrow> 'w \<Rightarrow> 'w" where
  "jz_sendPublisherOffer rtc p w =
     (case rtc_CreateOffer rtc Publisher w of
        (Inl err, w1) \<Rightarrow> w1
      | (Inr sdp, w1) \<Rightarrow>
          (case rtc_SetLocalDescription rtc Publisher Offer sdp w1 of
             (Some err, w2) \<Rightarrow> w2
           | (None, w2) \<Rightarrow> jz_write_media_in rtc ''rtc:offer'' ''offer'' sdp p w2))"

definition jz_handleSubscriberOffer ::
    "('w, 't) rtc \<Rightarrow> (string \<times> json) list \<Rightarrow> ('w, 't, 'h) jazz \<Rightarrow> 'w \<Rightarrow> 'w" where
  "jz_handleSubscriberOffer rtc payload p w =
     (let sdp = get_string ''sdp'' (get_object ''description'' payload) in
      case rtc_SetRemoteDescription rtc Subscriber Offer sdp w of
        (Some err, w1) \<Rightarrow> w1
      | (None, w1) \<Rightarrow>
      (case rtc_CreateAnswer rtc Subscriber w1 of
         (Inl err, w2) \<Rightarrow> w2
       | (Inr answer, w2) \<Rightarrow>
      (case rtc_SetLocalDescription rtc Subscriber Answer answer w2 of
         (Some err, w3) \<Rightarrow> w3
       | (None, w3) \<Rightarrow> jz_sendPublisherOffer rtc p (jz_write_media_in rtc ''rtc:answer'' ''answer'' answer p w3))))"

definition jz_handlePublisherAnswer :: "('w, 't) rtc \<Rightarrow> (string \<times> json) list \<Rightarrow> 'w \<Rightarrow> 'w" where
  "jz_handlePublisherAnswer rtc payload w =
     snd (rtc_SetRemoteDescription rtc Publisher Answer (get_string ''sdp'' (get_object ''description'' payload)) w)"

text \<open>\<open>to_u16\<close> is the conversion of a JSON number to \<open>uint16\<close> through \<open>float64\<close>, which Go leaves open for
  values out of range; a missing number is zero.\<close>

definition jz_candidate :: "(string \<Rightarrow> u16) \<Rightarrow> (string \<times> json) list \<Rightarrow> ice_candidate" where
  "jz_candidate to_u16 cand =
     \<lparr>ic_Candidate = get_string ''candidate'' cand, ic_SDPMid = get_string ''sdpMid'' cand,
      ic_SDPMLineIndex = (case as_number (json_get ''sdpMLineIndex'' cand) of None \<Rightarrow> 0 | Some l \<Rightarrow> to_u16 l)\<rparr>"

definition jz_handleICE ::
    "('w, 't) rtc \<Rightarrow> (string \<Rightarrow> u16) \<Rightarrow> (string \<times> json) list \<Rightarrow> 'w \<Rightarrow> 'w" where
  "jz_handleICE rtc to_u16 payload w =
     fold (\<lambda>c w.
       let cand = object_of c; target = get_string ''target'' cand in
       if target = ''SUBSCRIBER'' then rtc_AddICECandidate rtc Subscriber (jz_candidate to_u16 cand) w
       else if target = ''PUBLISHER'' then rtc_AddICECandidate rtc Publisher (jz_candidate to_u16 cand) w
       else w)
       (get_array ''rtcIceCandidates'' payload) w"

definition jz_handleMediaOut ::
    "('w, 't) rtc \<Rightarrow> (string \<Rightarrow> u16) \<Rightarrow> (string \<times> json) list \<Rightarrow> ('w, 't, 'h) jazz \<Rightarrow> 'w \<Rightarrow> 'w" where
  "jz_handleMediaOut rtc to_u16 payload p w =
     (let method = get_string ''method'' payload in
      if method = ''rtc:config'' then jz_handleRTCConfig rtc payload w
      else if method = ''rtc:join'' then w
      else if method = ''rtc:offer'' then jz_handleSubscriberOffer rtc payload p w
      else if method = ''rtc:answer'' then jz_handlePublisherAnswer rtc payload w
      else if method = ''rtc:ice'' then jz_handleICE rtc to_u16 payload w
      else w)"

text \<open>A round of \<open>handleSignaling\<close>; the flag says that the loop goes on.\<close>

definition jz_handleSignaling ::
    "('w, 't) rtc \<Rightarrow> (string \<Rightarrow> u16) \<Rightarrow> go_error + json \<Rightarrow> ('w, 't, 'h) jazz \<times> 'w \<Rightarrow>
     bool \<times> ('w, 't, 'h) jazz \<times> 'w" where
  "jz_handleSignaling rtc to_u16 r = (\<lambda>(p, w).
     case ReadJSON r of
       None \<Rightarrow> (False, (if wp_closed p then p else jz_queueReconnect w p)\<lparr>jz_signaling := False\<rparr>, w)
     | Some msg \<Rightarrow>
         (let event = get_string ''event'' msg; payload = get_object ''payload'' msg in
          if event = ''join-response'' then (True, jz_handleJoinResponse payload p, w)
          else if event = ''media-out'' then (True, p, jz_handleMediaOut rtc to_u16 payload p w)
          else (True, p, w)))"

section \<open>Closing and the rest of the interface\<close>

text \<open>\<open>Close\<close>: closing the closed \<open>closeCh\<close> panics (\<open>None\<close>).\<close>

definition jz_Close ::
    "('w, 't) rtc \<Rightarrow> ('w, 't, 'h) jazz \<times> 'w \<Rightarrow> (('w, 't, 'h) jazz \<times> 'w) option" where
  "jz_Close rtc = (\<lambda>(p, w).
     if wp_closeCh p then None
     else Some (let w1 = (if wp_dc p then dc_Close rtc w else w);
                    w2 = (if wp_pcPub p then rtc_ClosePC rtc Publisher w1 else w1);
                    w3 = (if wp_pcSub p then rtc_ClosePC rtc Subscriber w2 else w2);
                    w4 = (if wp_ws p then ws_Shutdown rtc w3 else w3)
                in (p\<lparr>wp_closed := True, wp_sendQueueClosed := True, wp_closeCh := True\<rparr>, w4)))"

definition jz_AddVideoTrack ::
    "('w, 't) rtc \<Rightarrow> 't \<Rightarrow> ('w, 't, 'h) jazz \<times> 'w \<Rightarrow> go_error option \<times> ('w, 't, 'h) jazz \<times> 'w" where
  "jz_AddVideoTrack rtc track = (\<lambda>(p, w).
     let p1 = p\<lparr>wp_videoTracks := wp_videoTracks p @ [track]\<rparr> in
     if \<not> wp_pcPub p1 then (None, p1, w)
     else (case rtc_AddTrack rtc track w of
             (Some err, w') \<Rightarrow> (Some (Ctx ''failed to add track'' err), p1, w')
           | (None, w') \<Rightarrow> (None, p1, w')))"

definition jz_SetVideoTrackHandler :: "'h option \<Rightarrow> ('w, 't, 'h) jazz \<Rightarrow> ('w, 't, 'h) jazz" where
  "jz_SetVideoTrackHandler cb p = p\<lparr>wp_onVideoTrack := cb\<rparr>"

definition jz_SetReconnectCallback :: "(bool \<Rightarrow> 'w \<Rightarrow> 'w) option \<Rightarrow> ('w, 't, 'h) jazz \<Rightarrow> ('w, 't, 'h) jazz" where
  "jz_SetReconnectCallback cb p = p\<lparr>wp_onReconnect := cb\<rparr>"

definition jz_SetShouldReconnect :: "('w \<Rightarrow> bool) option \<Rightarrow> ('w, 't, 'h) jazz \<Rightarrow> ('w, 't, 'h) jazz" where
  "jz_SetShouldReconnect fn p = p\<lparr>wp_shouldReconnect := fn\<rparr>"

definition jz_SetEndedCallback :: "(string \<Rightarrow> 'w \<Rightarrow> 'w) option \<Rightarrow> ('w, 't, 'h) jazz \<Rightarrow> ('w, 't, 'h) jazz" where
  "jz_SetEndedCallback cb p = p\<lparr>wp_onEnded := cb\<rparr>"

text \<open>A round of \<open>WatchConnection\<close>: every choice of its \<open>select\<close>. A request to reconnect is taken from
  the channel and nothing else.\<close>

definition jz_WatchConnection :: "bool \<Rightarrow> ('w, 't, 'h) jazz \<Rightarrow> (bool \<times> ('w, 't, 'h) jazz) list" where
  "jz_WatchConnection finished p =
     (if finished \<or> wp_closeCh p then [(False, p)] else [])
     @ (if wp_reconnectCh p then [(True, p\<lparr>wp_reconnectCh := False\<rparr>)] else [])"

definition jz_CanSend :: "('w, 't) rtc \<Rightarrow> ('w, 't, 'h) jazz \<times> 'w \<Rightarrow> bool" where
  "jz_CanSend rtc = (\<lambda>(p, w).
     if \<not> wp_onData p
     then (if jz_hasLocalVideoTracks p then \<not> wp_closed p \<and> wp_subscriberReady p \<and> wp_publisherReady p
           else \<not> wp_closed p \<and> wp_subscriberReady p)
     else if \<not> wp_dc p \<or> dc_ReadyState rtc w \<noteq> DC_Open then False
     else length (wp_sendQueue p) < 4000)"

definition jz_GetSendQueue :: "('w, 't, 'h) jazz \<Rightarrow> bytes list" where
  "jz_GetSendQueue p = wp_sendQueue p"

definition jz_GetBufferedAmount :: "('w, 't) rtc \<Rightarrow> ('w, 't, 'h) jazz \<times> 'w \<Rightarrow> u64" where
  "jz_GetBufferedAmount rtc = (\<lambda>(p, w). if wp_dc p then dc_BufferedAmount rtc w else 0)"

section \<open>The data path\<close>

text \<open>
  An ordered, reliable data channel, as \<open>Ordered: true\<close> asks for: what is sent is appended to what the
  other side will be given, and nothing else changes that. A UUID has 36 characters.
\<close>

definition ordered_channel :: "('w, 't) rtc \<Rightarrow> ('w \<Rightarrow> bytes list) \<Rightarrow> bool" where
  "ordered_channel rtc wire \<longleftrightarrow>
     (\<forall>d w. fst (dc_Send rtc d w) = None \<and> wire (snd (dc_Send rtc d w)) = wire w @ [d])
     \<and> (\<forall>w. length (fst (uuid_New rtc w)) = 36 \<and> wire (snd (uuid_New rtc w)) = wire w)"

text \<open>\<open>n\<close> rounds of a sender, each taking a message.\<close>

primrec jz_drain :: "('w, 't) rtc \<Rightarrow> nat \<Rightarrow> ('w, 't, 'h) jazz \<times> 'w \<Rightarrow> ('w, 't, 'h) jazz \<times> 'w" where
  "jz_drain rtc 0 s = s"
| "jz_drain rtc (Suc n) s = jz_drain rtc n (snd (last (jz_processSendQueue rtc s)))"

text \<open>What the receiver's \<open>onData\<close> gets for a message: the message, or for an empty one the raw packet.\<close>

definition received_as :: "bytes \<Rightarrow> bytes \<Rightarrow> bool" where
  "received_as m out \<longleftrightarrow>
     (if m = [] then \<exists>msgID. out = EncodeDataPacket msgID [] \<and> length msgID = 36 else out = m)"

definition packet_of :: "bytes \<Rightarrow> bytes \<Rightarrow> bool" where
  "packet_of m pkt \<longleftrightarrow> (\<exists>msgID. pkt = EncodeDataPacket msgID m \<and> length msgID = 36)"

lemma EncodeDataPacket_nonempty: "EncodeDataPacket msgID m \<noteq> []"
  by (simp add: EncodeDataPacket_def encodeField_def encodeVarint_def Let_def)

lemma receive_packet:
  assumes "packet_of m pkt" and "length m \<le> maxDataChannelMessageSize" and "wp_onData q"
  shows "\<exists>out. wp_app (jz_handleIncomingMessage pkt q) = wp_app q @ [out] \<and> received_as m out
     \<and> wp_onData (jz_handleIncomingMessage pkt q)"
proof -
  obtain msgID where pkt: "pkt = EncodeDataPacket msgID m" "length msgID = 36"
    using assms(1) by (auto simp: packet_of_def)
  then have "DecodeDataPacket pkt = (m, m \<noteq> [])"
    using assms(2) by (simp add: packet_decodes maxDataChannelMessageSize_def)
  then show ?thesis
    using pkt assms(3) EncodeDataPacket_nonempty [of msgID m]
    by (cases "m = []") (auto simp: jz_handleIncomingMessage_def received_as_def)
qed

lemma receive_packets:
  assumes "list_all2 packet_of ms pkts" and "list_all (\<lambda>m. length m \<le> maxDataChannelMessageSize) ms"
    and "wp_onData q"
  shows "\<exists>outs. wp_app (fold jz_handleIncomingMessage pkts q) = wp_app q @ outs \<and> list_all2 received_as ms outs"
  using assms
proof (induction ms pkts arbitrary: q rule: list_all2_induct)
  case (Cons m ms pkt pkts)
  obtain out where o': "wp_app (jz_handleIncomingMessage pkt q) = wp_app q @ [out]" "received_as m out"
    "wp_onData (jz_handleIncomingMessage pkt q)"
    using receive_packet [OF Cons.hyps(1) _ Cons.prems(2)] Cons.prems(1) by auto
  obtain outs where "wp_app (fold jz_handleIncomingMessage pkts (jz_handleIncomingMessage pkt q))
      = wp_app (jz_handleIncomingMessage pkt q) @ outs" "list_all2 received_as ms outs"
    using Cons.IH [OF _ o'(3)] Cons.prems(1) by auto
  with o' show ?case by (intro exI [of _ "out # outs"]) simp
qed simp

lemma drain_wire:
  assumes "ordered_channel rtc wire"
  shows "\<exists>pkts. wire (snd (jz_drain rtc (length (wp_sendQueue p)) (p, w))) = wire w @ pkts
     \<and> list_all2 packet_of (filter (\<lambda>m. length m \<le> maxDataChannelMessageSize) (wp_sendQueue p)) pkts"
proof (induction "wp_sendQueue p" arbitrary: p w)
  case (Cons m q)
  let ?p = "p\<lparr>wp_sendQueue := q\<rparr>"
  obtain p1 w1 where one: "snd (jz_send_one rtc m (?p, w)) = (p1, w1)" by fastforce
  have q: "wp_sendQueue p1 = q" and w1: "\<exists>pkt. wire w1 = wire w @ (if length m \<le> maxDataChannelMessageSize then [pkt] else []) \<and> packet_of m pkt"
  proof -
    obtain msgID v where u: "uuid_New rtc w = (msgID, v)" by fastforce
    then have "length msgID = 36" "wire v = wire w"
      using assms by (auto simp: ordered_channel_def dest: spec [of _ w])
    moreover obtain v' where s: "dc_Send rtc (EncodeDataPacket (str msgID) m) v = (None, v')"
      "wire v' = wire v @ [EncodeDataPacket (str msgID) m]"
      using assms by (cases "dc_Send rtc (EncodeDataPacket (str msgID) m) v")
        (auto simp: ordered_channel_def dest!: spec2 [of _ "EncodeDataPacket (str msgID) m" v])
    ultimately show "wp_sendQueue p1 = q"
      and "\<exists>pkt. wire w1 = wire w @ (if length m \<le> maxDataChannelMessageSize then [pkt] else []) \<and> packet_of m pkt"
      using one u by (auto simp: jz_send_one_def packet_of_def split: if_splits
          intro!: exI [of _ "EncodeDataPacket (str msgID) m"] exI [of _ "str msgID"])
  qed
  have step: "jz_drain rtc (length (wp_sendQueue p)) (p, w) = jz_drain rtc (length (wp_sendQueue p1)) (p1, w1)"
    using one q Cons.hyps(2) [symmetric] by (simp add: jz_processSendQueue_def)
  obtain pkt where pkt: "wire w1 = wire w @ (if length m \<le> maxDataChannelMessageSize then [pkt] else [])"
    "packet_of m pkt" using w1 by blast
  obtain pkts where "wire (snd (jz_drain rtc (length (wp_sendQueue p1)) (p1, w1))) = wire w1 @ pkts"
    "list_all2 packet_of (filter (\<lambda>m. length m \<le> maxDataChannelMessageSize) (wp_sendQueue p1)) pkts"
    using Cons.hyps(1) [OF q [symmetric]] by blast
  with pkt step q show ?case
    unfolding Cons.hyps(2) [symmetric]
    by (intro exI [of _ "(if length m \<le> maxDataChannelMessageSize then [pkt] else []) @ pkts"]) auto
qed simp

lemma jazz_drained:
  assumes "ordered_channel rtc wire" and "wire w = []" and "wp_onData q"
  shows "\<exists>outs. wp_app (fold jz_handleIncomingMessage
        (wire (snd (jz_drain rtc (length (wp_sendQueue p)) (p, w)))) q) = wp_app q @ outs
     \<and> list_all2 received_as (filter (\<lambda>m. length m \<le> 12288) (wp_sendQueue p)) outs"
proof -
  obtain pkts where "wire (snd (jz_drain rtc (length (wp_sendQueue p)) (p, w))) = pkts"
    "list_all2 packet_of (filter (\<lambda>m. length m \<le> maxDataChannelMessageSize) (wp_sendQueue p)) pkts"
    using drain_wire [OF assms(1), of p w] assms(2) by auto
  moreover have "list_all (\<lambda>m. length m \<le> maxDataChannelMessageSize)
      (filter (\<lambda>m. length m \<le> maxDataChannelMessageSize) (wp_sendQueue p))"
    by (simp add: list_all_iff)
  ultimately show ?thesis
    using receive_packets [OF _ _ assms(3)] by (auto simp: maxDataChannelMessageSize_def)
qed

section \<open>Properties\<close>

text \<open>C14: what was queued arrives: over an ordered data channel the receiver's application is handed the
  queued messages in order and unchanged, except that a message above 12288 bytes is dropped
  although \<open>Send\<close> accepted it, and that an empty message arrives as the bytes of its packet.\<close>

theorem jazz_data_path:
  assumes "ordered_channel rtc wire" and "wire w = []" and "wp_onData q"
  shows "\<exists>outs. wp_app (fold jz_handleIncomingMessage
        (wire (snd (jz_drain rtc (length (wp_sendQueue p)) (p, w)))) q) = wp_app q @ outs
     \<and> list_all2 received_as (filter (\<lambda>m. length m \<le> 12288) (wp_sendQueue p)) outs"
  by (rule jazz_drained [OF assms])

section \<open>Witness\<close>

lemma example_channel: "ordered_channel example_rtc (\<lambda>w. w)"
  by (simp add: ordered_channel_def example_rtc_def)

definition example_jazz :: "bytes list \<Rightarrow> (bytes list, unit, unit) jazz" where
  "example_jazz queue =
     wpeer.extend ((wpeer_new ''me'' True)\<lparr>wp_sendQueue := queue\<rparr>)
       (jazz.fields \<lparr>RoomID = ''r1'', Password = ''p1'', ConnectorURL = ''wss://c''\<rparr> [] 0 False)"

lemma example_jazz_fields [simp]:
  "wp_sendQueue (example_jazz queue) = queue" "wp_app (example_jazz queue) = []" "wp_onData (example_jazz queue)"
  by (simp_all add: example_jazz_def wpeer.defs jazz.defs wpeer_new_def)

theorem jazz_data_path_witness:
  "wp_app (fold jz_handleIncomingMessage
      (snd (jz_drain example_rtc 3 (example_jazz [[1, 2], replicate 12289 0, [3]], []))) (example_jazz []))
    = [[1, 2], [3]]"
proof -
  let ?p = "example_jazz [[1, 2], replicate 12289 0, [3]]"
  obtain outs where o': "wp_app (fold jz_handleIncomingMessage
        (snd (jz_drain example_rtc (length (wp_sendQueue ?p)) (?p, []))) (example_jazz [])) = wp_app (example_jazz []) @ outs"
    "list_all2 received_as (filter (\<lambda>m. length m \<le> 12288) (wp_sendQueue ?p)) outs"
    using jazz_data_path [OF example_channel, of "[]" "example_jazz []" ?p] by auto
  have "outs = [[1, 2], [3]]"
    using o'(2) by (auto simp: list_all2_Cons1 received_as_def)
  moreover have "length (wp_sendQueue ?p) = 3" by simp
  ultimately show ?thesis using o'(1) by (simp only:) simp
qed

end
