(* ===== verification/Mux_Jazz.thy ===== *)
theory Mux_Jazz
  imports Client Jazz_Peer
begin

text \<open>
  The encrypted byte stream over the data channel of Jazz, where two components disagree on the size of
  a message: \<open>muxconn\<close> sends every write of smux as one message, smux is configured for frames of 32768
  bytes, and the sender of the Jazz peer drops what is longer than 12288 bytes. Nothing in between cuts
  messages: the limit a transport reports in its features is read by no one.
\<close>

lemma received_nonempty:
  "list_all2 received_as ms outs \<Longrightarrow> \<forall>m \<in> set ms. m \<noteq> [] \<Longrightarrow> outs = ms"
  by (induction rule: list_all2_induct) (simp_all add: received_as_def)

text \<open>What the peer's connection has in its buffer, after its peer object has handed it everything.\<close>

definition jazz_stream ::
    "aead \<Rightarrow> ('w, 't) rtc \<Rightarrow> ('w \<Rightarrow> bytes list) \<Rightarrow> ('w, 't, 'h) jazz \<Rightarrow> 'w \<Rightarrow> ('w, 't, 'h) jazz \<Rightarrow> bytes" where
  "jazz_stream cipher rtc wire sender w receiver =
     mx_buf (fold (Push cipher)
       (wp_app (fold jz_handleIncomingMessage
          (wire (snd (jz_drain rtc (length (wp_sendQueue sender)) (sender, w)))) receiver))
       mux_New)"

definition sealed_writes :: "aead \<Rightarrow> (bytes \<times> bytes) list \<Rightarrow> bytes list" where
  "sealed_writes cipher ws = map (\<lambda>(nonce, p). seal_with cipher nonce p) ws"

lemma opened_sealed:
  assumes "aead_laws cipher" and "\<forall>(nonce, p) \<in> set ws. length nonce = NonceSize cipher"
  shows "plaintexts cipher (sealed_writes cipher ws) = map snd ws"
proof -
  have "map (opened cipher) (sealed_writes cipher ws) = map Some (map snd ws)"
    using assms by (auto simp: sealed_writes_def opened_def Decrypt_seal)
  then show ?thesis by (rule plaintexts_all)
qed

lemma filter_sealed:
  "filter (\<lambda>m. length m \<le> n) (sealed_writes cipher ws)
     = sealed_writes cipher (filter (\<lambda>(nonce, p). length (seal_with cipher nonce p) \<le> n) ws)"
  by (induction ws) (auto simp: sealed_writes_def)

text \<open>ChaCha20-Poly1305 with 24-byte nonces adds 40 bytes, so writes of 12248 bytes are the longest to
  pass.\<close>

definition xchacha_sized :: "aead \<Rightarrow> bool" where
  "xchacha_sized cipher \<longleftrightarrow> NonceSize cipher = 24
     \<and> (\<forall>nonce p. length (Seal cipher nonce p) = length p + 16)"

lemma full_frame_dropped:
  assumes "xchacha_sized cipher" and "length nonce = 24" and "12248 < length frame"
  shows "jz_send_one rtc (seal_with cipher nonce frame) (p, w) = (True, p, w)"
  using assms by (simp add: jz_send_one_def xchacha_sized_def seal_with_def maxDataChannelMessageSize_def)

lemma smux_frames_can_be_dropped:
  assumes "xchacha_sized cipher" and "length nonce = 24"
    and "int (length frame) = MaxFrameSize (client_smuxConfig def)"
  shows "jz_send_one rtc (seal_with cipher nonce frame) (p, w) = (True, p, w)"
  by (rule full_frame_dropped) (use assms in \<open>simp_all add: client_smuxConfig_def\<close>)

section \<open>Properties\<close>

text \<open>C13: over the data channel of Jazz the encrypted connection is a byte pipe for writes whose message is
  at most 12288 bytes: these, and only these, arrive, in order; a longer one is left out of the stream
  although its write has succeeded.\<close>

theorem mux_over_jazz:
  assumes "aead_laws cipher" and "0 < NonceSize cipher"
    and "\<forall>(nonce, p) \<in> set ws. length nonce = NonceSize cipher"
    and "ordered_channel rtc wire" and "wire w = []" and "wp_onData receiver" and "wp_app receiver = []"
    and "wp_sendQueue sender = sealed_writes cipher ws"
  shows "jazz_stream cipher rtc wire sender w receiver
     = concat (map snd (filter (\<lambda>(nonce, p). length (seal_with cipher nonce p) \<le> 12288) ws))"
proof -
  let ?short = "filter (\<lambda>(nonce, p). length (seal_with cipher nonce p) \<le> 12288) ws"
  obtain outs where outs: "wp_app (fold jz_handleIncomingMessage
        (wire (snd (jz_drain rtc (length (wp_sendQueue sender)) (sender, w)))) receiver) = outs"
    "list_all2 received_as (filter (\<lambda>m. length m \<le> 12288) (sealed_writes cipher ws)) outs"
    using jazz_drained [OF assms(4-6), of sender] assms(7,8) by auto
  have "\<forall>m \<in> set (sealed_writes cipher ?short). m \<noteq> []"
    using assms(2,3) by (auto simp: sealed_writes_def seal_with_def)
  with received_nonempty [OF outs(2)] have "outs = sealed_writes cipher ?short" by (simp add: filter_sealed)
  moreover have "plaintexts cipher (sealed_writes cipher ?short) = map snd ?short"
    by (rule opened_sealed [OF assms(1)]) (use assms(3) in auto)
  ultimately show ?thesis
    using fold_Push [of mux_New cipher outs] by (simp add: jazz_stream_def outs(1) mux_New_def)
qed

theorem mux_over_jazz_witness:
  "jazz_stream (toy_aead [9]) example_rtc (\<lambda>w. w)
     (example_jazz (sealed_writes (toy_aead [9]) [([1, 2], [5]), ([1, 2], replicate 12300 0), ([3, 4], [6, 7])])) []
     (example_jazz []) = [5, 6, 7]"
proof -
  let ?ws = "[([1, 2], [5]), ([1, 2], replicate 12300 0), ([3, 4], [6, 7 :: byte])]"
  have "0 < NonceSize (toy_aead [9])" "\<forall>(nonce, p) \<in> set ?ws. length nonce = NonceSize (toy_aead [9])"
    by (simp_all add: toy_aead_def)
  from mux_over_jazz [OF toy_aead_laws this example_channel refl, of "example_jazz []" "example_jazz (sealed_writes (toy_aead [9]) ?ws)"]
  have "jazz_stream (toy_aead [9]) example_rtc (\<lambda>w. w) (example_jazz (sealed_writes (toy_aead [9]) ?ws)) []
      (example_jazz []) = concat (map snd (filter (\<lambda>(nonce, p). length (seal_with (toy_aead [9]) nonce p) \<le> 12288) ?ws))"
    by simp
  also have "\<dots> = [5, 6, 7]" by (simp add: toy_aead_def seal_with_def)
  finally show ?thesis .
qed

end
