(* ===== verification/Wbstream_Api.thy ===== *)
theory Wbstream_Api
  imports Http
begin

text \<open>
  \<open>internal/provider/wbstream/api.go\<close>: the calls that register a guest, create and join a room and
  fetch the token of a room.
\<close>

definition wb_apiBase :: string where "wb_apiBase = ''https://stream.wb.ru''"

definition errGuestRegister :: go_error where "errGuestRegister = Base ''guest register failed''"
definition errCreateRoom :: go_error where "errCreateRoom = Base ''create room failed''"
definition errJoinRoom :: go_error where "errJoinRoom = Base ''join room failed''"
definition errGetToken :: go_error where "errGetToken = Base ''get token failed''"

section \<open>Bodies\<close>

definition guestRegisterRequest :: "string \<Rightarrow> json" where
  "guestRegisterRequest displayName =
     JObj [(''displayName'', JStr displayName),
           (''device'', JObj [(''deviceName'', JStr ''Linux''),
                              (''deviceType'', JStr ''PARTICIPANT_DEVICE_TYPE_WEB_DESKTOP'')])]"

definition createRoomRequest :: json where
  "createRoomRequest =
     JObj [(''roomType'', JStr ''ROOM_TYPE_ALL_ON_SCREEN''), (''roomPrivacy'', JStr ''ROOM_PRIVACY_FREE'')]"

text \<open>Each response has one field that is used; \<open>store_field\<close> is the decoding into it.\<close>

definition store_field :: "string \<Rightarrow> string \<Rightarrow> json \<Rightarrow> string \<Rightarrow> string option" where
  "store_field name k v old = (if EqualFold k name then store_string v old else Some old)"

text \<open>\<open>tokenResponse\<close>: the room token and the server URL, which must be a string though it is not used.\<close>

definition store_token :: "string \<Rightarrow> json \<Rightarrow> string \<times> string \<Rightarrow> (string \<times> string) option" where
  "store_token k v = (\<lambda>(token, url).
     if EqualFold k ''roomToken'' then map_option (\<lambda>x. (x, url)) (store_string v token)
     else if EqualFold k ''serverUrl'' then map_option (\<lambda>x. (token, x)) (store_string v url)
     else Some (token, url))"

section \<open>Calls\<close>

definition content_type :: "string \<times> string" where
  "content_type = (''Content-Type'', ''application/json'')"

definition user_agent :: "string \<times> string" where
  "user_agent = (''User-Agent'', ''Mozilla/5.0 (Linux x86_64)'')"

definition bearer :: "string \<Rightarrow> string \<times> string" where
  "bearer accessToken = (''Authorization'', ''Bearer '' @ accessToken)"

definition wb_registerGuest :: "'w http \<Rightarrow> string \<Rightarrow> 'w \<Rightarrow> (go_error + string) \<times> 'w" where
  "wb_registerGuest h displayName =
     io_bind (send_request h ''create request'' ''do request''
       \<lparr>rq_Method = ''POST'', rq_URL = wb_apiBase @ ''/auth/api/v1/auth/user/guest-register'', rq_Query = [],
        rq_Header = [content_type, user_agent], rq_Body = json_text (guestRegisterRequest displayName)\<rparr>)
     (\<lambda>resp. io_bind (check_status errGuestRegister '': '' [StatusOK] True resp)
     (\<lambda>_. Decode h ''decode response'' (store_field ''accessToken'') [] resp))"

definition wb_createRoom :: "'w http \<Rightarrow> string \<Rightarrow> 'w \<Rightarrow> (go_error + string) \<times> 'w" where
  "wb_createRoom h accessToken =
     io_bind (send_request h ''create request'' ''do request''
       \<lparr>rq_Method = ''POST'', rq_URL = wb_apiBase @ ''/api-room/api/v2/room'', rq_Query = [],
        rq_Header = [content_type, bearer accessToken, user_agent], rq_Body = json_text createRoomRequest\<rparr>)
     (\<lambda>resp. io_bind (check_status errCreateRoom '': '' [StatusOK, StatusCreated] True resp)
     (\<lambda>_. Decode h ''decode response'' (store_field ''roomId'') [] resp))"

text \<open>\<open>CreateRoom\<close>, for making rooms without joining them.\<close>

definition wb_CreateRoom :: "'w http \<Rightarrow> string \<Rightarrow> 'w \<Rightarrow> (go_error + string) \<times> 'w" where
  "wb_CreateRoom h displayName =
     io_bind (io_ctx ''register guest'' (wb_registerGuest h displayName))
     (\<lambda>accessToken. io_ctx ''create room'' (wb_createRoom h accessToken))"

definition wb_joinRoom :: "'w http \<Rightarrow> string \<Rightarrow> string \<Rightarrow> 'w \<Rightarrow> (go_error + unit) \<times> 'w" where
  "wb_joinRoom h accessToken roomID =
     io_bind (send_request h ''create request'' ''do request''
       \<lparr>rq_Method = ''POST'', rq_URL = wb_apiBase @ ''/api-room/api/v1/room/'' @ roomID @ ''/join'', rq_Query = [],
        rq_Header = [content_type, bearer accessToken, user_agent], rq_Body = ''{}''\<rparr>)
     (\<lambda>resp. check_status errJoinRoom '': '' [StatusOK] True resp)"

definition wb_getToken :: "'w http \<Rightarrow> string \<Rightarrow> string \<Rightarrow> string \<Rightarrow> 'w \<Rightarrow> (go_error + string) \<times> 'w" where
  "wb_getToken h accessToken roomID displayName =
     io_bind (send_request h ''create request'' ''do request''
       \<lparr>rq_Method = ''GET'',
        rq_URL = wb_apiBase @ ''/api-room-manager/v2/room/'' @ roomID @ ''/connection-details'',
        rq_Query = [(''deviceType'', ''PARTICIPANT_DEVICE_TYPE_WEB_DESKTOP''), (''displayName'', displayName)],
        rq_Header = [bearer accessToken, user_agent], rq_Body = []\<rparr>)
     (\<lambda>resp. io_bind (check_status errGetToken '': '' [StatusOK] True resp)
     (\<lambda>_. io_bind (Decode h ''decode response'' store_token ([], []) resp)
     (\<lambda>res. io_return (fst res))))"

text \<open>\<open>getRoomToken\<close> of the peer: register, create the room when none is named, join, fetch the token.\<close>

definition wb_getRoomToken :: "'w http \<Rightarrow> string \<Rightarrow> string \<Rightarrow> 'w \<Rightarrow> (go_error + string) \<times> 'w" where
  "wb_getRoomToken h roomURL name =
     io_bind (io_ctx ''register guest'' (wb_registerGuest h name)) (\<lambda>accessToken.
     io_bind (if roomURL = [] \<or> roomURL = ''any''
              then io_ctx ''create room'' (wb_createRoom h accessToken) else io_return roomURL) (\<lambda>roomID.
     io_bind (io_ctx ''join room'' (wb_joinRoom h accessToken roomID)) (\<lambda>_.
     io_ctx ''get token'' (wb_getToken h accessToken roomID name))))"

end
