(* ===== verification/Wbstream_Peer.thy ===== *)
theory Wbstream_Peer
  imports Wbstream_Api Interfaces
begin

text \<open>
  \<open>internal/provider/wbstream/peer.go\<close>. LiveKit's SDK is not in the repository: it is the record
  \<open>livekit\<close>, a parameter that works on the world \<open>'w\<close>. The peer keeps its own fields; messages
  handed to \<open>onData\<close> are collected in \<open>wb_app\<close>.
\<close>

definition wsURL :: string where "wsURL = ''wss://rtc-el-01.wb.ru''"

definition ErrPeerClosed :: go_error where "ErrPeerClosed = Base ''peer closed''"
definition ErrSendQueueFull :: go_error where "ErrSendQueueFull = Base ''send queue full''"
definition ErrLiveKitNotConnected :: go_error where
  "ErrLiveKitNotConnected = Base ''livekit room not connected''"

record ('w, 't) livekit =
  lk_ConnectToRoomWithToken :: "string \<Rightarrow> string \<Rightarrow> 'w \<Rightarrow> go_error option \<times> 'w"
  lk_LocalParticipant :: "'w \<Rightarrow> bool"
  lk_PublishTrack :: "'t \<Rightarrow> 'w \<Rightarrow> go_error option \<times> 'w"
  lk_PublishDataPacket :: "bytes \<Rightarrow> 'w \<Rightarrow> go_error option \<times> 'w"
  lk_TrackPublications :: "'w \<Rightarrow> string list"
  lk_UnpublishTrack :: "string \<Rightarrow> 'w \<Rightarrow> go_error option \<times> 'w"
  lk_Disconnect :: "'w \<Rightarrow> 'w"

record ('u, 'd, 't, 'h) wb =
  wb_roomURL :: string
  wb_name :: string
  wb_room :: bool
  wb_onData :: bool
  wb_app :: "bytes list"
  wb_onReconnect :: "('d \<Rightarrow> 'u \<Rightarrow> 'u) option"
  wb_shouldReconnect :: "('u \<Rightarrow> bool) option"
  wb_onEnded :: "(string \<Rightarrow> 'u \<Rightarrow> 'u) option"
  wb_sendQueue :: "bytes list"
  wb_queueClosed :: bool
  wb_closed :: bool
  wb_done :: bool
  wb_videoTracks :: "'t list"
  wb_onVideoTrack :: "'h option"
  wb_senders :: nat

definition wb_sendQueue_cap :: nat where "wb_sendQueue_cap = 5000"

definition wb_NewPeer :: "string \<Rightarrow> string \<Rightarrow> bool \<Rightarrow> ('u, 'd, 't, 'h) wb" where
  "wb_NewPeer roomURL name onData =
     \<lparr>wb_roomURL = roomURL, wb_name = name, wb_room = False, wb_onData = onData, wb_app = [],
      wb_onReconnect = None, wb_shouldReconnect = None, wb_onEnded = None, wb_sendQueue = [],
      wb_queueClosed = False, wb_closed = False, wb_done = False, wb_videoTracks = [],
      wb_onVideoTrack = None, wb_senders = 0\<rparr>"

section \<open>Connecting\<close>

fun wb_publishPendingTracks :: "('w, 't) livekit \<Rightarrow> 't list \<Rightarrow> 'w \<Rightarrow> go_error option \<times> 'w" where
  "wb_publishPendingTracks lk [] w = (None, w)"
| "wb_publishPendingTracks lk (track # ts) w =
     (case lk_PublishTrack lk track w of
        (Some err, w') \<Rightarrow> (Some (Ctx ''failed to publish track'' err), w')
      | (None, w') \<Rightarrow> wb_publishPendingTracks lk ts w')"

definition wb_Connect ::
    "'w http \<Rightarrow> ('w, 't) livekit \<Rightarrow> ('u, 'd, 't, 'h) wb \<times> 'w \<Rightarrow> go_error option \<times> ('u, 'd, 't, 'h) wb \<times> 'w" where
  "wb_Connect h lk = (\<lambda>(p, w).
     case wb_getRoomToken h (wb_roomURL p) (wb_name p) w of
       (Inl err, w1) \<Rightarrow> (Some (Ctx ''get room token'' err), p, w1)
     | (Inr token, w1) \<Rightarrow>
     (case lk_ConnectToRoomWithToken lk wsURL token w1 of
        (Some err, w2) \<Rightarrow> (Some (Ctx ''connect to room'' err), p, w2)
      | (None, w2) \<Rightarrow>
     (case wb_publishPendingTracks lk (wb_videoTracks p) w2 of
        (Some err, w3) \<Rightarrow> (Some err, p\<lparr>wb_room := True\<rparr>, w3)
      | (None, w3) \<Rightarrow> (None, p\<lparr>wb_room := True, wb_senders := wb_senders p + 1\<rparr>, w3))))"

text \<open>The callbacks of the room.\<close>

definition wb_OnDataReceived :: "bytes \<Rightarrow> ('u, 'd, 't, 'h) wb \<Rightarrow> ('u, 'd, 't, 'h) wb" where
  "wb_OnDataReceived data p = (if wb_onData p then p\<lparr>wb_app := wb_app p @ [data]\<rparr> else p)"

text \<open>The handler a subscribed track is given to, if any.\<close>

definition wb_OnTrackSubscribed :: "bool \<Rightarrow> ('u, 'd, 't, 'h) wb \<Rightarrow> 'h option" where
  "wb_OnTrackSubscribed isVideo p = (if isVideo then wb_onVideoTrack p else None)"

definition wb_OnDisconnected :: "('u, 'd, 't, 'h) wb \<Rightarrow> 'u \<Rightarrow> 'u" where
  "wb_OnDisconnected p u =
     (if wb_closed p then u
      else case wb_onEnded p of None \<Rightarrow> u | Some cb \<Rightarrow> cb ''disconnected from livekit'' u)"

section \<open>Sending\<close>

text \<open>\<open>Send\<close>: the check of the flag, then the send on the channel, which panics (\<open>None\<close>) when the
  channel has been closed in between.\<close>

definition wb_send_check :: "('u, 'd, 't, 'h) wb \<Rightarrow> go_error option" where
  "wb_send_check p = (if wb_closed p then Some ErrPeerClosed else None)"

definition wb_send_put ::
    "bytes \<Rightarrow> ('u, 'd, 't, 'h) wb \<Rightarrow> (go_error option \<times> ('u, 'd, 't, 'h) wb) option" where
  "wb_send_put data p =
     (if wb_queueClosed p then None
      else Some (case chan_send wb_sendQueue_cap data (wb_sendQueue p) of
                   Some q \<Rightarrow> (None, p\<lparr>wb_sendQueue := q\<rparr>)
                 | None \<Rightarrow> (Some ErrSendQueueFull, p)))"

definition wb_Send ::
    "bytes \<Rightarrow> ('u, 'd, 't, 'h) wb \<Rightarrow> (go_error option \<times> ('u, 'd, 't, 'h) wb) option" where
  "wb_Send data p =
     (case wb_send_check p of
        Some err \<Rightarrow> Some (Some err, p)
      | None \<Rightarrow> wb_send_put data p)"

text \<open>One round of \<open>processSendQueue\<close>: whether the loop goes on, for every choice the \<open>select\<close> has; no
  choice is waiting.\<close>

definition wb_processSendQueue ::
    "('w, 't) livekit \<Rightarrow> ('u, 'd, 't, 'h) wb \<times> 'w \<Rightarrow> (bool \<times> ('u, 'd, 't, 'h) wb \<times> 'w) list" where
  "wb_processSendQueue lk = (\<lambda>(p, w).
     (if wb_done p then [(False, p\<lparr>wb_senders := wb_senders p - 1\<rparr>, w)] else [])
     @ (case wb_sendQueue p of
          data # q \<Rightarrow> [(True, p\<lparr>wb_sendQueue := q\<rparr>, snd (lk_PublishDataPacket lk data w))]
        | [] \<Rightarrow> if wb_queueClosed p then [(False, p\<lparr>wb_senders := wb_senders p - 1\<rparr>, w)] else []))"

section \<open>Closing\<close>

definition wb_unpublishLocalTracks :: "('w, 't) livekit \<Rightarrow> ('u, 'd, 't, 'h) wb \<Rightarrow> 'w \<Rightarrow> 'w" where
  "wb_unpublishLocalTracks lk p w =
     (if \<not> wb_room p \<or> \<not> lk_LocalParticipant lk w then w
      else fold (\<lambda>sid w. if sid = [] then w else snd (lk_UnpublishTrack lk sid w)) (lk_TrackPublications lk w) w)"

text \<open>\<open>Close\<close> up to the wait for the sender.\<close>

definition wb_close_begin ::
    "('w, 't) livekit \<Rightarrow> ('u, 'd, 't, 'h) wb \<times> 'w \<Rightarrow> ('u, 'd, 't, 'h) wb \<times> 'w" where
  "wb_close_begin lk = (\<lambda>(p, w).
     if wb_closed p then (p, w)
     else (p\<lparr>wb_closed := True, wb_done := True, wb_queueClosed := True\<rparr>,
           if wb_room p then lk_Disconnect lk (wb_unpublishLocalTracks lk p w) else w))"

definition wb_close_wait :: "('u, 'd, 't, 'h) wb \<Rightarrow> bool" where
  "wb_close_wait p \<longleftrightarrow> wb_senders p = 0"

section \<open>The rest of the interface\<close>

definition wb_SetReconnectCallback :: "('d \<Rightarrow> 'u \<Rightarrow> 'u) option \<Rightarrow> ('u, 'd, 't, 'h) wb \<Rightarrow> ('u, 'd, 't, 'h) wb" where
  "wb_SetReconnectCallback cb p = p\<lparr>wb_onReconnect := cb\<rparr>"

definition wb_SetShouldReconnect :: "('u \<Rightarrow> bool) option \<Rightarrow> ('u, 'd, 't, 'h) wb \<Rightarrow> ('u, 'd, 't, 'h) wb" where
  "wb_SetShouldReconnect fn p = p\<lparr>wb_shouldReconnect := fn\<rparr>"

definition wb_SetEndedCallback ::
    "(string \<Rightarrow> 'u \<Rightarrow> 'u) option \<Rightarrow> ('u, 'd, 't, 'h) wb \<Rightarrow> ('u, 'd, 't, 'h) wb" where
  "wb_SetEndedCallback cb p = p\<lparr>wb_onEnded := cb\<rparr>"

definition wb_WatchConnection :: "('u, 'd, 't, 'h) wb \<Rightarrow> ('u, 'd, 't, 'h) wb" where
  "wb_WatchConnection p = p"

definition wb_CanSend :: "('u, 'd, 't, 'h) wb \<Rightarrow> bool" where
  "wb_CanSend p \<longleftrightarrow> \<not> wb_closed p \<and> wb_room p"

definition wb_GetSendQueue :: "('u, 'd, 't, 'h) wb \<Rightarrow> bytes list" where
  "wb_GetSendQueue p = wb_sendQueue p"

definition wb_GetBufferedAmount :: "('u, 'd, 't, 'h) wb \<Rightarrow> u64" where
  "wb_GetBufferedAmount p = 0"

definition wb_AddVideoTrack ::
    "('w, 't) livekit \<Rightarrow> 't \<Rightarrow> ('u, 'd, 't, 'h) wb \<times> 'w \<Rightarrow> go_error option \<times> ('u, 'd, 't, 'h) wb \<times> 'w" where
  "wb_AddVideoTrack lk track = (\<lambda>(p, w).
     let p1 = p\<lparr>wb_videoTracks := wb_videoTracks p @ [track]\<rparr> in
     if \<not> wb_room p1 \<or> \<not> lk_LocalParticipant lk w then (None, p1, w)
     else (case lk_PublishTrack lk track w of
             (Some err, w') \<Rightarrow> (Some (Ctx ''failed to publish track'' err), p1, w')
           | (None, w') \<Rightarrow> (None, p1, w')))"

definition wb_SetVideoTrackHandler :: "'h option \<Rightarrow> ('u, 'd, 't, 'h) wb \<Rightarrow> ('u, 'd, 't, 'h) wb" where
  "wb_SetVideoTrackHandler cb p = p\<lparr>wb_onVideoTrack := cb\<rparr>"

section \<open>Contracts\<close>

interpretation wb_closing: closable "\<lambda>(p, w). wb_closed p" "wb_close_begin lk" "\<lambda>(p, w). wb_CanSend p"
  "\<lambda>data (p, w). wb_Send data p = Some (Some ErrPeerClosed, p)" for lk :: "('w, 't) livekit"
  by unfold_locales
    (auto simp: wb_close_begin_def wb_CanSend_def wb_Send_def wb_send_check_def split: if_splits prod.splits)

text \<open>
  The system: a peer, its world, the calls of \<open>Send\<close> that are past their check, what was accepted
  and what was published, in order. A panic ends the process.
\<close>

record ('u, 'd, 't, 'h, 'w) wb_sys =
  ws_peer :: "('u, 'd, 't, 'h) wb"
  ws_world :: 'w
  ws_pending :: "bytes list"
  ws_accepted :: "bytes list"
  ws_published :: "bytes list"
  ws_panic :: bool

inductive wb_step ::
    "'w http \<Rightarrow> ('w, 't) livekit \<Rightarrow> ('u, 'd, 't, 'h, 'w) wb_sys \<Rightarrow> ('u, 'd, 't, 'h, 'w) wb_sys \<Rightarrow> bool"
  for h lk where
  Connect: "\<not> ws_panic s \<Longrightarrow> wb_Connect h lk (ws_peer s, ws_world s) = (r, p, w) \<Longrightarrow>
     wb_step h lk s (s\<lparr>ws_peer := p, ws_world := w\<rparr>)"
| Check: "\<not> ws_panic s \<Longrightarrow> wb_send_check (ws_peer s) = None \<Longrightarrow>
     wb_step h lk s (s\<lparr>ws_pending := data # ws_pending s\<rparr>)"
| Put: "\<not> ws_panic s \<Longrightarrow> data \<in> set (ws_pending s) \<Longrightarrow> wb_send_put data (ws_peer s) = Some (r, p) \<Longrightarrow>
     wb_step h lk s (s\<lparr>ws_peer := p, ws_pending := remove1 data (ws_pending s),
       ws_accepted := ws_accepted s @ (if r = None then [data] else [])\<rparr>)"
| Panic: "\<not> ws_panic s \<Longrightarrow> data \<in> set (ws_pending s) \<Longrightarrow> wb_send_put data (ws_peer s) = None \<Longrightarrow>
     wb_step h lk s (s\<lparr>ws_panic := True\<rparr>)"
| Round: "\<not> ws_panic s \<Longrightarrow> 0 < wb_senders (ws_peer s) \<Longrightarrow>
     (goes_on, p, w) \<in> set (wb_processSendQueue lk (ws_peer s, ws_world s)) \<Longrightarrow>
     wb_step h lk s (s\<lparr>ws_peer := p, ws_world := w,
       ws_published := ws_published s @ (if goes_on then [hd (wb_sendQueue (ws_peer s))] else [])\<rparr>)"
| Close: "\<not> ws_panic s \<Longrightarrow> wb_close_begin lk (ws_peer s, ws_world s) = (p, w) \<Longrightarrow>
     wb_step h lk s (s\<lparr>ws_peer := p, ws_world := w\<rparr>)"
| Data: "\<not> ws_panic s \<Longrightarrow> wb_step h lk s (s\<lparr>ws_peer := wb_OnDataReceived data (ws_peer s)\<rparr>)"
| Track: "\<not> ws_panic s \<Longrightarrow> wb_AddVideoTrack lk track (ws_peer s, ws_world s) = (r, p, w) \<Longrightarrow>
     wb_step h lk s (s\<lparr>ws_peer := p, ws_world := w\<rparr>)"

definition wb_start :: "string \<Rightarrow> string \<Rightarrow> bool \<Rightarrow> 'w \<Rightarrow> ('u, 'd, 't, 'h, 'w) wb_sys" where
  "wb_start roomURL name onData w =
     \<lparr>ws_peer = wb_NewPeer roomURL name onData, ws_world = w, ws_pending = [], ws_accepted = [],
      ws_published = [], ws_panic = False\<rparr>"

inductive wb_reachable ::
    "'w http \<Rightarrow> ('w, 't) livekit \<Rightarrow> ('u, 'd, 't, 'h, 'w) wb_sys \<Rightarrow> bool" for h lk where
  start: "wb_reachable h lk (wb_start roomURL name onData w)"
| step: "wb_reachable h lk s \<Longrightarrow> wb_step h lk s s' \<Longrightarrow> wb_reachable h lk s'"

definition wb_inv :: "('u, 'd, 't, 'h, 'w) wb_sys \<Rightarrow> bool" where
  "wb_inv s \<longleftrightarrow>
     ws_accepted s = ws_published s @ wb_sendQueue (ws_peer s)
     \<and> length (wb_sendQueue (ws_peer s)) \<le> wb_sendQueue_cap
     \<and> wb_queueClosed (ws_peer s) = wb_closed (ws_peer s) \<and> wb_done (ws_peer s) = wb_closed (ws_peer s)
     \<and> (ws_panic s \<longrightarrow> wb_closed (ws_peer s) \<and> ws_pending s \<noteq> [])"

lemma wb_step_inv: "wb_step h lk s s' \<Longrightarrow> wb_inv s \<Longrightarrow> wb_inv s'"
proof (induction rule: wb_step.induct)
  case (Connect s r p w)
  then show ?case
    by (auto simp: wb_inv_def wb_Connect_def split: prod.splits sum.splits option.splits)
next
  case (Put s data r p)
  then show ?case
    by (auto simp: wb_inv_def wb_send_put_def chan_send_def split: if_splits option.splits)
next
  case (Panic s data)
  then show ?case by (auto simp: wb_inv_def wb_send_put_def split: if_splits)
next
  case (Round s goes_on p w)
  then show ?case
    by (cases "wb_sendQueue (ws_peer s)") (auto simp: wb_inv_def wb_processSendQueue_def split: if_splits)
next
  case (Close s p w)
  then show ?case by (auto simp: wb_inv_def wb_close_begin_def split: if_splits)
next
  case (Track s track r p w)
  then show ?case by (auto simp: wb_inv_def wb_AddVideoTrack_def Let_def split: if_splits prod.splits option.splits)
qed (auto simp: wb_inv_def wb_OnDataReceived_def)

lemma wb_reachable_inv: "wb_reachable h lk s \<Longrightarrow> wb_inv s"
proof (induction rule: wb_reachable.induct)
  case start
  show ?case by (simp add: wb_inv_def wb_start_def wb_NewPeer_def)
qed (rule wb_step_inv)

section \<open>Properties\<close>


text \<open>That panic is within reach: \<open>Send\<close> checks the flag, \<open>Close\<close> closes the channel, \<open>Send\<close> sends on it.\<close>

lemma wb_send_close_panics:
  "\<exists>s :: ('u, 'd, 't, 'h, 'w) wb_sys. wb_reachable h lk s \<and> ws_panic s"
proof -
  fix w :: 'w
  let ?p = "wb_NewPeer [] [] True :: ('u, 'd, 't, 'h) wb"
  define s0 where "s0 = (wb_start [] [] True w :: ('u, 'd, 't, 'h, 'w) wb_sys)"
  define s1 where "s1 = s0\<lparr>ws_pending := [1] # ws_pending s0\<rparr>"
  obtain p v where c: "wb_close_begin lk (ws_peer s1, ws_world s1) = (p, v)" by fastforce
  define s2 where "s2 = s1\<lparr>ws_peer := p, ws_world := v\<rparr>"
  have s1: "ws_peer s1 = ?p" "ws_pending s1 = [[1]]" "\<not> ws_panic s1"
    by (simp_all add: s1_def s0_def wb_start_def)
  have closed: "wb_queueClosed p" using c s1 by (auto simp: wb_close_begin_def wb_NewPeer_def)
  have r0: "wb_reachable h lk s0" unfolding s0_def by (rule wb_reachable.start)
  have "wb_step h lk s0 s1"
    unfolding s1_def
    by (rule wb_step.Check) (simp_all add: s0_def wb_start_def wb_NewPeer_def wb_send_check_def)
  with r0 have r1: "wb_reachable h lk s1" by (rule wb_reachable.step)
  have "wb_step h lk s1 s2" unfolding s2_def by (rule wb_step.Close [OF s1(3) c])
  with r1 have r2: "wb_reachable h lk s2" by (rule wb_reachable.step)
  have "wb_step h lk s2 (s2\<lparr>ws_panic := True\<rparr>)"
    by (rule wb_step.Panic [where data = "[1]"]) (simp_all add: s2_def s1 closed wb_send_put_def)
  with r2 have "wb_reachable h lk (s2\<lparr>ws_panic := True\<rparr>)" by (rule wb_reachable.step)
  then show ?thesis by (intro exI [of _ "s2\<lparr>ws_panic := True\<rparr>"]) simp
qed

section \<open>Witness\<close>

definition example_http :: "unit http" where
  "example_http =
     \<lparr>h_NewRequest = (\<lambda>_. None), h_Do = (\<lambda>req w. (Inl (Base ''offline''), w)),
      h_json = (\<lambda>_. Base ''EOF'')\<rparr>"

definition example_livekit :: "(unit, unit) livekit" where
  "example_livekit =
     \<lparr>lk_ConnectToRoomWithToken = (\<lambda>_ _ w. (None, w)), lk_LocalParticipant = (\<lambda>_. True),
      lk_PublishTrack = (\<lambda>_ w. (None, w)), lk_PublishDataPacket = (\<lambda>_ w. (None, w)),
      lk_TrackPublications = (\<lambda>_. []), lk_UnpublishTrack = (\<lambda>_ w. (None, w)), lk_Disconnect = (\<lambda>w. w)\<rparr>"


end
