(* ===== verification/Telemost_Api.thy ===== *)
theory Telemost_Api
  imports Http
begin

text \<open>\<open>internal/provider/telemost/api.go\<close>: the connection information of a conference.\<close>

definition tm_apiBase :: string where
  "tm_apiBase = ''https://cloud-api.yandex.ru/telemost_front/v2/telemost''"

definition ErrAPI :: go_error where "ErrAPI = Base ''api error''"

record ConnectionInfo =
  ci_RoomID :: string
  ci_PeerID :: string
  ci_Credentials :: string
  ci_MediaServerURL :: string

definition ConnectionInfo_zero :: ConnectionInfo where
  "ConnectionInfo_zero = \<lparr>ci_RoomID = [], ci_PeerID = [], ci_Credentials = [], ci_MediaServerURL = []\<rparr>"

definition store_client_configuration :: "string \<Rightarrow> json \<Rightarrow> ConnectionInfo \<Rightarrow> ConnectionInfo option" where
  "store_client_configuration k v r =
     (if EqualFold k ''media_server_url''
      then map_option (\<lambda>x. r\<lparr>ci_MediaServerURL := x\<rparr>) (store_string v (ci_MediaServerURL r)) else Some r)"

definition store_connection :: "string \<Rightarrow> json \<Rightarrow> ConnectionInfo \<Rightarrow> ConnectionInfo option" where
  "store_connection k v r =
     (if EqualFold k ''room_id'' then map_option (\<lambda>x. r\<lparr>ci_RoomID := x\<rparr>) (store_string v (ci_RoomID r))
      else if EqualFold k ''peer_id'' then map_option (\<lambda>x. r\<lparr>ci_PeerID := x\<rparr>) (store_string v (ci_PeerID r))
      else if EqualFold k ''credentials''
        then map_option (\<lambda>x. r\<lparr>ci_Credentials := x\<rparr>) (store_string v (ci_Credentials r))
      else if EqualFold k ''client_configuration'' then store_object store_client_configuration v r
      else Some r)"

text \<open>\<open>url.QueryEscape\<close>: letters, digits and four signs stand for themselves, a space is a plus.\<close>

definition url_hex :: "nat \<Rightarrow> char" where
  "url_hex n = (if n < 10 then char_of (48 + n) else char_of (55 + n))"

definition url_unreserved :: "char \<Rightarrow> bool" where
  "url_unreserved c \<longleftrightarrow>
     (let n = of_char c :: nat in
      48 \<le> n \<and> n \<le> 57 \<or> 65 \<le> n \<and> n \<le> 90 \<or> 97 \<le> n \<and> n \<le> 122) \<or> c \<in> set ''-_.~''"

definition QueryEscape :: "string \<Rightarrow> string" where
  "QueryEscape s =
     concat (map (\<lambda>c. if url_unreserved c then [c] else if c = CHR '' '' then ''+''
       else [CHR ''%'', url_hex (of_char c div 16), url_hex (of_char c mod 16)]) s)"

definition tm_user_agent :: string where
  "tm_user_agent = ''Mozilla/5.0 (X11; Linux x86_64; rv:149.0) Gecko/20100101 Firefox/149.0''"

text \<open>\<open>instance_id\<close> and \<open>key\<close> are the fresh UUIDs.\<close>

definition connection_request :: "string \<Rightarrow> string \<Rightarrow> string \<Rightarrow> string \<Rightarrow> http_request" where
  "connection_request instance_id key roomURL displayName =
     \<lparr>rq_Method = ''GET'', rq_URL = tm_apiBase @ ''/conferences/'' @ QueryEscape roomURL @ ''/connection'',
      rq_Query = [(''next_gen_media_platform_allowed'', ''true''), (''display_name'', displayName),
                  (''waiting_room_supported'', ''true'')],
      rq_Header = [(''User-Agent'', tm_user_agent), (''Accept'', ''*/*''), (''Content-Type'', ''application/json''),
                   (''Client-Instance-Id'', instance_id), (''X-Telemost-Client-Version'', ''187.1.0''),
                   (''Idempotency-Key'', key), (''Origin'', ''https://telemost.yandex.ru''),
                   (''Referer'', ''https://telemost.yandex.ru/'')],
      rq_Body = []\<rparr>"

definition GetConnectionInfo ::
    "'w http \<Rightarrow> string \<Rightarrow> string \<Rightarrow> string \<Rightarrow> string \<Rightarrow> 'w \<Rightarrow> (go_error + ConnectionInfo) \<times> 'w" where
  "GetConnectionInfo h instance_id key roomURL displayName =
     io_bind (send_request h ''failed to create request'' ''failed to do request''
                (connection_request instance_id key roomURL displayName))
     (\<lambda>resp. if rs_StatusCode resp \<noteq> StatusOK
             then io_fail (Detail ErrAPI ('' '' @ Itoa (rs_StatusCode resp) @ '': '' @ rs_Body resp))
             else Decode h ''failed to decode response'' store_connection ConnectionInfo_zero resp)"

end
