(* ===== verification/Telemost_Signal.thy ===== *)
theory Telemost_Signal
  imports Telemost_Api Webrtc
begin

text \<open>
  The messages of \<open>internal/provider/telemost/peer.go\<close>: what the peer writes to the signalling
  socket, and what it reads from the messages of the service. Conversions of JSON numbers go
  through \<open>float64\<close> in the source; they are the record \<open>floats\<close>, a parameter.
\<close>

record floats =
  f_positive :: "string \<Rightarrow> bool"
  f_int :: "string \<Rightarrow> int"
  f_u16 :: "string \<Rightarrow> u16"

definition strings :: "string list \<Rightarrow> json" where
  "strings xs = JArr (map JStr xs)"

section \<open>Messages written\<close>

definition telemostCapabilitiesOffer :: json where
  "telemostCapabilitiesOffer =
     JObj [(''androidBluetoothRoutingFix'', strings [''ANDROID_BLUETOOTH_ROUTING_FIX_DISABLED'']),
           (''bandwidthLimitationReason'', strings [''BANDWIDTH_REASON_DISABLED'', ''BANDWIDTH_REASON_ENABLED'']),
           (''dataChannelSharing'', strings [''TO_RTP'']),
           (''dataChannelVideoCodec'', strings [''VP8'', ''UNIQUE_CODEC_FROM_TRACK_DESCRIPTION'']),
           (''fixedIceCandidatesPoolSize'', strings [''FIXED_ICE_CANDIDATES_POOL_SIZE_DISABLED'']),
           (''initialSubscriberOffer'', strings [''ON_HELLO'']),
           (''joinOrderLayout'', strings [''JOIN_ORDER_LAYOUT_DISABLED'', ''JOIN_ORDER_LAYOUT_ENABLED'']),
           (''keepDefaultDevicesModes'', strings [''FALSE'']),
           (''offerAnswerMode'', strings [''SEPARATE'']),
           (''pinLayout'', strings [''PIN_LAYOUT_DISABLED'']),
           (''publisherOpusDred'', strings [''PUBLISHER_OPUS_DRED_DISABLED'']),
           (''publisherOpusLowBitrate'', strings [''PUBLISHER_OPUS_LOW_BITRATE_DISABLED'']),
           (''publisherVp9'', strings [''PUBLISH_VP9_DISABLED'', ''PUBLISH_VP9_ENABLED'']),
           (''reportTelemetryModes'', strings [''TRUE'']),
           (''sdkAndroidDestroySessionOnTaskRemoved'', strings [''SDK_ANDROID_DESTROY_SESSION_ON_TASK_REMOVED_DISABLED'']),
           (''sdkAndroidTelecomIntegration'', strings [''SDK_ANDROID_TELECOM_INTEGRATION_DISABLED'']),
           (''sdkDefaultDeviceManagement'', strings [''SDK_DEFAULT_DEVICE_MANAGEMENT_DISABLED'', ''SDK_DEFAULT_DEVICE_MANAGEMENT_ENABLED'']),
           (''sdkNetworkLostDetection'', strings [''SDK_NETWORK_LOST_DETECTION_DISABLED'']),
           (''sdkNetworkPathMonitor'', strings [''SDK_NETWORK_PATH_MONITOR_DISABLED'']),
           (''sdkPublisherOptimizeBitrate'', strings [''SDK_PUBLISHER_OPTIMIZE_BITRATE_DISABLED'', ''SDK_PUBLISHER_OPTIMIZE_BITRATE_FULL'', ''SDK_PUBLISHER_OPTIMIZE_BITRATE_ONLY_SELF'']),
           (''selfVadStatus'', strings [''FROM_SERVER'', ''FROM_CLIENT'']),
           (''sendSelfViewVideoSlot'', strings [''SEND_SELF_VIEW_VIDEO_SLOT_DISABLED'', ''SEND_SELF_VIEW_VIDEO_SLOT_ENABLED'']),
           (''serverLayoutTransition'', strings [''SERVER_LAYOUT_TRANSITION_DISABLED'']),
           (''setActiveCodecsMode'', strings [''SET_ACTIVE_CODECS_MODE_DISABLED'', ''SET_ACTIVE_CODECS_MODE_VIDEO_ONLY'']),
           (''simulcastMode'', strings [''DISABLED'', ''STATIC'']),
           (''slotsMode'', strings [''FROM_CONTROLLER'']),
           (''subscriberDtlsPassiveMode'', strings [''SUBSCRIBER_DTLS_PASSIVE_MODE_DISABLED'']),
           (''subscriberOfferAsyncAck'', strings [''SUBSCRIBER_OFFER_ASYNC_ACK_DISABLED'', ''SUBSCRIBER_OFFER_ASYNC_ACK_ENABLED'']),
           (''svcMode'', strings [''SVC_MODE_DISABLED'', ''SVC_MODE_L3T3'', ''SVC_MODE_L3T3_KEY'']),
           (''svcModes'', strings [''FALSE'']),
           (''videoEncoderConfig'', strings [''NO_CONFIG'', ''ONLY_INIT_CONFIG'', ''RUNTIME_CONFIG''])]"

definition participant :: "string \<Rightarrow> (string \<times> json) list \<Rightarrow> json" where
  "participant name media =
     JObj ([(''description'', JStr []), (''name'', JStr name), (''role'', JStr ''SPEAKER'')] @ media)"

text \<open>\<open>uid\<close> and \<open>initID\<close> are fresh UUIDs, \<open>numCPU\<close> is \<open>runtime.NumCPU()\<close>.\<close>

definition helloMsg :: "string \<Rightarrow> string \<Rightarrow> nat \<Rightarrow> ConnectionInfo \<Rightarrow> string \<Rightarrow> bool \<Rightarrow> json" where
  "helloMsg uid initID numCPU conn name sendVideo =
     JObj
      [(''hello'', JObj
         [(''capabilitiesOffer'', telemostCapabilitiesOffer), (''credentials'', JStr (ci_Credentials conn)),
          (''disablePublisher'', JBool (\<not> sendVideo)), (''disableSubscriber'', JBool False),
          (''disableSubscriberAudio'', JBool True), (''participantAttributes'', participant name []),
          (''participantId'', JStr (ci_PeerID conn)),
          (''participantMeta'', participant name [(''sendAudio'', JBool False), (''sendVideo'', JBool sendVideo)]),
          (''roomId'', JStr (ci_RoomID conn)),
          (''sdkInfo'', JObj
             [(''hwConcurrency'', JNum (Itoa (int numCPU))), (''implementation'', JStr ''browser''),
              (''userAgent'', JStr tm_user_agent), (''version'', JStr ''5.27.0'')]),
          (''sdkInitializationId'', JStr initID), (''sendAudio'', JBool False), (''sendSharing'', JBool False),
          (''sendVideo'', JBool sendVideo), (''serviceName'', JStr ''telemost'')]),
       (''uid'', JStr uid)]"

definition ackMsg :: "string \<Rightarrow> json" where
  "ackMsg uid = JObj [(''ack'', JObj [(''status'', JObj [(''code'', JStr ''OK'')])]), (''uid'', JStr uid)]"

definition pongMsg :: "string \<Rightarrow> json" where
  "pongMsg uid = JObj [(''pong'', JObj []), (''uid'', JStr uid)]"

definition pingMsg :: "string \<Rightarrow> json" where
  "pingMsg uid = JObj [(''ping'', JObj []), (''uid'', JStr uid)]"

definition leaveMsg :: "string \<Rightarrow> json" where
  "leaveMsg uid = JObj [(''leave'', JObj []), (''uid'', JStr uid)]"

definition sdpAnswerMsg :: "string \<Rightarrow> int \<Rightarrow> string \<Rightarrow> json" where
  "sdpAnswerMsg uid pcSeq sdp =
     JObj [(''subscriberSdpAnswer'', JObj [(''pcSeq'', JNum (Itoa pcSeq)), (''sdp'', JStr sdp)]), (''uid'', JStr uid)]"

definition trackDescription :: "sent_track \<Rightarrow> json" where
  "trackDescription t =
     JObj [(''codecs'', JObj []), (''description'', JStr []), (''groupId'', JNum ''1''),
           (''kind'', JStr (if st_audio t then ''AUDIO'' else ''VIDEO'')), (''label'', JStr (st_ID t)),
           (''mid'', JStr (st_Mid t)), (''priority'', JNum ''0''), (''transceiverMid'', JStr (st_Mid t))]"

definition publisherTrackDescriptions :: "bool \<Rightarrow> sent_track list \<Rightarrow> json" where
  "publisherTrackDescriptions hasPub tracks =
     (if \<not> hasPub then JNull else JArr (map trackDescription tracks))"

definition sdpOfferMsg :: "string \<Rightarrow> string \<Rightarrow> json \<Rightarrow> json" where
  "sdpOfferMsg uid sdp tracks =
     JObj [(''publisherSdpOffer'', JObj [(''pcSeq'', JNum ''1''), (''sdp'', JStr sdp), (''tracks'', tracks)]),
           (''uid'', JStr uid)]"

definition setSlotsMsg :: "string \<Rightarrow> json" where
  "setSlotsMsg uid =
     JObj [(''setSlots'', JObj
              [(''audioSlotsCount'', JNum ''0''), (''gridConfig'', JObj []), (''key'', JNum ''1''),
               (''selfViewVisibility'', JStr ''ON_LOADING_THEN_SHOW''), (''shutdownAllVideo'', JNull),
               (''slots'', JArr (replicate 8 (JObj [(''height'', JNum ''720''), (''width'', JNum ''1280'')]))),
               (''withSelfView'', JBool False)]),
           (''uid'', JStr uid)]"

text \<open>A local candidate; a missing \<open>sdpMid\<close> or index is null.\<close>

definition iceCandidateMsg :: "string \<Rightarrow> pc_role \<Rightarrow> string \<Rightarrow> string option \<Rightarrow> u16 option \<Rightarrow> json" where
  "iceCandidateMsg uid role candidate sdpMid sdpMLineIndex =
     JObj [(''uid'', JStr uid),
           (''webrtcIceCandidate'', JObj
              [(''candidate'', JStr candidate), (''pcSeq'', JNum ''1''),
               (''sdpMid'', case sdpMid of None \<Rightarrow> JNull | Some m \<Rightarrow> JStr m),
               (''sdpMlineIndex'', case sdpMLineIndex of None \<Rightarrow> JNull | Some i \<Rightarrow> JNum (Itoa (uint i))),
               (''target'', JStr (case role of Subscriber \<Rightarrow> ''SUBSCRIBER'' | Publisher \<Rightarrow> ''PUBLISHER''))])]"

section \<open>Messages read\<close>

definition isEndedState :: "string \<Rightarrow> bool" where
  "isEndedState state \<longleftrightarrow> ToLower state \<in> {''closed'', ''ended'', ''finished'', ''terminated''}"

definition isConferenceEndMessage :: "(string \<times> json) list \<Rightarrow> bool" where
  "isConferenceEndMessage msg \<longleftrightarrow>
     list_ex (\<lambda>k. json_get k msg \<noteq> None)
       [''conferenceClosed'', ''conferenceEnded'', ''roomClosed'', ''roomEnded'', ''callEnded'']
     \<or> list_ex (\<lambda>k. case as_object (json_get k msg) of
           None \<Rightarrow> False
         | Some raw \<Rightarrow> isEndedState (get_string ''state'' raw)) [''conference'', ''conferenceState'']"

definition isNonTURNURL :: "string \<Rightarrow> bool" where
  "isNonTURNURL url \<longleftrightarrow> url \<noteq> [] \<and> \<not> HasPrefix url ''turn:'' \<and> \<not> HasPrefix url ''turns:''"

definition parseICEURLs :: "(string \<times> json) list \<Rightarrow> string list" where
  "parseICEURLs server =
     (case as_array (json_get ''urls'' server) of
        None \<Rightarrow> []
      | Some rawURLs \<Rightarrow>
          concat (map (\<lambda>u. case u of JStr url \<Rightarrow> if isNonTURNURL url then [url] else [] | _ \<Rightarrow> []) rawURLs))"

definition parseICEServer :: "json \<Rightarrow> ice_server option" where
  "parseICEServer rawServer =
     (case as_object (Some rawServer) of
        None \<Rightarrow> None
      | Some server \<Rightarrow>
          (let urls = parseICEURLs server in
           if urls = [] then None
           else Some \<lparr>URLs = urls, Username = get_string ''username'' server,
                      Credential = get_string ''credential'' server\<rparr>))"

text \<open>The servers \<open>applyServerHelloConfig\<close> configures both connections with; none when there is nothing to use.\<close>

definition serverHello_servers :: "(string \<times> json) list \<Rightarrow> ice_server list" where
  "serverHello_servers serverHello =
     (case as_object (json_get ''rtcConfiguration'' serverHello) of
        None \<Rightarrow> []
      | Some rawCfg \<Rightarrow> List.map_filter parseICEServer (get_array ''iceServers'' rawCfg))"

definition defaultTelemetryInterval :: int where "defaultTelemetryInterval = 20 * second"

definition parseTelemetryCfg :: "floats \<Rightarrow> (string \<times> json) list \<Rightarrow> (string \<times> int) option" where
  "parseTelemetryCfg fl serverHello =
     (case as_object (json_get ''telemetryConfiguration'' serverHello) of
        None \<Rightarrow> None
      | Some cfg \<Rightarrow>
          (let endpoint =
             (if get_string ''logEndpoint'' cfg \<noteq> [] then get_string ''logEndpoint'' cfg
              else if get_string ''endpoint'' cfg \<noteq> [] then get_string ''endpoint'' cfg
              else get_string ''url'' cfg)
           in if endpoint = [] then None
              else Some (endpoint,
                case as_number (json_get ''sendingInterval'' cfg) of
                  None \<Rightarrow> defaultTelemetryInterval
                | Some raw \<Rightarrow> if f_positive fl raw then wrap64 (f_int fl raw * millisecond)
                             else defaultTelemetryInterval)))"

text \<open>\<open>strings.Fields\<close>, for its length: the number of maximal runs without white space.\<close>

fun fields_count :: "bool \<Rightarrow> string \<Rightarrow> nat" where
  "fields_count inside [] = 0"
| "fields_count inside (c # s) =
     (if is_space c then fields_count False s
      else if inside then fields_count True s
      else Suc (fields_count True s))"

definition remote_candidate :: "floats \<Rightarrow> (string \<times> json) list \<Rightarrow> (pc_role \<times> ice_candidate) option" where
  "remote_candidate fl cand =
     (let candStr = get_string ''candidate'' cand; target = get_string ''target'' cand;
          init = \<lparr>ic_Candidate = candStr, ic_SDPMid = get_string ''sdpMid'' cand,
                  ic_SDPMLineIndex = (case as_number (json_get ''sdpMlineIndex'' cand) of
                     None \<Rightarrow> 0 | Some l \<Rightarrow> f_u16 fl l)\<rparr>
      in if fields_count False candStr < 8 then None
         else if target = ''SUBSCRIBER'' then Some (Subscriber, init)
         else if target = ''PUBLISHER'' then Some (Publisher, init)
         else None)"

lemma parseICEURLs_usable: "url \<in> set (parseICEURLs server) \<Longrightarrow> isNonTURNURL url"
  by (auto simp: parseICEURLs_def split: option.splits json.splits if_splits)

lemma parseICEServer_urls:
  assumes "parseICEServer raw = Some srv"
  shows "URLs srv \<noteq> [] \<and> list_all isNonTURNURL (URLs srv)"
proof -
  from assms obtain server where "URLs srv = parseICEURLs server" "parseICEURLs server \<noteq> []"
    by (auto simp: parseICEServer_def Let_def split: option.splits if_splits)
  then show ?thesis by (simp add: list_all_iff parseICEURLs_usable)
qed

lemma serverHello_servers_usable:
  "srv \<in> set (serverHello_servers hello) \<Longrightarrow> URLs srv \<noteq> [] \<and> list_all isNonTURNURL (URLs srv)"
  by (auto simp: serverHello_servers_def map_filter_def parseICEServer_urls split: option.splits)

end
