(* ===== verification/Telemost_Peer.thy ===== *)
theory Telemost_Peer
  imports Telemost_Signal
begin

text \<open>
  \<open>internal/provider/telemost/peer.go\<close> over the shared peer state of \<open>Webrtc\<close>: sessions, connecting,
  signalling, sending, closing and reconnecting. Goroutines are rounds: functions from the state to
  what can happen next. A session is the pair of its \<open>keepAliveCh\<close> and \<open>sessionCloseCh\<close>, which are
  made and closed together; \<open>tm_sessions\<close> says of each whether it is closed, the last one is current.
\<close>

definition realDataChannelMessageLimit :: int where "realDataChannelMessageLimit = 12288"
definition defaultSendDelayLow :: int where "defaultSendDelayLow = 2 * millisecond"
definition defaultSendDelayMax :: int where "defaultSendDelayMax = 12 * millisecond"

definition tm_ErrDataChannelTimeout :: go_error where "tm_ErrDataChannelTimeout = Base ''datachannel timeout''"
definition tm_ErrDataChannelNotReady :: go_error where
  "tm_ErrDataChannelNotReady = Base ''datachannel not ready''"
definition tm_ErrSendQueueClosed :: go_error where "tm_ErrSendQueueClosed = Base ''send queue closed''"
definition tm_ErrSendQueueTimeout :: go_error where "tm_ErrSendQueueTimeout = Base ''send queue timeout''"
definition tm_ErrSubscriberMediaTimeout :: go_error where
  "tm_ErrSubscriberMediaTimeout = Base ''subscriber media timeout''"

record TrafficShape =
  MaxMessageSize :: int
  MinDelay :: int
  MaxDelay :: int

text \<open>Acknowledgements: the identifiers waited for, and those whose channel has been closed. The
  telemetry loop that runs is its endpoint and interval. \<open>tm_lastReconnect\<close> is none for the zero time.\<close>

record ('w, 't, 'h) telemost = "('w, 't, 'h) wpeer" +
  tm_roomURL :: string
  tm_conn :: ConnectionInfo
  tm_sessions :: "bool list"
  tm_ackWaiters :: "string list"
  tm_acked :: "string list"
  tm_telemetryActive :: bool
  tm_telemetry :: "(string \<times> int) option"
  tm_telemetryCh :: bool
  tm_lastReconnect :: "int option"
  tm_reconnectCount :: int
  tm_trafficShape :: TrafficShape

definition tm_NewPeer ::
    "'w http \<Rightarrow> string \<Rightarrow> string \<Rightarrow> string \<Rightarrow> string \<Rightarrow> bool \<Rightarrow> 'w \<Rightarrow> (go_error + ('w, 't, 'h) telemost) \<times> 'w" where
  "tm_NewPeer h instance_id key roomURL name onData =
     io_bind (io_ctx ''failed to get connection info'' (GetConnectionInfo h instance_id key roomURL name)) (\<lambda>conn.
     io_return (wpeer.extend (wpeer_new name onData)
       (telemost.fields roomURL conn [False] [] [] False None False None 0
          \<lparr>MaxMessageSize = realDataChannelMessageLimit, MinDelay = defaultSendDelayLow,
           MaxDelay = defaultSendDelayMax\<rparr>)))"

definition SetTrafficShape :: "TrafficShape \<Rightarrow> ('w, 't, 'h) telemost \<Rightarrow> ('w, 't, 'h) telemost" where
  "SetTrafficShape shape p =
     (let s1 = (if MaxMessageSize shape \<le> 0 then shape\<lparr>MaxMessageSize := realDataChannelMessageLimit\<rparr> else shape);
          s2 = (if MaxDelay s1 < MinDelay s1 then s1\<lparr>MaxDelay := MinDelay s1\<rparr> else s1)
      in p\<lparr>tm_trafficShape := s2\<rparr>)"

section \<open>Reconnect requests, sessions and connection states\<close>

definition tm_queueReconnect :: "'w \<Rightarrow> ('w, 't, 'h) telemost \<Rightarrow> ('w, 't, 'h) telemost" where
  "tm_queueReconnect w p =
     (if wp_closed p \<or> wp_reconnecting p then p
      else if (\<exists>fn. wp_shouldReconnect p = Some fn \<and> \<not> fn w) then p
      else p\<lparr>wp_reconnectCh := True\<rparr>)"

definition tm_drainReconnectQueue :: "('w, 't, 'h) telemost \<Rightarrow> ('w, 't, 'h) telemost" where
  "tm_drainReconnectQueue p = p\<lparr>wp_reconnectCh := False\<rparr>"

definition stopTelemetry :: "('w, 't, 'h) telemost \<Rightarrow> ('w, 't, 'h) telemost" where
  "stopTelemetry p = (if tm_telemetryActive p then p\<lparr>tm_telemetryCh := True\<rparr> else p)"

definition stopSession :: "('w, 't, 'h) telemost \<Rightarrow> ('w, 't, 'h) telemost" where
  "stopSession p =
     (let p1 = stopTelemetry p
      in p1\<lparr>tm_sessions := (tm_sessions p1)[length (tm_sessions p1) - 1 := True]\<rparr>)"

definition resetSession :: "('w, 't, 'h) telemost \<Rightarrow> ('w, 't, 'h) telemost" where
  "resetSession p = p\<lparr>tm_sessions := tm_sessions p @ [False]\<rparr>"

definition tm_resetMediaState :: "('w, 't, 'h) telemost \<Rightarrow> ('w, 't, 'h) telemost" where
  "tm_resetMediaState p =
     p\<lparr>wp_subscriberReady := False, wp_publisherReady := False, wp_subConn := False, wp_pubConn := False\<rparr>"

definition tm_onConnectionStateChange :: "'w \<Rightarrow> pc_state \<Rightarrow> ('w, 't, 'h) telemost \<Rightarrow> ('w, 't, 'h) telemost" where
  "tm_onConnectionStateChange w st p =
     (if \<not> wp_closed p \<and> st = PC_Failed then tm_queueReconnect w p else p)"

definition tm_onSubscriberConnectionStateChange ::
    "'w \<Rightarrow> pc_state \<Rightarrow> ('w, 't, 'h) telemost \<Rightarrow> ('w, 't, 'h) telemost" where
  "tm_onSubscriberConnectionStateChange w st p =
     tm_onConnectionStateChange w st
       (if st = PC_Connected then p\<lparr>wp_subscriberReady := True, wp_subConn := True\<rparr>
        else if st \<in> {PC_Disconnected, PC_Failed, PC_Closed} then p\<lparr>wp_subscriberReady := False\<rparr>
        else p)"

definition tm_onPublisherConnectionStateChange ::
    "'w \<Rightarrow> pc_state \<Rightarrow> ('w, 't, 'h) telemost \<Rightarrow> ('w, 't, 'h) telemost" where
  "tm_onPublisherConnectionStateChange w st p =
     tm_onConnectionStateChange w st
       (if st = PC_Connected then p\<lparr>wp_publisherReady := True, wp_pubConn := True\<rparr>
        else if st \<in> {PC_Disconnected, PC_Failed, PC_Closed} then p\<lparr>wp_publisherReady := False\<rparr>
        else p)"

text \<open>The end of the conference, or of the attempts to reconnect: the flag, then the callback.\<close>

definition signalEnded :: "string \<Rightarrow> ('w, 't, 'h) telemost \<times> 'w \<Rightarrow> ('w, 't, 'h) telemost \<times> 'w" where
  "signalEnded reason = (\<lambda>(p, w).
     (stopTelemetry (p\<lparr>wp_closed := True\<rparr>),
      case wp_onEnded p of None \<Rightarrow> w | Some cb \<Rightarrow> cb reason w))"

section \<open>Acknowledgements\<close>

definition registerAckWaiter :: "string \<Rightarrow> ('w, 't, 'h) telemost \<Rightarrow> ('w, 't, 'h) telemost" where
  "registerAckWaiter uid p = p\<lparr>tm_ackWaiters := List.insert uid (tm_ackWaiters p)\<rparr>"

definition removeAckWaiter :: "string \<Rightarrow> ('w, 't, 'h) telemost \<Rightarrow> ('w, 't, 'h) telemost" where
  "removeAckWaiter uid p = p\<lparr>tm_ackWaiters := removeAll uid (tm_ackWaiters p)\<rparr>"

definition tm_resolveAck :: "string \<Rightarrow> ('w, 't, 'h) telemost \<Rightarrow> ('w, 't, 'h) telemost" where
  "tm_resolveAck uid p =
     (if uid = [] then p
      else if uid \<in> set (tm_ackWaiters p)
      then p\<lparr>tm_ackWaiters := removeAll uid (tm_ackWaiters p), tm_acked := uid # tm_acked p\<rparr>
      else p)"

text \<open>\<open>waitForAck\<close> when it ends: every result it can have then; \<open>timeout\<close> says that the time is up.\<close>

definition waitForAck :: "string \<Rightarrow> bool \<Rightarrow> ('w, 't, 'h) telemost \<Rightarrow> (bool \<times> ('w, 't, 'h) telemost) list" where
  "waitForAck uid timeout p =
     (if uid = [] then [(False, p)]
      else (if uid \<in> set (tm_acked p) then [(True, removeAckWaiter uid p)] else [])
         @ (if timeout \<or> wp_closeCh p then [(False, removeAckWaiter uid p)] else []))"

section \<open>Writing to the signalling socket\<close>

definition tm_hasLocalVideoTracks :: "('w, 't, 'h) telemost \<Rightarrow> bool" where
  "tm_hasLocalVideoTracks p \<longleftrightarrow> wp_videoTracks p \<noteq> []"

definition sendHello :: "('w, 't) rtc \<Rightarrow> nat \<Rightarrow> ('w, 't, 'h) telemost \<Rightarrow> 'w \<Rightarrow> go_error option \<times> 'w" where
  "sendHello rtc numCPU p w =
     (case uuid_New rtc w of (uid, w1) \<Rightarrow>
      (case uuid_New rtc w1 of (initID, w2) \<Rightarrow>
         wrap_op ''write hello''
           (ws_WriteJSON rtc (helloMsg uid initID numCPU (tm_conn p) (wp_name p) (tm_hasLocalVideoTracks p))) w2))"

definition tm_sendAck :: "('w, 't) rtc \<Rightarrow> string \<Rightarrow> 'w \<Rightarrow> 'w" where
  "tm_sendAck rtc uid w = (if uid = [] then w else snd (ws_WriteJSON rtc (ackMsg uid) w))"

definition sendPong :: "('w, 't) rtc \<Rightarrow> string \<Rightarrow> 'w \<Rightarrow> 'w" where
  "sendPong rtc uid w = snd (ws_WriteJSON rtc (pongMsg uid) w)"

definition sendSetSlots :: "('w, 't) rtc \<Rightarrow> 'w \<Rightarrow> go_error option \<times> 'w" where
  "sendSetSlots rtc w =
     (case uuid_New rtc w of (uid, w1) \<Rightarrow> wrap_op ''write set slots'' (ws_WriteJSON rtc (setSlotsMsg uid)) w1)"

definition sendLeave :: "('w, 't) rtc \<Rightarrow> string \<Rightarrow> ('w, 't, 'h) telemost \<Rightarrow> 'w \<Rightarrow> bool \<times> 'w" where
  "sendLeave rtc uid p w =
     (if \<not> wp_ws p then (False, w)
      else (case ws_WriteJSON rtc (leaveMsg uid) w of
              (Some err, w') \<Rightarrow> (False, w')
            | (None, w') \<Rightarrow> (True, w')))"

text \<open>A local candidate found by one of the connections.\<close>

definition tm_OnICECandidate ::
    "('w, 't) rtc \<Rightarrow> pc_role \<Rightarrow> (string \<times> string option \<times> u16 option) option \<Rightarrow> 'w \<Rightarrow> 'w" where
  "tm_OnICECandidate rtc role c w =
     (case c of
        None \<Rightarrow> w
      | Some (candidate, mid, idx) \<Rightarrow>
          (case uuid_New rtc w of (uid, w1) \<Rightarrow>
             snd (ws_WriteJSON rtc (iceCandidateMsg uid role candidate mid idx) w1)))"

section \<open>Keep-alive\<close>

definition sendWSPing :: "('w, 't) rtc \<Rightarrow> ('w, 't, 'h) telemost \<times> 'w \<Rightarrow> bool \<times> ('w, 't, 'h) telemost \<times> 'w" where
  "sendWSPing rtc = (\<lambda>(p, w).
     if wp_ws p
     then (case ws_Ping rtc w of
             (Some err, w') \<Rightarrow> (False, tm_queueReconnect w' p, w')
           | (None, w') \<Rightarrow> (True, p, w'))
     else (True, p, w))"

definition sendAppPing :: "('w, 't) rtc \<Rightarrow> ('w, 't, 'h) telemost \<times> 'w \<Rightarrow> bool \<times> ('w, 't, 'h) telemost \<times> 'w" where
  "sendAppPing rtc = (\<lambda>(p, w).
     if wp_ws p
     then (case uuid_New rtc w of (uid, w1) \<Rightarrow>
          (case ws_WriteJSON rtc (pingMsg uid) w1 of
             (Some err, w') \<Rightarrow> (False, tm_queueReconnect w' p, w')
           | (None, w') \<Rightarrow> (True, p, w')))
     else (True, p, w))"

text \<open>A round of \<open>keepAlive\<close> of a session: every choice of its \<open>select\<close>.\<close>

definition tm_keepAlive ::
    "('w, 't) rtc \<Rightarrow> bool \<Rightarrow> bool \<Rightarrow> nat \<Rightarrow> ('w, 't, 'h) telemost \<times> 'w \<Rightarrow>
     (bool \<times> ('w, 't, 'h) telemost \<times> 'w) list" where
  "tm_keepAlive rtc wsTick appTick session = (\<lambda>(p, w).
     (if wsTick then [sendWSPing rtc (p, w)] else [])
     @ (if appTick then [sendAppPing rtc (p, w)] else [])
     @ (if tm_sessions p ! session \<or> wp_closeCh p then [(False, p, w)] else []))"

section \<open>Telemetry\<close>

text \<open>\<open>now\<close> is the wall clock in milliseconds; the outcome of the request is ignored.\<close>

definition telemetry_body :: "int \<Rightarrow> string \<Rightarrow> u64 \<Rightarrow> ('w, 't, 'h) telemost \<Rightarrow> json" where
  "telemetry_body now event buffered p =
     JObj [(''dataChannel'', JObj
              [(''bufferedAmount'', JNum (Itoa (uint buffered))),
               (''sendQueue'', JNum (Itoa (int (length (wp_sendQueue p)))))]),
           (''displayName'', JStr (wp_name p)), (''event'', JStr event), (''implementation'', JStr ''olcrtc-go''),
           (''peerId'', JStr (ci_PeerID (tm_conn p))), (''roomId'', JStr (ci_RoomID (tm_conn p))),
           (''timestamp'', JNum (Itoa now))]"

definition tm_GetBufferedAmount :: "('w, 't) rtc \<Rightarrow> ('w, 't, 'h) telemost \<times> 'w \<Rightarrow> u64" where
  "tm_GetBufferedAmount rtc = (\<lambda>(p, w). if wp_dc p then dc_BufferedAmount rtc w else 0)"

definition sendTelemetry ::
    "'w http \<Rightarrow> ('w, 't) rtc \<Rightarrow> int \<Rightarrow> string \<Rightarrow> string \<Rightarrow> ('w, 't, 'h) telemost \<Rightarrow> 'w \<Rightarrow> 'w" where
  "sendTelemetry h rtc now endpoint event p w =
     (let body = json_text (telemetry_body now event (tm_GetBufferedAmount rtc (p, w)) p) in
      if h_NewRequest h endpoint \<noteq> None then w
      else (case uuid_New rtc w of (instance_id, w1) \<Rightarrow>
           (case uuid_New rtc w1 of (key, w2) \<Rightarrow>
              snd (h_Do h
                \<lparr>rq_Method = ''POST'', rq_URL = endpoint, rq_Query = [],
                 rq_Header = [(''Content-Type'', ''application/json''), (''User-Agent'', tm_user_agent),
                    (''Origin'', ''https://telemost.yandex.ru''), (''Referer'', tm_roomURL p),
                    (''X-Requested-With'', ''XMLHttpRequest''), (''Client-Instance-Id'', instance_id),
                    (''X-Telemost-Client-Version'', ''187.1.0''), (''Idempotency-Key'', key)],
                 rq_Body = body\<rparr> w2))))"

definition startTelemetry ::
    "floats \<Rightarrow> (string \<times> json) list \<Rightarrow> ('w, 't, 'h) telemost \<Rightarrow> ('w, 't, 'h) telemost" where
  "startTelemetry fl serverHello p =
     (case parseTelemetryCfg fl serverHello of
        None \<Rightarrow> p
      | Some cfg \<Rightarrow>
          if tm_telemetryActive p then p
          else p\<lparr>tm_telemetryActive := True, tm_telemetry := Some cfg\<rparr>)"

text \<open>The start of the telemetry goroutine; \<open>NewTicker\<close> panics (\<open>None\<close>) on an interval that is not positive.\<close>

definition telemetry_begin ::
    "'w http \<Rightarrow> ('w, 't) rtc \<Rightarrow> int \<Rightarrow> ('w, 't, 'h) telemost \<Rightarrow> 'w \<Rightarrow> 'w option" where
  "telemetry_begin h rtc now p w =
     (case tm_telemetry p of
        None \<Rightarrow> Some w
      | Some (endpoint, interval) \<Rightarrow>
          if interval \<le> 0 then None else Some (sendTelemetry h rtc now endpoint ''join'' p w))"

text \<open>A round of it: every choice of its \<open>select\<close>.\<close>

definition telemetry_round ::
    "'w http \<Rightarrow> ('w, 't) rtc \<Rightarrow> int \<Rightarrow> bool \<Rightarrow> ('w, 't, 'h) telemost \<times> 'w \<Rightarrow>
     (bool \<times> ('w, 't, 'h) telemost \<times> 'w) list" where
  "telemetry_round h rtc now tick = (\<lambda>(p, w).
     case tm_telemetry p of
       None \<Rightarrow> []
     | Some (endpoint, _) \<Rightarrow>
         (if tick then [(True, p, sendTelemetry h rtc now endpoint ''stats'' p w)] else [])
         @ (if tm_telemetryCh p
            then [(False, p\<lparr>tm_telemetryCh := False, tm_telemetryActive := False, tm_telemetry := None\<rparr>,
                   sendTelemetry h rtc now endpoint ''leave'' p w)] else [])
         @ (if wp_closeCh p
            then [(False, p\<lparr>tm_telemetryActive := False, tm_telemetry := None\<rparr>,
                   sendTelemetry h rtc now endpoint ''leave'' p w)] else []))"

end
