(* ===== verification/Telemost_Ops.thy ===== *)
theory Telemost_Ops
  imports Telemost_Peer
begin

text \<open>
  \<open>internal/provider/telemost/peer.go\<close>, continued: the signalling loop, \<open>Connect\<close>, the send path with
  its four workers, \<open>Close\<close>, reconnecting and the rest of the interface.
\<close>

section \<open>Signalling\<close>

definition applyServerHelloConfig ::
    "('w, 't) rtc \<Rightarrow> (string \<times> json) list \<Rightarrow> ('w, 't, 'h) telemost \<Rightarrow> 'w \<Rightarrow> 'w" where
  "applyServerHelloConfig rtc serverHello p w =
     (let iceServers = serverHello_servers serverHello in
      if iceServers = [] then w
      else (let w1 = (if wp_pcSub p then rtc_SetConfiguration rtc Subscriber iceServers w else w)
            in if wp_pcPub p then rtc_SetConfiguration rtc Publisher iceServers w1 else w1))"

definition handleCommonMessages :: "('w, 't) rtc \<Rightarrow> (string \<times> json) list \<Rightarrow> string \<Rightarrow> 'w \<Rightarrow> 'w" where
  "handleCommonMessages rtc msg uid w =
     (let has = (\<lambda>k. json_get k msg \<noteq> None);
          w1 = (if has ''updateDescription'' then tm_sendAck rtc uid w else w);
          w2 = (if has ''vadActivity'' then tm_sendAck rtc uid w1 else w1);
          w3 = (if has ''ping'' then sendPong rtc uid w2 else w2)
      in if has ''pong'' then tm_sendAck rtc uid w3 else w3)"

definition handleMessageEvents ::
    "('w, 't) rtc \<Rightarrow> floats \<Rightarrow> (string \<times> json) list \<Rightarrow> string \<Rightarrow>
     ('w, 't, 'h) telemost \<times> 'w \<Rightarrow> ('w, 't, 'h) telemost \<times> 'w" where
  "handleMessageEvents rtc fl msg uid = (\<lambda>(p, w).
     let p1 = (if json_get ''ack'' msg \<noteq> None then tm_resolveAck uid p else p) in
     case as_object (json_get ''serverHello'' msg) of
       None \<Rightarrow> (p1, handleCommonMessages rtc msg uid w)
     | Some serverHello \<Rightarrow>
         (startTelemetry fl serverHello p1,
          handleCommonMessages rtc msg uid
            (tm_sendAck rtc uid (applyServerHelloConfig rtc serverHello p1 w))))"

definition tm_handleSdpOffer ::
    "('w, 't) rtc \<Rightarrow> floats \<Rightarrow> (string \<times> json) list \<Rightarrow> string \<Rightarrow> bool \<Rightarrow> ('w, 't, 'h) telemost \<Rightarrow> 'w \<Rightarrow>
     (go_error + unit) \<times> 'w" where
  "tm_handleSdpOffer rtc fl offer uid sendPub p =
     io_bind (io_ctx ''set remote desc'' (io_check (rtc_SetRemoteDescription rtc Subscriber Offer (get_string ''sdp'' offer))))
     (\<lambda>_. io_bind (io_ctx ''create answer'' (rtc_CreateAnswer rtc Subscriber))
     (\<lambda>answer. io_bind (io_ctx ''set local desc'' (io_check (rtc_SetLocalDescription rtc Subscriber Answer answer)))
     (\<lambda>_. io_bind
        (\<lambda>w. case uuid_New rtc w of (u, w1) \<Rightarrow>
           let pcSeq = (case as_number (json_get ''pcSeq'' offer) of None \<Rightarrow> 0 | Some l \<Rightarrow> f_int fl l);
               w2 = tm_sendAck rtc uid (snd (ws_WriteJSON rtc (sdpAnswerMsg u pcSeq answer) w1))
           in (Inr (), if wp_onData p then w2 else snd (sendSetSlots rtc w2)))
     (\<lambda>_. if \<not> sendPub then io_return ()
          else io_bind (io_ctx ''create pub offer'' (rtc_CreateOffer rtc Publisher))
          (\<lambda>pubOffer. io_bind (io_ctx ''set local pub desc'' (io_check (rtc_SetLocalDescription rtc Publisher Offer pubOffer)))
          (\<lambda>_ w. case uuid_New rtc w of (u, w1) \<Rightarrow>
             (Inr (), snd (ws_WriteJSON rtc
                (sdpOfferMsg u pubOffer (publisherTrackDescriptions (wp_pcPub p) (rtc_SentTracks rtc w1))) w1))))))))"

definition tm_handleSdpAnswer :: "('w, 't) rtc \<Rightarrow> (string \<times> json) list \<Rightarrow> string \<Rightarrow> 'w \<Rightarrow> 'w" where
  "tm_handleSdpAnswer rtc answer uid w =
     tm_sendAck rtc uid (snd (rtc_SetRemoteDescription rtc Publisher Answer (get_string ''sdp'' answer) w))"

definition tm_handleICE :: "('w, 't) rtc \<Rightarrow> floats \<Rightarrow> (string \<times> json) list \<Rightarrow> 'w \<Rightarrow> 'w" where
  "tm_handleICE rtc fl cand w =
     (case remote_candidate fl cand of
        None \<Rightarrow> w
      | Some (role, init) \<Rightarrow> rtc_AddICECandidate rtc role init w)"

definition handleSignalingResponses ::
    "('w, 't) rtc \<Rightarrow> floats \<Rightarrow> (string \<times> json) list \<Rightarrow> string \<Rightarrow> 'w \<Rightarrow> 'w" where
  "handleSignalingResponses rtc fl msg uid w =
     (let w1 = (case as_object (json_get ''publisherSdpAnswer'' msg) of
                  None \<Rightarrow> w | Some answer \<Rightarrow> tm_handleSdpAnswer rtc answer uid w)
      in case as_object (json_get ''webrtcIceCandidate'' msg) of
           None \<Rightarrow> w1 | Some cand \<Rightarrow> tm_handleICE rtc fl cand w1)"

text \<open>A round of \<open>handleSignaling\<close>: whether it goes on, and \<open>pubSent\<close>.\<close>

definition tm_handleSignaling ::
    "('w, 't) rtc \<Rightarrow> floats \<Rightarrow> go_error + json \<Rightarrow> bool \<Rightarrow> ('w, 't, 'h) telemost \<times> 'w \<Rightarrow>
     bool \<times> bool \<times> ('w, 't, 'h) telemost \<times> 'w" where
  "tm_handleSignaling rtc fl r pubSent = (\<lambda>(p, w).
     case ReadJSON r of
       None \<Rightarrow> (False, pubSent, if wp_closed p then p else tm_queueReconnect w p, w)
     | Some msg \<Rightarrow>
         (let uid = get_string ''uid'' msg in
          case handleMessageEvents rtc fl msg uid (p, w) of (p1, w1) \<Rightarrow>
          if isConferenceEndMessage msg
          then (case signalEnded ''conference ended'' (p1, w1) of (p2, w2) \<Rightarrow> (False, pubSent, p2, w2))
          else (case as_object (json_get ''subscriberSdpOffer'' msg) of
                  None \<Rightarrow> (True, pubSent, p1, handleSignalingResponses rtc fl msg uid w1)
                | Some offer \<Rightarrow>
                    (case tm_handleSdpOffer rtc fl offer uid (\<not> pubSent) p1 w1 of
                       (Inl err, w2) \<Rightarrow> (True, pubSent, p1, w2)
                     | (Inr _, w2) \<Rightarrow> (True, True, p1, handleSignalingResponses rtc fl msg uid w2)))))"

section \<open>Connecting\<close>

definition stun_servers :: "ice_server list" where
  "stun_servers = [\<lparr>URLs = [''stun:stun.rtc.yandex.net:3478''], Username = [], Credential = []\<rparr>]"

fun tm_attachPendingVideoTracks :: "('w, 't) rtc \<Rightarrow> 't list \<Rightarrow> 'w \<Rightarrow> go_error option \<times> 'w" where
  "tm_attachPendingVideoTracks rtc [] w = (None, w)"
| "tm_attachPendingVideoTracks rtc (track # ts) w =
     (case rtc_AddTrack rtc track w of
        (Some err, w') \<Rightarrow> (Some (Ctx ''add video track'' err), w')
      | (None, w') \<Rightarrow> tm_attachPendingVideoTracks rtc ts w')"

definition setupPeerConnections ::
    "('w, 't) rtc \<Rightarrow> ('w, 't, 'h) telemost \<times> 'w \<Rightarrow> go_error option \<times> ('w, 't, 'h) telemost \<times> 'w" where
  "setupPeerConnections rtc = (\<lambda>(p, w).
     case rtc_NewPeerConnection rtc Subscriber stun_servers w of
       (Some err, w1) \<Rightarrow> (Some (Ctx ''new sub pc'' err), p\<lparr>wp_pcSub := False\<rparr>, w1)
     | (None, w1) \<Rightarrow>
         (case rtc_NewPeerConnection rtc Publisher stun_servers w1 of
            (Some err, w2) \<Rightarrow> (Some (Ctx ''new pub pc'' err), p\<lparr>wp_pcSub := True, wp_pcPub := False\<rparr>, w2)
          | (None, w2) \<Rightarrow>
              (case tm_attachPendingVideoTracks rtc (wp_videoTracks p) w2 of
                 (e, w3) \<Rightarrow> (e, p\<lparr>wp_pcSub := True, wp_pcPub := True\<rparr>, w3))))"

definition tm_dialWebSocket ::
    "('w, 't) rtc \<Rightarrow> ('w, 't, 'h) telemost \<times> 'w \<Rightarrow> go_error option \<times> ('w, 't, 'h) telemost \<times> 'w" where
  "tm_dialWebSocket rtc = (\<lambda>(p, w).
     case ws_Dial rtc (ci_MediaServerURL (tm_conn p)) w of
       (Some err, w1) \<Rightarrow> (Some (Ctx ''dial ws'' err), p, w1)
     | (None, w1) \<Rightarrow> (None, p\<lparr>wp_ws := True\<rparr>, w1))"

definition tm_wait :: "bool \<Rightarrow> wait_result \<Rightarrow> go_error option" where
  "tm_wait hasDc r =
     (case r of
        Signalled \<Rightarrow> None
      | Timeout \<Rightarrow> Some (if hasDc then tm_ErrDataChannelTimeout else tm_ErrSubscriberMediaTimeout)
      | Cancelled err \<Rightarrow> Some (Ctx ''connect context cancelled'' err))"

text \<open>\<open>Connect\<close>; \<open>wait\<close> is how its last wait ends. Whether \<open>sendHello\<close> fails is not looked at.\<close>

definition tm_Connect ::
    "('w, 't) rtc \<Rightarrow> nat \<Rightarrow> wait_result \<Rightarrow> ('w, 't, 'h) telemost \<times> 'w \<Rightarrow>
     go_error option \<times> ('w, 't, 'h) telemost \<times> 'w" where
  "tm_Connect rtc numCPU wait = (\<lambda>(p, w).
     case setupPeerConnections rtc (tm_resetMediaState (p\<lparr>wp_closed := False\<rparr>), w) of
       (Some err, p1, w1) \<Rightarrow> (Some err, p1, w1)
     | (None, p1, w1) \<Rightarrow>
         (let p2 = resetSession p1 in
          case (if wp_onData p2 then rtc_CreateDataChannel rtc ''olcrtc'' w1 else (None, w1)) of
            (Some err, w2) \<Rightarrow> (Some (Ctx ''create dc'' err), p2\<lparr>wp_dc := False\<rparr>, w2)
          | (None, w2) \<Rightarrow>
              (case tm_dialWebSocket rtc (if wp_onData p2 then p2\<lparr>wp_dc := True\<rparr> else p2, w2) of
                 (Some err, p3, w3) \<Rightarrow> (Some err, p3, w3)
               | (None, p3, w3) \<Rightarrow>
                   (tm_wait (wp_onData p3) wait, p3, snd (sendHello rtc numCPU p3 w3)))))"

section \<open>Data\<close>

definition onDataChannelClose :: "'w \<Rightarrow> ('w, 't, 'h) telemost \<Rightarrow> ('w, 't, 'h) telemost" where
  "onDataChannelClose w p = (if wp_closed p then p else tm_queueReconnect w p)"

definition onDataChannelMessage :: "bytes \<Rightarrow> ('w, 't, 'h) telemost \<Rightarrow> ('w, 't, 'h) telemost" where
  "onDataChannelMessage data p =
     (if wp_onData p \<and> data \<noteq> [] then p\<lparr>wp_app := wp_app p @ [data]\<rparr> else p)"

text \<open>\<open>Send\<close>: what it can return now; the timeout is possible while the queue is full.\<close>

definition tm_Send ::
    "('w, 't) rtc \<Rightarrow> bytes \<Rightarrow> ('w, 't, 'h) telemost \<times> 'w \<Rightarrow> go_error option \<times> ('w, 't, 'h) telemost \<times> 'w" where
  "tm_Send rtc data = (\<lambda>(p, w).
     if \<not> wp_dc p \<or> dc_ReadyState rtc w \<noteq> DC_Open then (Some tm_ErrDataChannelNotReady, p, w)
     else if wp_sendQueueClosed p then (Some tm_ErrSendQueueClosed, p, w)
     else (case chan_send sendQueue_cap data (wp_sendQueue p) of
             Some q \<Rightarrow> (None, p\<lparr>wp_sendQueue := q\<rparr>, w)
           | None \<Rightarrow> (Some tm_ErrSendQueueTimeout, p, w)))"

text \<open>
  A worker belongs to a session and is at the \<open>select\<close> of \<open>processSendQueue\<close> (\<open>Idle\<close>), in
  \<open>waitBufferedAmount\<close> since a time with a message in hand, or about to send that message.
\<close>

datatype worker_phase = Idle | Draining bytes int | Sending bytes

record worker =
  wk_session :: nat
  wk_phase :: worker_phase

definition numWorkers :: nat where "numWorkers = 4"
definition bufferedLimit :: u64 where "bufferedLimit = 512 * 1024"

text \<open>The data channel opened: the workers of the session.\<close>

definition tm_dc_OnOpen :: "nat \<Rightarrow> worker list \<Rightarrow> worker list" where
  "tm_dc_OnOpen session ws = ws @ replicate numWorkers \<lparr>wk_session = session, wk_phase = Idle\<rparr>"

text \<open>\<open>waitBufferedAmount\<close> between two looks at the buffer: \<open>None\<close> leaves with an error.\<close>

definition waitBufferedAmount ::
    "('w, 't) rtc \<Rightarrow> int \<Rightarrow> bool \<Rightarrow> bytes \<Rightarrow> int \<Rightarrow> ('w, 't, 'h) telemost \<times> 'w \<Rightarrow> worker_phase option list" where
  "waitBufferedAmount rtc now sessionClosed data start = (\<lambda>(p, w).
     if dc_BufferedAmount rtc w \<le> bufferedLimit then [Some (Sending data)]
     else (if sessionClosed \<or> wp_closeCh p then [None] else [])
        @ [Some (if now - start > 5 * second then Sending data else Draining data start)])"

text \<open>A step of a worker: every choice it has. The phase after it is \<open>None\<close> when the worker returns.\<close>

definition tm_processSendQueue ::
    "('w, 't) rtc \<Rightarrow> int \<Rightarrow> worker \<Rightarrow> ('w, 't, 'h) telemost \<times> 'w \<Rightarrow>
     (worker_phase option \<times> ('w, 't, 'h) telemost \<times> 'w) list" where
  "tm_processSendQueue rtc now wk = (\<lambda>(p, w).
     let sessionClosed = tm_sessions p ! wk_session wk in
     case wk_phase wk of
       Idle \<Rightarrow>
         (if sessionClosed \<or> wp_closeCh p then [(None, p, w)] else [])
         @ (case chan_recv (wp_sendQueue p) of
              None \<Rightarrow> []
            | Some (data, q) \<Rightarrow>
                [(Some (if int (length data) > MaxMessageSize (tm_trafficShape p) then Idle else Draining data now),
                  p\<lparr>wp_sendQueue := q\<rparr>, w)])
     | Draining data start \<Rightarrow>
         map (\<lambda>ph. (ph, p, w)) (waitBufferedAmount rtc now sessionClosed data start (p, w))
     | Sending data \<Rightarrow>
         (case dc_Send rtc data w of
            (Some err, w') \<Rightarrow> [(None, tm_queueReconnect w' p, w')]
          | (None, w') \<Rightarrow> [(Some Idle, p, w')]))"

text \<open>The pause after a message; \<open>rand n\<close> is a number from 0 to \<open>n - 1\<close>.\<close>

definition calculateDelay :: "(int \<Rightarrow> int) \<Rightarrow> ('w, 't, 'h) telemost \<Rightarrow> int" where
  "calculateDelay rand p =
     (let minDelay = MinDelay (tm_trafficShape p); maxDelay = MaxDelay (tm_trafficShape p) in
      if maxDelay \<le> minDelay then minDelay else minDelay + rand (maxDelay - minDelay))"

section \<open>Closing\<close>

definition tm_shutdown_connections :: "('w, 't) rtc \<Rightarrow> ('w, 't, 'h) telemost \<Rightarrow> 'w \<Rightarrow> 'w" where
  "tm_shutdown_connections rtc p w =
     (let w1 = (if wp_dc p then dc_Close rtc w else w);
          w2 = (if wp_pcPub p then rtc_ClosePC rtc Publisher w1 else w1);
          w3 = (if wp_pcSub p then rtc_ClosePC rtc Subscriber w2 else w2)
      in if wp_ws p then ws_Shutdown rtc w3 else w3)"

text \<open>\<open>Close\<close> up to the wait for the acknowledgement of the leave message: the identifier it waits for,
  or none when it does not wait.\<close>

definition tm_close_begin ::
    "('w, 't) rtc \<Rightarrow> ('w, 't, 'h) telemost \<times> 'w \<Rightarrow> string option \<times> ('w, 't, 'h) telemost \<times> 'w" where
  "tm_close_begin rtc = (\<lambda>(p, w).
     let p1 = p\<lparr>wp_closed := True, wp_sendQueueClosed := True\<rparr> in
     if wp_closed p then (None, p1, w)
     else (case uuid_New rtc w of (leaveUID, w1) \<Rightarrow>
          (case sendLeave rtc leaveUID p1 w1 of
             (True, w2) \<Rightarrow> (Some leaveUID, registerAckWaiter leaveUID p1, w2)
           | (False, w2) \<Rightarrow> (None, removeAckWaiter leaveUID (registerAckWaiter leaveUID p1), w2))))"

text \<open>The rest of \<open>Close\<close>, up to the wait for the goroutines.\<close>

definition tm_close_end ::
    "('w, 't) rtc \<Rightarrow> ('w, 't, 'h) telemost \<times> 'w \<Rightarrow> ('w, 't, 'h) telemost \<times> 'w" where
  "tm_close_end rtc = (\<lambda>(p, w).
     (stopSession (p\<lparr>wp_closeCh := True\<rparr>), tm_shutdown_connections rtc p w))"

section \<open>Reconnecting\<close>

text \<open>\<open>reconnect\<close> up to its pause of three seconds, and the rest of it.\<close>

definition reconnect_begin ::
    "('w, 't) rtc \<Rightarrow> ('w, 't, 'h) telemost \<times> 'w \<Rightarrow> ('w, 't, 'h) telemost \<times> 'w" where
  "reconnect_begin rtc = (\<lambda>(p, w).
     let p1 = p\<lparr>wp_reconnecting := True\<rparr> in
     case uuid_New rtc w of (uid, w1) \<Rightarrow>
       (let w2 = snd (sendLeave rtc uid p1 w1);
            p2 = stopSession p1;
            w3 = tm_shutdown_connections rtc p2 w2
        in (p2, case wp_onReconnect p2 of None \<Rightarrow> w3 | Some cb \<Rightarrow> cb False w3)))"

definition reconnect_end ::
    "'w http \<Rightarrow> ('w, 't) rtc \<Rightarrow> nat \<Rightarrow> string \<Rightarrow> string \<Rightarrow> wait_result \<Rightarrow> ('w, 't, 'h) telemost \<times> 'w \<Rightarrow>
     go_error option \<times> ('w, 't, 'h) telemost \<times> 'w" where
  "reconnect_end h rtc numCPU instance_id key wait = (\<lambda>(p, w).
     case GetConnectionInfo h instance_id key (tm_roomURL p) (wp_name p) w of
       (Inl err, w1) \<Rightarrow> (Some (Ctx ''reconnect get info'' err), p\<lparr>wp_reconnecting := False\<rparr>, w1)
     | (Inr conn, w1) \<Rightarrow>
         (case tm_Connect rtc numCPU wait (p\<lparr>tm_conn := conn\<rparr>, w1) of
            (Some err, p2, w2) \<Rightarrow> (Some err, p2\<lparr>wp_reconnecting := False\<rparr>, w2)
          | (None, p2, w2) \<Rightarrow>
              (None, (tm_drainReconnectQueue p2)\<lparr>wp_reconnecting := False\<rparr>,
               case wp_onReconnect p2 of None \<Rightarrow> w2 | Some cb \<Rightarrow> cb (wp_dc p2) w2)))"

definition maxReconnects :: int where "maxReconnects = 10"
definition reconnectWindow :: int where "reconnectWindow = 300 * second"

text \<open>\<open>handleReconnectAttempt\<close> up to its retries: the call ends, or it retries with a backoff.\<close>

definition handleReconnectAttempt ::
    "int \<Rightarrow> ('w, 't, 'h) telemost \<times> 'w \<Rightarrow> int option \<times> ('w, 't, 'h) telemost \<times> 'w" where
  "handleReconnectAttempt now = (\<lambda>(p, w).
     let fresh = (case tm_lastReconnect p of None \<Rightarrow> True | Some t \<Rightarrow> now - t > reconnectWindow);
         count = (if fresh then 0 else tm_reconnectCount p) + 1;
         p1 = p\<lparr>tm_reconnectCount := count, tm_lastReconnect := Some now\<rparr>
     in if count > maxReconnects
        then (case signalEnded ''reconnect limit reached'' (p1, w) of (p2, w2) \<Rightarrow> (None, p2, w2))
        else (Some (min (count * 2 * second) (30 * second)), p1, w))"

text \<open>\<open>retryReconnect\<close> after an attempt with result \<open>r\<close>: every way to go on. \<open>None\<close> tries again; otherwise
  the flag says whether \<open>WatchConnection\<close> is to return.\<close>

definition retryReconnect :: "go_error option \<Rightarrow> bool \<Rightarrow> bool \<Rightarrow> ('w, 't, 'h) telemost \<Rightarrow> bool option list" where
  "retryReconnect r finished elapsed p =
     (if r = None then [Some False]
      else (if finished \<or> wp_closeCh p then [Some True] else []) @ (if elapsed then [None] else []))"

text \<open>A round of \<open>WatchConnection\<close>: it returns, or takes a request to reconnect.\<close>

definition tm_WatchConnection :: "bool \<Rightarrow> ('w, 't, 'h) telemost \<Rightarrow> (bool \<times> ('w, 't, 'h) telemost) list" where
  "tm_WatchConnection finished p =
     (if finished \<or> wp_closeCh p then [(False, p)] else [])
     @ (if wp_reconnectCh p then [(True, p\<lparr>wp_reconnectCh := False\<rparr>)] else [])"

section \<open>The rest of the interface\<close>

definition tm_SetReconnectCallback ::
    "(bool \<Rightarrow> 'w \<Rightarrow> 'w) option \<Rightarrow> ('w, 't, 'h) telemost \<Rightarrow> ('w, 't, 'h) telemost" where
  "tm_SetReconnectCallback cb p = p\<lparr>wp_onReconnect := cb\<rparr>"

definition tm_SetShouldReconnect :: "('w \<Rightarrow> bool) option \<Rightarrow> ('w, 't, 'h) telemost \<Rightarrow> ('w, 't, 'h) telemost" where
  "tm_SetShouldReconnect fn p = p\<lparr>wp_shouldReconnect := fn\<rparr>"

definition tm_SetEndedCallback ::
    "(string \<Rightarrow> 'w \<Rightarrow> 'w) option \<Rightarrow> ('w, 't, 'h) telemost \<Rightarrow> ('w, 't, 'h) telemost" where
  "tm_SetEndedCallback cb p = p\<lparr>wp_onEnded := cb\<rparr>"

definition tm_GetSendQueue :: "('w, 't, 'h) telemost \<Rightarrow> bytes list" where
  "tm_GetSendQueue p = wp_sendQueue p"

definition tm_CanSend :: "('w, 't) rtc \<Rightarrow> ('w, 't, 'h) telemost \<times> 'w \<Rightarrow> bool" where
  "tm_CanSend rtc = (\<lambda>(p, w).
     if \<not> wp_onData p
     then (if tm_hasLocalVideoTracks p then \<not> wp_closed p \<and> wp_subscriberReady p \<and> wp_publisherReady p
           else \<not> wp_closed p \<and> wp_subscriberReady p)
     else if \<not> wp_dc p \<or> dc_ReadyState rtc w \<noteq> DC_Open then False
     else length (wp_sendQueue p) < 4000)"

definition tm_AddVideoTrack ::
    "('w, 't) rtc \<Rightarrow> 't \<Rightarrow> ('w, 't, 'h) telemost \<times> 'w \<Rightarrow> go_error option \<times> ('w, 't, 'h) telemost \<times> 'w" where
  "tm_AddVideoTrack rtc track = (\<lambda>(p, w).
     let p1 = p\<lparr>wp_videoTracks := wp_videoTracks p @ [track]\<rparr> in
     if \<not> wp_pcPub p1 then (None, p1, w)
     else (case rtc_AddTrack rtc track w of
             (Some err, w') \<Rightarrow> (Some (Ctx ''failed to add track'' err), p1, w')
           | (None, w') \<Rightarrow> (None, p1, w')))"

definition tm_SetVideoTrackHandler :: "'h option \<Rightarrow> ('w, 't, 'h) telemost \<Rightarrow> ('w, 't, 'h) telemost" where
  "tm_SetVideoTrackHandler cb p = p\<lparr>wp_onVideoTrack := cb\<rparr>"

text \<open>The handler a remote track is given to, if any.\<close>

definition tm_OnTrack :: "bool \<Rightarrow> ('w, 't, 'h) telemost \<Rightarrow> 'h option" where
  "tm_OnTrack isVideo p = (if isVideo then wp_onVideoTrack p else None)"

end
