(* ===== verification/Telemost_Contract.thy ===== *)
theory Telemost_Contract
  imports Telemost_Ops "HOL-Library.Multiset"
begin

text \<open>
  What the Telemost peer guarantees of its send path and of its reconnects: where every accepted
  message is, and when the peer gives up.
\<close>

section \<open>The send path as a system\<close>

text \<open>A peer with its world and workers, and the history: the messages \<open>Send\<close> accepted, those handed to
  the data channel, and those dropped or lost by a worker that returned.\<close>

record ('w, 't, 'h) tm_sys =
  ts_peer :: "('w, 't, 'h) telemost"
  ts_world :: 'w
  ts_workers :: "worker list"
  ts_accepted :: "bytes list"
  ts_sent :: "bytes list"
  ts_lost :: "bytes list"

fun held :: "worker_phase \<Rightarrow> bytes list" where
  "held Idle = []"
| "held (Draining d _) = [d]"
| "held (Sending d) = [d]"

definition sent_by :: "worker_phase \<Rightarrow> worker_phase option \<Rightarrow> bytes list" where
  "sent_by before after = (case before of Sending d \<Rightarrow> if after = None then [] else [d] | _ \<Rightarrow> [])"

definition lost_by :: "bytes list \<Rightarrow> worker_phase \<Rightarrow> worker_phase option \<Rightarrow> bytes list" where
  "lost_by queue before after =
     (case before of
        Idle \<Rightarrow> if after = Some Idle then take 1 queue else []
      | _ \<Rightarrow> if after = None then held before else [])"

definition put_worker :: "nat \<Rightarrow> worker_phase option \<Rightarrow> worker list \<Rightarrow> worker list" where
  "put_worker i ph ws =
     (case ph of None \<Rightarrow> take i ws @ drop (Suc i) ws | Some x \<Rightarrow> ws[i := (ws ! i)\<lparr>wk_phase := x\<rparr>])"

inductive tm_step ::
    "'w http \<Rightarrow> ('w, 't) rtc \<Rightarrow> floats \<Rightarrow> nat \<Rightarrow> ('w, 't, 'h) tm_sys \<Rightarrow> ('w, 't, 'h) tm_sys \<Rightarrow> bool"
  for h rtc fl numCPU where
  Send: "tm_Send rtc data (ts_peer s, ts_world s) = (r, p, w) \<Longrightarrow>
     tm_step h rtc fl numCPU s (s\<lparr>ts_peer := p, ts_world := w,
       ts_accepted := ts_accepted s @ (if r = None then [data] else [])\<rparr>)"
| Open: "tm_step h rtc fl numCPU s
     (s\<lparr>ts_workers := tm_dc_OnOpen (length (tm_sessions (ts_peer s)) - 1) (ts_workers s)\<rparr>)"
| Work: "i < length (ts_workers s) \<Longrightarrow>
     (ph, p, w) \<in> set (tm_processSendQueue rtc now (ts_workers s ! i) (ts_peer s, ts_world s)) \<Longrightarrow>
     tm_step h rtc fl numCPU s (s\<lparr>ts_peer := p, ts_world := w, ts_workers := put_worker i ph (ts_workers s),
       ts_sent := ts_sent s @ sent_by (wk_phase (ts_workers s ! i)) ph,
       ts_lost := ts_lost s @ lost_by (wp_sendQueue (ts_peer s)) (wk_phase (ts_workers s ! i)) ph\<rparr>)"
| Signal: "tm_handleSignaling rtc fl r pubSent (ts_peer s, ts_world s) = (go, pubSent', p, w) \<Longrightarrow>
     tm_step h rtc fl numCPU s (s\<lparr>ts_peer := p, ts_world := w\<rparr>)"
| Connect: "tm_Connect rtc numCPU wait (ts_peer s, ts_world s) = (e, p, w) \<Longrightarrow>
     tm_step h rtc fl numCPU s (s\<lparr>ts_peer := p, ts_world := w\<rparr>)"
| CloseBegin: "tm_close_begin rtc (ts_peer s, ts_world s) = (uid, p, w) \<Longrightarrow>
     tm_step h rtc fl numCPU s (s\<lparr>ts_peer := p, ts_world := w\<rparr>)"
| CloseEnd: "tm_close_end rtc (ts_peer s, ts_world s) = (p, w) \<Longrightarrow>
     tm_step h rtc fl numCPU s (s\<lparr>ts_peer := p, ts_world := w\<rparr>)"
| ReconnectBegin: "reconnect_begin rtc (ts_peer s, ts_world s) = (p, w) \<Longrightarrow>
     tm_step h rtc fl numCPU s (s\<lparr>ts_peer := p, ts_world := w\<rparr>)"
| ReconnectEnd: "reconnect_end h rtc numCPU u k wait (ts_peer s, ts_world s) = (e, p, w) \<Longrightarrow>
     tm_step h rtc fl numCPU s (s\<lparr>ts_peer := p, ts_world := w\<rparr>)"

definition tm_start :: "string \<Rightarrow> ConnectionInfo \<Rightarrow> 'w \<Rightarrow> ('w, 't, 'h) tm_sys" where
  "tm_start name conn w =
     \<lparr>ts_peer = wpeer.extend (wpeer_new name True)
        (telemost.fields [] conn [False] [] [] False None False None 0
          \<lparr>MaxMessageSize = realDataChannelMessageLimit, MinDelay = defaultSendDelayLow,
           MaxDelay = defaultSendDelayMax\<rparr>),
      ts_world = w, ts_workers = [], ts_accepted = [], ts_sent = [], ts_lost = []\<rparr>"

inductive tm_reachable ::
    "'w http \<Rightarrow> ('w, 't) rtc \<Rightarrow> floats \<Rightarrow> nat \<Rightarrow> ('w, 't, 'h) tm_sys \<Rightarrow> bool" for h rtc fl numCPU where
  start: "tm_reachable h rtc fl numCPU (tm_start name conn w)"
| step: "tm_reachable h rtc fl numCPU s \<Longrightarrow> tm_step h rtc fl numCPU s s' \<Longrightarrow> tm_reachable h rtc fl numCPU s'"

section \<open>What the steps leave alone\<close>

definition same_queue :: "('w, 't, 'h) telemost \<Rightarrow> ('w, 't, 'h) telemost \<Rightarrow> bool" where
  "same_queue p p' \<longleftrightarrow> wp_sendQueue p' = wp_sendQueue p \<and> tm_trafficShape p' = tm_trafficShape p"

lemma same_queue_refl [simp]: "same_queue p p"
  by (simp add: same_queue_def)

lemma same_queue_trans: "same_queue p p' \<Longrightarrow> same_queue p' p'' \<Longrightarrow> same_queue p p''"
  by (simp add: same_queue_def)

lemma same_queue_small:
  "same_queue p (tm_queueReconnect w p)" "same_queue p (stopTelemetry p)" "same_queue p (stopSession p)"
  "same_queue p (tm_resolveAck uid p)" "same_queue p (startTelemetry fl hello p)"
  "same_queue p (tm_drainReconnectQueue p)" "same_queue p (resetSession p)"
  by (auto simp: same_queue_def tm_queueReconnect_def stopTelemetry_def stopSession_def tm_resolveAck_def
      startTelemetry_def tm_drainReconnectQueue_def resetSession_def Let_def split: option.splits)

lemma same_queue_signalEnded: "same_queue p (fst (signalEnded reason (p, w)))"
  by (auto simp: signalEnded_def same_queue_def stopTelemetry_def)

lemma same_queue_events: "same_queue p (fst (handleMessageEvents rtc fl msg uid (p, w)))"
  using same_queue_small(4) [of p uid] same_queue_small(5) [of _ fl]
  by (auto simp: handleMessageEvents_def Let_def intro: same_queue_trans split: option.splits)

lemma same_queue_signaling:
  assumes "tm_handleSignaling rtc fl r pubSent (p, w) = (go, pubSent', p', w')"
  shows "same_queue p p'"
proof (cases "ReadJSON r")
  case None
  with assms show ?thesis by (auto simp: tm_handleSignaling_def same_queue_small)
next
  case (Some msg)
  obtain p1 w1 where e: "handleMessageEvents rtc fl msg (get_string ''uid'' msg) (p, w) = (p1, w1)" by fastforce
  have p1: "same_queue p p1" using same_queue_events [of p rtc fl msg "get_string ''uid'' msg" w] by (simp add: e)
  have "fst (snd (snd (tm_handleSignaling rtc fl r pubSent (p, w)))) =
      (if isConferenceEndMessage msg then fst (signalEnded ''conference ended'' (p1, w1)) else p1)"
    by (simp add: tm_handleSignaling_def Some Let_def e split: prod.split option.split sum.split)
  then have "p' = (if isConferenceEndMessage msg then fst (signalEnded ''conference ended'' (p1, w1)) else p1)"
    unfolding assms fst_conv snd_conv .
  then show ?thesis using p1 same_queue_trans [OF p1 same_queue_signalEnded] by simp
qed

lemma same_queue_setup: "same_queue p (fst (snd (setupPeerConnections rtc (p, w))))"
  by (auto simp: setupPeerConnections_def same_queue_def split: prod.splits option.splits)

lemma same_queue_dial: "same_queue p (fst (snd (tm_dialWebSocket rtc (p, w))))"
  by (auto simp: tm_dialWebSocket_def same_queue_def split: prod.splits option.splits)

lemma same_queue_Connect:
  assumes "tm_Connect rtc numCPU wait (p, w) = (e, p', w')"
  shows "same_queue p p'"
proof -
  let ?p0 = "tm_resetMediaState (p\<lparr>wp_closed := False\<rparr>)"
  obtain e1 p1 w1 where s: "setupPeerConnections rtc (?p0, w) = (e1, p1, w1)" by (rule prod_cases3)
  have "same_queue p ?p0" by (simp add: same_queue_def tm_resetMediaState_def)
  moreover have "same_queue ?p0 p1" using same_queue_setup [of ?p0 rtc w] s by simp
  ultimately have p1: "same_queue p p1" by (rule same_queue_trans)
  show ?thesis
  proof (cases e1)
    case (Some err)
    with s assms p1 show ?thesis by (simp add: tm_Connect_def)
  next
    case None
    let ?p2 = "resetSession p1"
    have p2: "same_queue p ?p2" by (rule same_queue_trans [OF p1 same_queue_small(7)])
    obtain e2 w2 where d: "(if wp_onData ?p2 then rtc_CreateDataChannel rtc ''olcrtc'' w1 else (None, w1)) = (e2, w2)"
      by fastforce
    let ?p3 = "if wp_onData ?p2 then ?p2\<lparr>wp_dc := True\<rparr> else ?p2"
    obtain e3 p3 w3 where ws: "tm_dialWebSocket rtc (?p3, w2) = (e3, p3, w3)" by (rule prod_cases3)
    have "same_queue ?p3 p3" using same_queue_dial [of ?p3 rtc w2] ws by simp
    moreover have "same_queue p ?p3" using p2 by (simp add: same_queue_def)
    ultimately have p3: "same_queue p p3" by (rule same_queue_trans [rotated])
    show ?thesis
      using assms [unfolded tm_Connect_def prod.case s None option.case Let_def d ws] p2 p3
      by (cases e2; cases e3) (auto simp: same_queue_def)
  qed
qed

lemma same_queue_close:
  "tm_close_begin rtc (p, w) = (uid, p', w') \<Longrightarrow> same_queue p p'"
  "tm_close_end rtc (p, w) = (p', w') \<Longrightarrow> same_queue p p'"
  "reconnect_begin rtc (p, w) = (p', w') \<Longrightarrow> same_queue p p'"
  by (auto simp: tm_close_begin_def tm_close_end_def reconnect_begin_def same_queue_def Let_def
      registerAckWaiter_def removeAckWaiter_def stopSession_def stopTelemetry_def split: prod.splits if_splits bool.splits)

lemma same_queue_reconnect_end:
  assumes "reconnect_end h rtc numCPU u k wait (p, w) = (e, p', w')"
  shows "same_queue p p'"
proof -
  obtain r w1 where g: "GetConnectionInfo h u k (tm_roomURL p) (wp_name p) w = (r, w1)" by fastforce
  show ?thesis
  proof (cases r)
    case (Inl err)
    with g assms show ?thesis by (auto simp: reconnect_end_def same_queue_def)
  next
    case (Inr conn)
    obtain e2 p2 w2 where c: "tm_Connect rtc numCPU wait (p\<lparr>tm_conn := conn\<rparr>, w1) = (e2, p2, w2)"
      by (rule prod_cases3)
    have "same_queue (p\<lparr>tm_conn := conn\<rparr>) p2" by (rule same_queue_Connect [OF c])
    with g Inr c assms show ?thesis
      by (cases e2) (auto simp: reconnect_end_def same_queue_def tm_drainReconnectQueue_def)
  qed
qed

text \<open>\<open>Connect\<close> clears the closed flag.\<close>

lemma Connect_reopens:
  assumes "tm_Connect rtc numCPU wait (p, w) = (e, p', w')"
  shows "\<not> wp_closed p'"
  using assms
  by (auto simp: tm_Connect_def setupPeerConnections_def tm_dialWebSocket_def tm_resetMediaState_def
      resetSession_def Let_def split: prod.splits option.splits if_splits)

section \<open>Where every message is\<close>

definition in_hand :: "worker list \<Rightarrow> bytes list" where
  "in_hand ws = concat (map (\<lambda>wk. held (wk_phase wk)) ws)"

lemma in_hand_split:
  "i < length ws \<Longrightarrow> mset (in_hand ws) = mset (held (wk_phase (ws ! i))) + mset (in_hand (take i ws @ drop (Suc i) ws))"
  by (subst id_take_nth_drop [of i ws]) (simp_all add: in_hand_def)

lemma in_hand_put:
  assumes "i < length ws"
  shows "mset (in_hand (put_worker i ph ws)) =
     (case ph of None \<Rightarrow> {#} | Some x \<Rightarrow> mset (held x)) + mset (in_hand (take i ws @ drop (Suc i) ws))"
  using assms by (auto simp: put_worker_def upd_conv_take_nth_drop in_hand_def split: option.split)

lemma in_hand_Open [simp]: "in_hand (tm_dc_OnOpen session ws) = in_hand ws"
  by (simp add: tm_dc_OnOpen_def in_hand_def)

lemma set_in_hand_put:
  assumes "i < length ws" and "d \<in> set (in_hand (put_worker i ph ws))"
  shows "d \<in> set (in_hand ws) \<or> (\<exists>x. ph = Some x \<and> d \<in> set (held x))"
proof -
  have "d \<in># mset (in_hand (put_worker i ph ws))" using assms(2) by simp
  then have "d \<in># (case ph of None \<Rightarrow> {#} | Some x \<Rightarrow> mset (held x)) \<or> d \<in># mset (in_hand (take i ws @ drop (Suc i) ws))"
    unfolding in_hand_put [OF assms(1)] by simp
  moreover have "d \<in># mset (in_hand (take i ws @ drop (Suc i) ws)) \<Longrightarrow> d \<in># mset (in_hand ws)"
    unfolding in_hand_split [OF assms(1)] by simp
  ultimately show ?thesis by (auto split: option.splits)
qed

lemma held_in_hand: "i < length ws \<Longrightarrow> set (held (wk_phase (ws ! i))) \<subseteq> set (in_hand ws)"
  using nth_mem by (fastforce simp: in_hand_def)

text \<open>A worker's step moves a message from the queue to its hand, and from its hand to the channel or away.\<close>

lemma work_cases:
  assumes "(ph, p', w') \<in> set (tm_processSendQueue rtc now wk (p, w))"
  obtains (stop) "ph = None" "wp_sendQueue p' = wp_sendQueue p" "tm_trafficShape p' = tm_trafficShape p"
  | (take) d where "wk_phase wk = Idle" "wp_sendQueue p = d # wp_sendQueue p'"
      "ph = Some (if int (length d) > MaxMessageSize (tm_trafficShape p) then Idle else Draining d now)"
      "tm_trafficShape p' = tm_trafficShape p"
  | (drained) d t where "wk_phase wk = Draining d t" "ph \<in> {Some (Draining d t), Some (Sending d)}" "p' = p"
  | (sent) d where "wk_phase wk = Sending d" "ph = Some Idle" "p' = p"
proof (cases "wk_phase wk")
  case Idle
  with assms show thesis
    by (cases "wp_sendQueue p") (auto simp: tm_processSendQueue_def Let_def intro: stop take)
next
  case (Draining d t)
  with assms show thesis
    by (auto simp: tm_processSendQueue_def waitBufferedAmount_def Let_def intro: stop drained split: if_splits)
next
  case (Sending d)
  with assms show thesis
    by (auto simp: tm_processSendQueue_def tm_queueReconnect_def Let_def intro: stop sent
        split: if_splits prod.splits option.splits)
qed

lemma work_moves:
  assumes "(ph, p', w') \<in> set (tm_processSendQueue rtc now wk (p, w))"
  shows "mset (wp_sendQueue p) + mset (held (wk_phase wk)) =
       mset (wp_sendQueue p') + (case ph of None \<Rightarrow> {#} | Some x \<Rightarrow> mset (held x))
       + mset (sent_by (wk_phase wk) ph) + mset (lost_by (wp_sendQueue p) (wk_phase wk) ph)"
    and "tm_trafficShape p' = tm_trafficShape p"
    and "ph = Some x \<Longrightarrow> d \<in> set (held x) \<Longrightarrow>
       int (length d) \<le> MaxMessageSize (tm_trafficShape p) \<or> d \<in> set (held (wk_phase wk))"
  using assms
  by (cases rule: work_cases; auto simp: sent_by_def lost_by_def split: worker_phase.split if_splits)+

definition tm_inv :: "('w, 't, 'h) tm_sys \<Rightarrow> bool" where
  "tm_inv s \<longleftrightarrow>
     mset (ts_accepted s) = mset (ts_sent s) + mset (ts_lost s) + mset (in_hand (ts_workers s))
       + mset (wp_sendQueue (ts_peer s))
     \<and> tm_trafficShape (ts_peer s) = \<lparr>MaxMessageSize = realDataChannelMessageLimit,
         MinDelay = defaultSendDelayLow, MaxDelay = defaultSendDelayMax\<rparr>
     \<and> (\<forall>d \<in> set (ts_sent s) \<union> set (in_hand (ts_workers s)). int (length d) \<le> realDataChannelMessageLimit)"

lemma tm_inv_same_queue:
  "tm_inv s \<Longrightarrow> same_queue (ts_peer s) p \<Longrightarrow> tm_inv (s\<lparr>ts_peer := p, ts_world := w\<rparr>)"
  by (simp add: tm_inv_def same_queue_def)

lemma tm_inv_Work:
  assumes "tm_inv s" and i: "i < length (ts_workers s)"
    and work: "(ph, p, w) \<in> set (tm_processSendQueue rtc now (ts_workers s ! i) (ts_peer s, ts_world s))"
  shows "tm_inv (s\<lparr>ts_peer := p, ts_world := w, ts_workers := put_worker i ph (ts_workers s),
       ts_sent := ts_sent s @ sent_by (wk_phase (ts_workers s ! i)) ph,
       ts_lost := ts_lost s @ lost_by (wp_sendQueue (ts_peer s)) (wk_phase (ts_workers s ! i)) ph\<rparr>)"
proof -
  let ?before = "wk_phase (ts_workers s ! i)"
  have shape: "tm_trafficShape p = tm_trafficShape (ts_peer s)" by (rule work_moves(2) [OF work])
  have "mset (ts_accepted s) = mset (ts_sent s @ sent_by ?before ph)
      + mset (ts_lost s @ lost_by (wp_sendQueue (ts_peer s)) ?before ph)
      + mset (in_hand (put_worker i ph (ts_workers s))) + mset (wp_sendQueue p)"
    using assms(1) work_moves(1) [OF work] in_hand_split [OF i] in_hand_put [OF i, of ph]
    by (simp add: tm_inv_def ac_simps)
  moreover have "int (length d) \<le> realDataChannelMessageLimit"
    if "d \<in> set (ts_sent s @ sent_by ?before ph) \<union> set (in_hand (put_worker i ph (ts_workers s)))" for d
  proof -
    have "set (sent_by ?before ph) \<subseteq> set (held ?before)"
      by (cases ?before) (auto simp: sent_by_def)
    then have "d \<in> set (ts_sent s) \<union> set (in_hand (ts_workers s)) \<or> (\<exists>x. ph = Some x \<and> d \<in> set (held x))"
      using that set_in_hand_put [OF i] held_in_hand [OF i] by auto
    then have "d \<in> set (ts_sent s) \<union> set (in_hand (ts_workers s))
        \<or> int (length d) \<le> MaxMessageSize (tm_trafficShape (ts_peer s))"
      using work_moves(3) [OF work, of _ d] held_in_hand [OF i] by blast
    then show ?thesis using assms(1) by (auto simp: tm_inv_def)
  qed
  ultimately show ?thesis using assms(1) shape by (simp add: tm_inv_def)
qed

lemma tm_step_inv: "tm_step h rtc fl numCPU s s' \<Longrightarrow> tm_inv s \<Longrightarrow> tm_inv s'"
proof (induction rule: tm_step.induct)
  case (Send data s r p w)
  have "tm_trafficShape p = tm_trafficShape (ts_peer s)
      \<and> wp_sendQueue p = wp_sendQueue (ts_peer s) @ (if r = None then [data] else [])"
    using Send.hyps by (auto simp: tm_Send_def chan_send_def split: if_splits option.splits)
  with Send.prems show ?case by (simp add: tm_inv_def)
next
  case (Open s)
  then show ?case by (simp add: tm_inv_def)
next
  case (Work i s ph p w now)
  then show ?case by (intro tm_inv_Work)
next
  case (Signal r pubSent s go pubSent' p w)
  then show ?case by (intro tm_inv_same_queue same_queue_signaling)
next
  case (Connect wait s e p w)
  then show ?case by (intro tm_inv_same_queue same_queue_Connect)
next
  case (CloseBegin s uid p w)
  then show ?case by (intro tm_inv_same_queue same_queue_close(1))
next
  case (CloseEnd s p w)
  then show ?case by (intro tm_inv_same_queue same_queue_close(2))
next
  case (ReconnectBegin s p w)
  then show ?case by (intro tm_inv_same_queue same_queue_close(3))
next
  case (ReconnectEnd u k wait s e p w)
  then show ?case by (intro tm_inv_same_queue same_queue_reconnect_end)
qed

lemma tm_start_fields [simp]:
  "wp_sendQueue (ts_peer (tm_start name conn w)) = []" "ts_workers (tm_start name conn w) = []"
  "ts_accepted (tm_start name conn w) = []" "ts_sent (tm_start name conn w) = []"
  "ts_lost (tm_start name conn w) = []" "ts_world (tm_start name conn w) = w"
  "tm_trafficShape (ts_peer (tm_start name conn w)) =
     \<lparr>MaxMessageSize = realDataChannelMessageLimit, MinDelay = defaultSendDelayLow, MaxDelay = defaultSendDelayMax\<rparr>"
  by (simp_all add: tm_start_def wpeer.defs telemost.defs wpeer_new_def)

lemma tm_reachable_inv: "tm_reachable h rtc fl numCPU s \<Longrightarrow> tm_inv s"
proof (induction rule: tm_reachable.induct)
  case (start name conn w)
  show ?case by (simp add: tm_inv_def in_hand_def)
qed (rule tm_step_inv)

section \<open>Properties\<close>


section \<open>The workers can reorder\<close>


text \<open>The fields of a state that the run below is about.\<close>

type_synonym run_sys = "(bytes list, unit, unit) tm_sys"

definition run_at ::
    "bytes list http \<Rightarrow> floats \<Rightarrow> run_sys \<Rightarrow> bytes list \<Rightarrow> worker_phase list \<Rightarrow> bytes list \<Rightarrow> bytes list \<Rightarrow> bool" where
  "run_at h fl s queue phases accepted sent \<longleftrightarrow>
     tm_reachable h example_rtc fl 1 s \<and> wp_dc (ts_peer s) \<and> \<not> wp_sendQueueClosed (ts_peer s)
     \<and> wp_sendQueue (ts_peer s) = queue \<and> map wk_phase (ts_workers s) = phases
     \<and> ts_accepted s = accepted \<and> ts_sent s = sent"

lemma run_limit: "run_at h fl s q phs acc sent \<Longrightarrow> MaxMessageSize (tm_trafficShape (ts_peer s)) = 12288"
  using tm_reachable_inv [of h example_rtc fl 1 s] by (simp add: run_at_def tm_inv_def realDataChannelMessageLimit_def)

lemma run_step: "run_at h fl s q phs acc sent \<Longrightarrow> tm_step h example_rtc fl 1 s s' \<Longrightarrow> tm_reachable h example_rtc fl 1 s'"
  unfolding run_at_def by (blast intro: tm_reachable.step)

lemma run_Send:
  assumes run: "run_at h fl s q phs acc sent" and "length q < 5000"
  shows "\<exists>s'. run_at h fl s' (q @ [d]) phs (acc @ [d]) sent"
proof -
  have sent: "tm_Send example_rtc d (ts_peer s, ts_world s) =
      (None, (ts_peer s)\<lparr>wp_sendQueue := q @ [d]\<rparr>, ts_world s)"
    using assms by (simp add: run_at_def tm_Send_def example_rtc_def chan_send_def sendQueue_cap_def)
  let ?s' = "s\<lparr>ts_peer := (ts_peer s)\<lparr>wp_sendQueue := q @ [d]\<rparr>, ts_world := ts_world s,
      ts_accepted := ts_accepted s @ (if (None :: go_error option) = None then [d] else [])\<rparr>"
  have "tm_reachable h example_rtc fl 1 ?s'"
    by (rule run_step [OF run tm_step.Send [OF sent]])
  with run show ?thesis by (intro exI [of _ ?s']) (simp add: run_at_def)
qed

lemma run_Work:
  assumes run: "run_at h fl s q phs acc sent" and "i < length phs"
    and "\<And>wk. wk_phase wk = phs ! i \<Longrightarrow>
      (Some x, (ts_peer s)\<lparr>wp_sendQueue := q'\<rparr>, w) \<in> set (tm_processSendQueue example_rtc 0 wk (ts_peer s, ts_world s))"
  shows "\<exists>s'. run_at h fl s' q' (phs[i := x]) acc (sent @ sent_by (phs ! i) (Some x))"
proof -
  have i: "i < length (ts_workers s)" "wk_phase (ts_workers s ! i) = phs ! i"
    using assms(1,2) by (auto simp: run_at_def)
  let ?s' = "s\<lparr>ts_peer := (ts_peer s)\<lparr>wp_sendQueue := q'\<rparr>, ts_world := w,
      ts_workers := put_worker i (Some x) (ts_workers s),
      ts_sent := ts_sent s @ sent_by (wk_phase (ts_workers s ! i)) (Some x),
      ts_lost := ts_lost s @ lost_by (wp_sendQueue (ts_peer s)) (wk_phase (ts_workers s ! i)) (Some x)\<rparr>"
  have "tm_reachable h example_rtc fl 1 ?s'"
    by (rule run_step [OF run tm_step.Work [OF i(1) assms(3) [OF i(2)]]])
  with run i show ?thesis
    by (intro exI [of _ ?s']) (simp add: run_at_def put_worker_def map_update)
qed

lemma run_queue: "run_at h fl s queue phs acc sent \<Longrightarrow> wp_sendQueue (ts_peer s) = queue"
  by (simp add: run_at_def)

lemma take_choice:
  assumes "run_at h fl s (d # q) phs acc sent" and "length d \<le> 12288" and "wk_phase wk = Idle"
  shows "(Some (Draining d 0), (ts_peer s)\<lparr>wp_sendQueue := q\<rparr>, ts_world s)
     \<in> set (tm_processSendQueue example_rtc 0 wk (ts_peer s, ts_world s))"
  using assms run_limit [OF assms(1)] by (simp add: tm_processSendQueue_def run_at_def Let_def)

lemma drain_choice:
  assumes "wk_phase wk = Draining d t"
  shows "(Some (Sending d), (ts_peer s)\<lparr>wp_sendQueue := wp_sendQueue (ts_peer s)\<rparr>, ts_world s)
     \<in> set (tm_processSendQueue example_rtc 0 wk (ts_peer s, ts_world s))"
  using assms by (simp add: tm_processSendQueue_def waitBufferedAmount_def example_rtc_def bufferedLimit_def Let_def)

lemma send_choice:
  assumes "wk_phase wk = Sending d"
  shows "(Some Idle, (ts_peer s)\<lparr>wp_sendQueue := wp_sendQueue (ts_peer s)\<rparr>, ts_world s @ [d])
     \<in> set (tm_processSendQueue example_rtc 0 wk (ts_peer s, ts_world s))"
  using assms by (simp add: tm_processSendQueue_def example_rtc_def Let_def)

lemma run_start:
  "\<exists>s. run_at h fl s [] (replicate 4 Idle) [] []"
proof -
  let ?s0 = "tm_start ''me'' ConnectionInfo_zero [] :: run_sys"
  obtain e p w where c: "tm_Connect example_rtc 1 Signalled (ts_peer ?s0, ts_world ?s0) = (e, p, w)"
    by (rule prod_cases3)
  have p: "wp_dc p" "\<not> wp_sendQueueClosed p" "wp_sendQueue p = []"
    using c by (auto simp: tm_Connect_def setupPeerConnections_def tm_dialWebSocket_def example_rtc_def
        tm_resetMediaState_def resetSession_def tm_start_def wpeer.defs telemost.defs wpeer_new_def Let_def)
  let ?s1 = "?s0\<lparr>ts_peer := p, ts_world := w\<rparr>"
  let ?s2 = "?s1\<lparr>ts_workers := tm_dc_OnOpen (length (tm_sessions (ts_peer ?s1)) - 1) (ts_workers ?s1)\<rparr>"
  have "tm_reachable h example_rtc fl 1 ?s1"
    by (rule tm_reachable.step [OF tm_reachable.start tm_step.Connect [OF c]])
  then have "tm_reachable h example_rtc fl 1 ?s2" by (rule tm_reachable.step) (rule tm_step.Open)
  then show ?thesis
    by (intro exI [of _ ?s2]) (simp add: run_at_def p tm_dc_OnOpen_def numWorkers_def)
qed

text \<open>Two messages accepted in one order and sent in the other.\<close>

lemma telemost_reorders:
  "\<exists>s :: run_sys. tm_reachable h example_rtc fl 1 s
     \<and> ts_accepted s = [[1], [2]] \<and> ts_sent s = [[2], [1]]"
proof -
  obtain s0 where s0: "run_at h fl s0 [] (replicate 4 Idle) [] []"
    using run_start by blast
  obtain s1 where s1: "run_at h fl s1 [[1]] (replicate 4 Idle) [[1]] []"
    using run_Send [OF s0, of "[1]"] by auto
  obtain s2 where s2: "run_at h fl s2 [[1], [2]] (replicate 4 Idle) [[1], [2]] []"
    using run_Send [OF s1, of "[2]"] by auto
  obtain s3 where s3: "run_at h fl s3 [[2]] [Draining [1] 0, Idle, Idle, Idle] [[1], [2]] []"
    using run_Work [OF s2, of 0, OF _ take_choice [OF s2]] by (auto simp: sent_by_def numeral_eq_Suc)
  obtain s4 where s4: "run_at h fl s4 [] [Draining [1] 0, Draining [2] 0, Idle, Idle] [[1], [2]] []"
    using run_Work [OF s3, of 1, OF _ take_choice [OF s3]] by (auto simp: sent_by_def)
  obtain s5 where s5: "run_at h fl s5 [] [Draining [1] 0, Sending [2], Idle, Idle] [[1], [2]] []"
    using run_Work [OF s4, of 1, OF _ drain_choice [where d = "[2]" and t = 0]] run_queue [OF s4] by (auto simp: sent_by_def)
  obtain s6 where s6: "run_at h fl s6 [] [Draining [1] 0, Idle, Idle, Idle] [[1], [2]] [[2]]"
    using run_Work [OF s5, of 1, OF _ send_choice [where d = "[2]"]] run_queue [OF s5] by (auto simp: sent_by_def)
  obtain s7 where s7: "run_at h fl s7 [] [Sending [1], Idle, Idle, Idle] [[1], [2]] [[2]]"
    using run_Work [OF s6, of 0, OF _ drain_choice [where d = "[1]" and t = 0]] run_queue [OF s6] by (auto simp: sent_by_def)
  obtain s8 where "run_at h fl s8 [] [Idle, Idle, Idle, Idle] [[1], [2]] [[2], [1]]"
    using run_Work [OF s7, of 0, OF _ send_choice [where d = "[1]"]] run_queue [OF s7] by (auto simp: sent_by_def)
  then show ?thesis unfolding run_at_def by blast
qed

section \<open>Giving up\<close>

text \<open>The requests to reconnect that \<open>WatchConnection\<close> takes at the given times.\<close>

fun reconnect_attempts ::
    "int list \<Rightarrow> ('w, 't, 'h) telemost \<times> 'w \<Rightarrow> int option list \<times> ('w, 't, 'h) telemost \<times> 'w" where
  "reconnect_attempts [] pw = ([], pw)"
| "reconnect_attempts (now # ts) pw =
     (case handleReconnectAttempt now pw of (r, pw1) \<Rightarrow>
      case reconnect_attempts ts pw1 of (rs, pw2) \<Rightarrow> (r # rs, pw2))"

fun within_window :: "int \<Rightarrow> int list \<Rightarrow> bool" where
  "within_window t [] \<longleftrightarrow> True"
| "within_window t (t' # ts) \<longleftrightarrow> t' - t \<le> reconnectWindow \<and> within_window t' ts"

definition attempt_result :: "int \<Rightarrow> int option" where
  "attempt_result n = (if n \<le> maxReconnects then Some (n * 2 * second) else None)"

lemma attempt_within:
  assumes "tm_lastReconnect p = Some t" and "now - t \<le> reconnectWindow" and "0 \<le> tm_reconnectCount p"
  obtains p' w' where
    "handleReconnectAttempt now (p, w) = (attempt_result (tm_reconnectCount p + 1), p', w')"
    "tm_lastReconnect p' = Some now" "tm_reconnectCount p' = tm_reconnectCount p + 1"
    "wp_closed p' \<longleftrightarrow> wp_closed p \<or> tm_reconnectCount p \<ge> maxReconnects"
  using assms
  by (cases "handleReconnectAttempt now (p, w)")
    (auto simp: handleReconnectAttempt_def Let_def attempt_result_def signalEnded_def stopTelemetry_def
      maxReconnects_def second_def split: if_splits)

lemma upt_from_0: "[0..<Suc n] = 0 # map Suc [0..<n]"
  by (simp add: map_Suc_upt upt_conv_Cons del: upt_Suc)

lemma attempts_within:
  assumes "tm_lastReconnect p = Some t" and "within_window t ts" and "0 \<le> tm_reconnectCount p"
  shows "fst (reconnect_attempts ts (p, w)) =
       map (\<lambda>i. attempt_result (tm_reconnectCount p + 1 + int i)) [0..<length ts]
     \<and> (wp_closed (fst (snd (reconnect_attempts ts (p, w)))) \<longleftrightarrow>
          wp_closed p \<or> ts \<noteq> [] \<and> tm_reconnectCount p + int (length ts) > maxReconnects)"
  using assms
proof (induction ts arbitrary: p t w)
  case (Cons now ts)
  have pre: "now - t \<le> reconnectWindow" "within_window now ts" using Cons.prems(2) by simp_all
  obtain p' w' where s:
    "handleReconnectAttempt now (p, w) = (attempt_result (tm_reconnectCount p + 1), p', w')"
    "tm_lastReconnect p' = Some now" "tm_reconnectCount p' = tm_reconnectCount p + 1"
    "wp_closed p' \<longleftrightarrow> wp_closed p \<or> tm_reconnectCount p \<ge> maxReconnects"
    by (rule attempt_within [OF Cons.prems(1) pre(1) Cons.prems(3)])
  have w: "within_window now ts" "0 \<le> tm_reconnectCount p'" using Cons.prems s(3) by simp_all
  obtain rs pw2 where r: "reconnect_attempts ts (p', w') = (rs, pw2)" by (rule prod.exhaust)
  have "reconnect_attempts (now # ts) (p, w) = (attempt_result (tm_reconnectCount p + 1) # rs, pw2)"
    by (simp add: s(1) r)
  moreover have "rs = map (\<lambda>i. attempt_result (tm_reconnectCount p + 1 + int (Suc i))) [0..<length ts]"
    using Cons.IH [OF s(2) w, of w'] s(3) by (simp add: r ac_simps)
  moreover have "wp_closed (fst pw2) \<longleftrightarrow> wp_closed p \<or> tm_reconnectCount p + int (Suc (length ts)) > maxReconnects"
  proof (cases "ts = []")
    case True
    with r have "fst pw2 = p'" by auto
    with True s(4) show ?thesis by auto
  next
    case False
    then have "0 < length ts" by simp
    with Cons.IH [OF s(2) w, of w'] s(3,4) show ?thesis by (simp add: r) linarith
  qed
  ultimately show ?case by (simp add: upt_from_0 o_def del: upt_Suc)
qed simp

lemma attempt_fresh:
  assumes "\<And>t. tm_lastReconnect p = Some t \<Longrightarrow> now - t > reconnectWindow"
  shows "handleReconnectAttempt now (p, w) =
     (attempt_result 1, p\<lparr>tm_reconnectCount := 1, tm_lastReconnect := Some now\<rparr>, w)"
  using assms by (auto simp: handleReconnectAttempt_def Let_def attempt_result_def maxReconnects_def second_def
      split: option.split)

text \<open>C39: after a first request, or one more than five minutes after the one before it, the requests that
  follow each other within five minutes get the back-offs 2, 4, ... 20 seconds; from the eleventh on
  the peer does not reconnect but ends, and it ends only then.\<close>

theorem telemost_reconnect_limit:
  assumes "\<And>t. tm_lastReconnect p = Some t \<Longrightarrow> now - t > reconnectWindow"
    and "within_window now ts" and "\<not> wp_closed p"
  shows "fst (reconnect_attempts (now # ts) (p, w)) =
       map (\<lambda>i. if i < 10 then Some ((int i + 1) * 2 * second) else None) [0..<Suc (length ts)]
     \<and> (wp_closed (fst (snd (reconnect_attempts (now # ts) (p, w)))) \<longleftrightarrow> length ts \<ge> 10)"
proof -
  let ?p1 = "p\<lparr>tm_reconnectCount := 1, tm_lastReconnect := Some now\<rparr>"
  obtain rs pw2 where r: "reconnect_attempts ts (?p1, w) = (rs, pw2)" by (rule prod.exhaust)
  let ?result = "\<lambda>i. if i < 10 then Some ((int i + 1) * 2 * second) else None"
  have first: "attempt_result 1 = ?result 0" by (simp add: attempt_result_def maxReconnects_def)
  have "attempt_result (2 + int i) = ?result (Suc i)" for i
    by (simp add: attempt_result_def maxReconnects_def algebra_simps)
  then have rest: "rs = map (?result \<circ> Suc) [0..<length ts]"
    using attempts_within [of ?p1 now ts w] assms(2) by (simp add: r o_def)
  have closed: "wp_closed (fst pw2) \<longleftrightarrow> length ts \<ge> 10"
  proof -
    have "wp_closed (fst pw2) \<longleftrightarrow> ts \<noteq> [] \<and> 10 < 1 + int (length ts)"
      using attempts_within [of ?p1 now ts w] assms(2,3) by (simp add: r maxReconnects_def)
    then show ?thesis by auto
  qed
  have "handleReconnectAttempt now (p, w) = (attempt_result 1, ?p1, w)"
    by (rule attempt_fresh) (rule assms(1))
  then have "reconnect_attempts (now # ts) (p, w) = (attempt_result 1 # rs, pw2)"
    by (simp add: r)
  then show ?thesis
    by (simp add: first rest closed upt_from_0 del: upt_Suc)
qed


theorem telemost_reconnect_limit_witness:
  "fst (reconnect_attempts (replicate 12 7) (ts_peer (tm_start ''me'' ConnectionInfo_zero [] :: run_sys), []))
     = map (\<lambda>i. if i < 10 then Some ((int i + 1) * 2 * second) else None) [0..<12]"
proof -
  let ?p = "ts_peer (tm_start ''me'' ConnectionInfo_zero [] :: run_sys)"
  have "tm_lastReconnect ?p = None" "\<not> wp_closed ?p"
    by (simp_all add: tm_start_def wpeer.defs telemost.defs wpeer_new_def)
  moreover have "within_window 7 (replicate 11 7)" by (simp add: reconnectWindow_def second_def numeral_eq_Suc)
  ultimately show ?thesis
    using telemost_reconnect_limit [of ?p 7 "replicate 11 7" "[]"] by (simp add: numeral_eq_Suc del: upt_Suc)
qed

text \<open>The fault when \<open>Close\<close> runs while \<open>reconnect\<close> pauses: the reconnect that then succeeds marks the
  peer as open again although its close channel is closed.\<close>

lemma telemost_close_undone:
  assumes "reconnect_end h rtc numCPU u k wait (p, w) = (None, p', w')"
  shows "\<not> wp_closed p'"
proof -
  obtain r w1 where g: "GetConnectionInfo h u k (tm_roomURL p) (wp_name p) w = (r, w1)" by fastforce
  obtain conn where r: "r = Inr conn"
    using assms by (cases r) (simp_all add: reconnect_end_def g)
  obtain e2 p2 w2 where c: "tm_Connect rtc numCPU wait (p\<lparr>tm_conn := conn\<rparr>, w1) = (e2, p2, w2)"
    by (rule prod_cases3)
  have "wp_closed p' = wp_closed p2"
    using assms by (cases e2) (auto simp: reconnect_end_def g r c tm_drainReconnectQueue_def)
  then show ?thesis using Connect_reopens [OF c] by simp
qed



end
