(* ===== verification/Mobile.thy ===== *)
theory Mobile
  imports Session Http
begin

text \<open>
  \<open>mobile/mobile.go\<close>: the package state of the gomobile API, starting and stopping the one
  background client, waiting for it, and the isolated clients of \<open>Check\<close> and \<open>Ping\<close>. A background
  client is a \<open>run\<close>; its \<open>done\<close> and \<open>ready\<close> channels and its context are named by its index, and the
  package variables \<open>cancel\<close>, \<open>done\<close> and \<open>ready\<close> hold such indices. Everything a function does under
  the package's lock is one definition.
\<close>

definition errAlreadyRunning :: go_error where "errAlreadyRunning = Base ''olcRTC already running''"
definition errCarrierRequired :: go_error where "errCarrierRequired = Base ''carrier is required''"
definition errRoomIDRequired :: go_error where "errRoomIDRequired = Base ''roomID is required''"
definition errClientIDRequired :: go_error where "errClientIDRequired = Base ''clientID is required''"
definition errKeyHexRequired :: go_error where "errKeyHexRequired = Base ''keyHex is required''"
definition errNotRunning :: go_error where "errNotRunning = Base ''olcRTC is not running''"
definition errStoppedBeforeReady :: go_error where
  "errStoppedBeforeReady = Base ''olcRTC stopped before becoming ready''"
definition errStartTimedOut :: go_error where "errStartTimedOut = Base ''olcRTC start timed out''"
definition errHTTPPingTimedOut :: go_error where "errHTTPPingTimedOut = Base ''HTTP ping timed out''"
definition errUnexpectedHTTPStatus :: go_error where
  "errUnexpectedHTTPStatus = Base ''unexpected HTTP status''"

definition defaultLink :: string where "defaultLink = ''direct''"
definition defaultTransport :: string where "defaultTransport = ''vp8channel''"
definition dataTransport :: string where "dataTransport = ''datachannel''"
definition defaultDNSServer :: string where "defaultDNSServer = ''1.1.1.1:53''"
definition defaultHTTPPingURL :: string where
  "defaultHTTPPingURL = ''https://www.google.com/generate_204''"

definition httpPingSamples :: nat where "httpPingSamples = 3"
definition httpPingSampleDelay :: int where "httpPingSampleDelay = 80 * millisecond"

section \<open>Arguments\<close>

definition normalizeTransport :: "string \<Rightarrow> string" where
  "normalizeTransport value =
     (if value \<in> {dataTransport, ''data'', ''dc''} then dataTransport
      else if value \<in> {defaultTransport, ''vp8''} then defaultTransport
      else defaultTransport)"

definition normalizeCarrier :: "string \<Rightarrow> string" where
  "normalizeCarrier carrierName = (if carrierName = ''wbstream'' then ''wbstream'' else carrierName)"

definition validateStartArgs :: "string \<Rightarrow> string \<Rightarrow> string \<Rightarrow> string \<Rightarrow> go_error option" where
  "validateStartArgs carrierName roomID clientID keyHex =
     (if carrierName = [] then Some errCarrierRequired
      else if roomID = [] \<and> carrierName \<noteq> ''jazz'' then Some errRoomIDRequired
      else if clientID = [] then Some errClientIDRequired
      else if keyHex = [] then Some errKeyHexRequired
      else None)"

definition mb_buildRoomURL :: "string \<Rightarrow> string \<Rightarrow> string" where
  "mb_buildRoomURL carrierName roomID =
     (if carrierName = ''telemost'' then ''https://telemost.yandex.ru/j/'' @ roomID
      else if carrierName = ''jazz'' then (if roomID = [] then ''any'' else roomID)
      else if carrierName = ''wbstream'' then roomID
      else roomID)"

definition clampAtLeastOne :: "int \<Rightarrow> int \<Rightarrow> int" where
  "clampAtLeastOne value maxValue = (if value < 1 then 1 else if value > maxValue then maxValue else value)"

record mobileConfig =
  mc_link :: string
  mc_transport :: string
  mc_dnsServer :: string
  mc_vp8FPS :: int
  mc_vp8BatchSize :: int

text \<open>The arguments of a \<open>RunWithReady\<close> call; all media settings but the VP8 ones are zero.\<close>

definition mb_args :: "mobileConfig \<Rightarrow> string \<Rightarrow> string \<Rightarrow> string \<Rightarrow> string \<Rightarrow> int \<Rightarrow> string \<Rightarrow> string \<Rightarrow> client_args" where
  "mb_args cfg carrierName roomURL keyHex clientID socksPort socksUser socksPass =
     media.extend (media.make 0 0 0 [] [] 0 [] [] 0 0 (mc_vp8FPS cfg) (mc_vp8BatchSize cfg) 0 0 0 0)
       (client_args.fields (mc_link cfg) (mc_transport cfg) carrierName roomURL keyHex clientID
          (''127.0.0.1:'' @ Itoa socksPort) (mc_dnsServer cfg) socksUser socksPass)"

section \<open>The package state\<close>

text \<open>A run is inside \<open>runClientWithReady\<close>, has reported its result under the lock, or has closed the
  \<open>done\<close> channel and is over.\<close>

datatype run_phase = Running | Reported | Over

text \<open>Phases are ordered as a run goes through them.\<close>

instantiation run_phase :: linorder
begin

definition less_eq_run_phase :: "run_phase \<Rightarrow> run_phase \<Rightarrow> bool" where
  "less_eq_run_phase p q \<longleftrightarrow> p = Running \<or> q = Over \<or> p = q"

definition less_run_phase :: "run_phase \<Rightarrow> run_phase \<Rightarrow> bool" where
  "less_run_phase p q \<longleftrightarrow> p \<noteq> q \<and> (p = Running \<or> q = Over)"

instance
proof
  fix p q r :: run_phase
  show "(p < q) = (p \<le> q \<and> \<not> q \<le> p)" "p \<le> p" "p \<le> q \<Longrightarrow> q \<le> r \<Longrightarrow> p \<le> r"
    "p \<le> q \<Longrightarrow> q \<le> p \<Longrightarrow> p = q" "p \<le> q \<or> q \<le> p"
    by (cases p; cases q; cases r; simp add: less_eq_run_phase_def less_run_phase_def)+
qed

end

record run =
  rn_args :: client_args
  rn_cancelled :: bool
  rn_ready :: bool
  rn_done :: bool
  rn_phase :: run_phase

definition new_run :: "client_args \<Rightarrow> run" where
  "new_run args = \<lparr>rn_args = args, rn_cancelled = False, rn_ready = False, rn_done = False, rn_phase = Running\<rparr>"

text \<open>The callbacks are the socket protector and the writer of log lines on a world \<open>'w\<close>.\<close>

record 'w mobile =
  mb_defaults :: mobileConfig
  mb_defaultsSet :: bool
  mb_registered :: bool
  mb_cancel :: "nat option"
  mb_done :: "nat option"
  mb_ready :: "nat option"
  mb_errRun :: "go_error option"
  mb_runs :: "run list"
  mb_protector :: "(int \<Rightarrow> bool) option"
  mb_logWriter :: "(string \<Rightarrow> 'w \<Rightarrow> 'w) option"
  mb_verbose :: bool
  mb_shortFile :: bool

definition mobile_init :: "bool \<Rightarrow> 'w mobile" where
  "mobile_init shortFile =
     \<lparr>mb_defaults = \<lparr>mc_link = [], mc_transport = [], mc_dnsServer = [], mc_vp8FPS = 0, mc_vp8BatchSize = 0\<rparr>,
      mb_defaultsSet = False, mb_registered = False, mb_cancel = None, mb_done = None, mb_ready = None,
      mb_errRun = None, mb_runs = [], mb_protector = None, mb_logWriter = None, mb_verbose = False,
      mb_shortFile = shortFile\<rparr>"

definition registerDefaults :: "'w mobile \<Rightarrow> 'w mobile" where
  "registerDefaults m = (if mb_registered m then m else m\<lparr>mb_registered := True\<rparr>)"

definition ensureDefaultConfigLocked :: "'w mobile \<Rightarrow> 'w mobile" where
  "ensureDefaultConfigLocked m =
     (if mb_defaultsSet m then m
      else m\<lparr>mb_defaultsSet := True,
             mb_defaults := \<lparr>mc_link = defaultLink, mc_transport = defaultTransport,
               mc_dnsServer = defaultDNSServer, mc_vp8FPS = 60, mc_vp8BatchSize = 8\<rparr>\<rparr>)"

section \<open>Settings\<close>

definition SetProtector :: "(int \<Rightarrow> bool) option \<Rightarrow> 'w mobile \<Rightarrow> 'w mobile" where
  "SetProtector p m = (case p of None \<Rightarrow> m\<lparr>mb_protector := None\<rparr> | Some f \<Rightarrow> m\<lparr>mb_protector := Some (\<lambda>fd. f fd)\<rparr>)"

definition SetLogWriter :: "(string \<Rightarrow> 'w \<Rightarrow> 'w) option \<Rightarrow> 'w mobile \<Rightarrow> 'w mobile" where
  "SetLogWriter l m = (if l \<noteq> None then m\<lparr>mb_logWriter := l\<rparr> else m)"

text \<open>\<open>logBridge.Write\<close>: the writer gets the bytes as a string, and all of them count as written.\<close>

definition logBridge_Write :: "(string \<Rightarrow> 'w \<Rightarrow> 'w) \<Rightarrow> bytes \<Rightarrow> 'w \<Rightarrow> (nat \<times> go_error option) \<times> 'w" where
  "logBridge_Write writer p w = ((length p, None), writer (gostr p) w)"

definition SetProviders :: "'w mobile \<Rightarrow> 'w mobile" where
  "SetProviders m = registerDefaults m"

definition SetTransport :: "string \<Rightarrow> 'w mobile \<Rightarrow> 'w mobile" where
  "SetTransport transport m =
     (let m1 = ensureDefaultConfigLocked m
      in m1\<lparr>mb_defaults := (mb_defaults m1)\<lparr>mc_transport := normalizeTransport transport\<rparr>\<rparr>)"

definition SetLink :: "string \<Rightarrow> 'w mobile \<Rightarrow> 'w mobile" where
  "SetLink link m =
     (let m1 = ensureDefaultConfigLocked m in m1\<lparr>mb_defaults := (mb_defaults m1)\<lparr>mc_link := link\<rparr>\<rparr>)"

definition SetDNS :: "string \<Rightarrow> 'w mobile \<Rightarrow> 'w mobile" where
  "SetDNS dnsServer m =
     (let m1 = ensureDefaultConfigLocked m
      in m1\<lparr>mb_defaults := (mb_defaults m1)\<lparr>mc_dnsServer := dnsServer\<rparr>\<rparr>)"

definition SetVP8Options :: "int \<Rightarrow> int \<Rightarrow> 'w mobile \<Rightarrow> 'w mobile" where
  "SetVP8Options fps batchSize m =
     (let m1 = ensureDefaultConfigLocked m
      in m1\<lparr>mb_defaults := (mb_defaults m1)\<lparr>mc_vp8FPS := clampAtLeastOne fps 120,
             mc_vp8BatchSize := clampAtLeastOne batchSize 64\<rparr>\<rparr>)"

definition SetDebug :: "bool \<Rightarrow> 'w mobile \<Rightarrow> 'w mobile" where
  "SetDebug enabled m = m\<lparr>mb_verbose := enabled, mb_shortFile := enabled\<rparr>"

section \<open>Starting\<close>

definition startWithConfig ::
    "string \<Rightarrow> string \<Rightarrow> string \<Rightarrow> string \<Rightarrow> string \<Rightarrow> int \<Rightarrow> string \<Rightarrow> string \<Rightarrow> mobileConfig \<Rightarrow> 'w mobile \<Rightarrow>
     go_error option \<times> 'w mobile" where
  "startWithConfig carrier transportName roomID clientID keyHex socksPort socksUser socksPass cfg m =
     (let m1 = registerDefaults m;
          carrierName = normalizeCarrier carrier;
          cfg1 = (if transportName \<noteq> [] then cfg\<lparr>mc_transport := normalizeTransport transportName\<rparr> else cfg);
          n = length (mb_runs m1)
      in if mb_cancel m1 \<noteq> None then (Some errAlreadyRunning, m1)
         else (case validateStartArgs carrierName roomID clientID keyHex of
                 Some err \<Rightarrow> (Some err, m1)
               | None \<Rightarrow>
                   (None, m1\<lparr>mb_cancel := Some n, mb_done := Some n, mb_ready := Some n, mb_errRun := None,
                      mb_runs := mb_runs m1 @ [new_run (mb_args cfg1 carrierName
                        (mb_buildRoomURL carrierName roomID) keyHex clientID socksPort socksUser socksPass)]\<rparr>)))"

definition Start ::
    "string \<Rightarrow> string \<Rightarrow> string \<Rightarrow> string \<Rightarrow> int \<Rightarrow> string \<Rightarrow> string \<Rightarrow> 'w mobile \<Rightarrow> go_error option \<times> 'w mobile" where
  "Start carrierName roomID clientID keyHex socksPort socksUser socksPass m =
     (let m1 = ensureDefaultConfigLocked m; cfg = mb_defaults m1
      in startWithConfig carrierName (mc_transport cfg) roomID clientID keyHex socksPort socksUser socksPass cfg m1)"

definition StartWithTransport ::
    "string \<Rightarrow> string \<Rightarrow> string \<Rightarrow> string \<Rightarrow> string \<Rightarrow> int \<Rightarrow> string \<Rightarrow> string \<Rightarrow> 'w mobile \<Rightarrow>
     go_error option \<times> 'w mobile" where
  "StartWithTransport carrierName transportName roomID clientID keyHex socksPort socksUser socksPass m =
     (let m1 = ensureDefaultConfigLocked m; cfg = (mb_defaults m1)\<lparr>mc_transport := transportName\<rparr>
      in startWithConfig carrierName transportName roomID clientID keyHex socksPort socksUser socksPass cfg m1)"

section \<open>The background goroutine\<close>

definition upd_run :: "nat \<Rightarrow> (run \<Rightarrow> run) \<Rightarrow> 'w mobile \<Rightarrow> 'w mobile" where
  "upd_run i f m = m\<lparr>mb_runs := (mb_runs m)[i := f (mb_runs m ! i)]\<rparr>"

text \<open>The client of run \<open>i\<close> calls its ready callback; \<open>readyOnce\<close> makes a second call do nothing.\<close>

definition run_onReady :: "nat \<Rightarrow> 'w mobile \<Rightarrow> 'w mobile" where
  "run_onReady i m = upd_run i (\<lambda>r. r\<lparr>rn_ready := True\<rparr>) m"

text \<open>The client has returned: what its goroutine does under the lock.\<close>

definition run_report :: "nat \<Rightarrow> go_error option \<Rightarrow> 'w mobile \<Rightarrow> 'w mobile" where
  "run_report i err m = (upd_run i (\<lambda>r. r\<lparr>rn_phase := Reported\<rparr>) m)\<lparr>mb_cancel := None, mb_errRun := err\<rparr>"

text \<open>\<open>close(done)\<close> without the lock, on the channel the package variable holds by then: closing a nil or
  closed channel panics (\<open>None\<close>). Then the deferred \<open>cancelFunc\<close>.\<close>

definition run_close_done :: "nat \<Rightarrow> 'w mobile \<Rightarrow> 'w mobile option" where
  "run_close_done i m =
     (case mb_done m of
        None \<Rightarrow> None
      | Some d \<Rightarrow>
          if rn_done (mb_runs m ! d) then None
          else Some (upd_run i (\<lambda>r. r\<lparr>rn_phase := Over, rn_cancelled := True\<rparr>)
                 (upd_run d (\<lambda>r. r\<lparr>rn_done := True\<rparr>) m)))"

section \<open>Stopping and waiting\<close>

text \<open>\<open>Stop\<close> up to its wait: the channel it waits on, if any, and whether the wait is over.\<close>

definition stop_begin :: "'w mobile \<Rightarrow> nat option \<times> 'w mobile" where
  "stop_begin m =
     (case mb_cancel m of
        None \<Rightarrow> (None, m)
      | Some i \<Rightarrow> (mb_done m, upd_run i (\<lambda>r. r\<lparr>rn_cancelled := True\<rparr>) m))"

definition stop_returns :: "nat option \<Rightarrow> 'w mobile \<Rightarrow> bool" where
  "stop_returns d m = (case d of None \<Rightarrow> True | Some k \<Rightarrow> rn_done (mb_runs m ! k))"

definition IsRunning :: "'w mobile \<Rightarrow> bool" where
  "IsRunning m \<longleftrightarrow> mb_cancel m \<noteq> None"

text \<open>\<open>WaitReady\<close>: it returns at once, or waits on the channels it saw.\<close>

datatype waiting = Returns "go_error option" | Waits nat "nat option"

definition or_err :: "go_error option \<Rightarrow> go_error \<Rightarrow> go_error option" where
  "or_err runErr err = (case runErr of Some e \<Rightarrow> Some e | None \<Rightarrow> Some err)"

definition WaitReady_begin :: "'w mobile \<Rightarrow> waiting" where
  "WaitReady_begin m =
     (case mb_ready m of
        None \<Rightarrow> Returns (or_err (mb_errRun m) errNotRunning)
      | Some r \<Rightarrow>
          if rn_ready (mb_runs m ! r) then Returns None
          else if mb_cancel m = None then Returns (or_err (mb_errRun m) errStoppedBeforeReady)
          else Waits r (mb_done m))"

text \<open>Every result its wait can have; \<open>timeout\<close> says that the timer has fired.\<close>

definition WaitReady_wait :: "nat \<Rightarrow> nat option \<Rightarrow> bool \<Rightarrow> 'w mobile \<Rightarrow> go_error option list" where
  "WaitReady_wait r d timeout m =
     (if rn_ready (mb_runs m ! r) then [None] else [])
     @ (if (\<exists>k. d = Some k \<and> rn_done (mb_runs m ! k)) then [or_err (mb_errRun m) errStoppedBeforeReady] else [])
     @ (if timeout then [Some errStartTimedOut] else [])"

section \<open>Isolated clients\<close>

text \<open>The configuration of \<open>Check\<close> and \<open>Ping\<close>, the client they run, and their time limit.\<close>

definition isolated_config :: "string \<Rightarrow> int \<Rightarrow> int \<Rightarrow> mobileConfig" where
  "isolated_config transportName vp8FPS vp8BatchSize =
     \<lparr>mc_link = defaultLink, mc_transport = transportName, mc_dnsServer = defaultDNSServer,
      mc_vp8FPS = clampAtLeastOne vp8FPS 120, mc_vp8BatchSize = clampAtLeastOne vp8BatchSize 64\<rparr>"

definition isolated_start ::
    "int \<Rightarrow> string \<Rightarrow> string \<Rightarrow> string \<Rightarrow> string \<Rightarrow> string \<Rightarrow> int \<Rightarrow> int \<Rightarrow> int \<Rightarrow> int \<Rightarrow> 'w mobile \<Rightarrow>
     (go_error + client_args \<times> int) \<times> 'w mobile" where
  "isolated_start defaultTimeout carrier transport roomID clientID keyHex socksPort timeoutMillis vp8FPS vp8BatchSize m =
     (let carrierName = normalizeCarrier carrier;
          transportName = normalizeTransport transport
      in (case validateStartArgs carrierName roomID clientID keyHex of
            Some err \<Rightarrow> Inl err
          | None \<Rightarrow>
              Inr (mb_args (isolated_config transportName vp8FPS vp8BatchSize) carrierName
                     (mb_buildRoomURL carrierName roomID) keyHex clientID socksPort [] [],
                   if timeoutMillis \<le> 0 then defaultTimeout else timeoutMillis),
          registerDefaults m))"

definition Check_start ::
    "string \<Rightarrow> string \<Rightarrow> string \<Rightarrow> string \<Rightarrow> string \<Rightarrow> int \<Rightarrow> int \<Rightarrow> int \<Rightarrow> int \<Rightarrow> 'w mobile \<Rightarrow>
     (go_error + client_args \<times> int) \<times> 'w mobile" where
  "Check_start = isolated_start 8000"

definition Ping_start ::
    "string \<Rightarrow> string \<Rightarrow> string \<Rightarrow> string \<Rightarrow> string \<Rightarrow> int \<Rightarrow> int \<Rightarrow> int \<Rightarrow> int \<Rightarrow> 'w mobile \<Rightarrow>
     (go_error + client_args \<times> int) \<times> 'w mobile" where
  "Ping_start = isolated_start 10000"

text \<open>How the \<open>select\<close> of \<open>Check\<close> or \<open>Ping\<close> ends: the client is ready, has returned, or the time is up.\<close>

datatype isolated_event = BecameReady | ClientDone "go_error option" | TimeUp

definition Check_end :: "int \<Rightarrow> isolated_event \<Rightarrow> go_error + int" where
  "Check_end elapsed ev =
     (case ev of
        BecameReady \<Rightarrow> Inr elapsed
      | ClientDone (Some err) \<Rightarrow> Inl err
      | ClientDone None \<Rightarrow> Inl errStoppedBeforeReady
      | TimeUp \<Rightarrow> Inl errStartTimedOut)"

section \<open>HTTP ping\<close>

text \<open>The environment of a ping: HTTP through the tunnel, \<open>url.ParseRequestURI\<close>, the monotonic clock in
  nanoseconds, and sleeping.\<close>

record 'w ping_env =
  pe_http :: "'w http"
  pe_ParseRequestURI :: "string \<Rightarrow> go_error option"
  pe_Now :: "'w \<Rightarrow> int"
  pe_Sleep :: "int \<Rightarrow> 'w \<Rightarrow> 'w"

definition normalizeHTTPPingURL :: "'w ping_env \<Rightarrow> string \<Rightarrow> go_error + string" where
  "normalizeHTTPPingURL env url =
     (let targetURL = (if url = [] then defaultHTTPPingURL else url)
      in case pe_ParseRequestURI env targetURL of
           Some err \<Rightarrow> Inl (Ctx ''parse HTTP ping URL'' err)
         | None \<Rightarrow> Inr targetURL)"

definition ping_request :: "string \<Rightarrow> http_request" where
  "ping_request targetURL =
     \<lparr>rq_Method = ''GET'', rq_URL = targetURL, rq_Query = [],
      rq_Header = [(''User-Agent'', ''Olcbox-Android''), (''Connection'', ''keep-alive''),
        (''Cache-Control'', ''no-cache'')],
      rq_Body = []\<rparr>"

definition singleHTTPPingRequest :: "'w ping_env \<Rightarrow> string \<Rightarrow> 'w \<Rightarrow> (go_error + int) \<times> 'w" where
  "singleHTTPPingRequest env targetURL w =
     (case send_request (pe_http env) ''create HTTP ping request'' ''perform HTTP ping request''
             (ping_request targetURL) w of
        (Inl err, w') \<Rightarrow> (Inl err, w')
      | (Inr resp, w') \<Rightarrow>
          (if rs_StatusCode resp < 200 \<or> rs_StatusCode resp > 308
           then Inl (Detail errUnexpectedHTTPStatus ('': '' @ Itoa (rs_StatusCode resp)))
           else Inr ((pe_Now env w' - pe_Now env w) div millisecond), w'))"

definition bestPositiveLatency :: "int \<Rightarrow> int \<Rightarrow> int" where
  "bestPositiveLatency currentBest next' =
     (if next' \<le> 0 then currentBest
      else if currentBest = 0 \<or> next' < currentBest then next' else currentBest)"

text \<open>The loop over the samples that are left, with \<open>best\<close> and \<open>lastErr\<close>.\<close>

fun ping_samples ::
    "'w ping_env \<Rightarrow> string \<Rightarrow> nat \<Rightarrow> int \<Rightarrow> go_error option \<Rightarrow> 'w \<Rightarrow> int \<times> go_error option \<times> 'w" where
  "ping_samples env targetURL 0 best lastErr w = (best, lastErr, w)"
| "ping_samples env targetURL (Suc left) best lastErr w =
     (case singleHTTPPingRequest env targetURL w of
        (Inl err, w') \<Rightarrow>
          ping_samples env targetURL left best (Some err)
            (if 0 < left then pe_Sleep env httpPingSampleDelay w' else w')
      | (Inr elapsed, w') \<Rightarrow>
          ping_samples env targetURL left (bestPositiveLatency best elapsed) lastErr
            (if 0 < left then pe_Sleep env httpPingSampleDelay w' else w'))"

definition bestHTTPPingSample :: "'w ping_env \<Rightarrow> string \<Rightarrow> 'w \<Rightarrow> (go_error + int) \<times> 'w" where
  "bestHTTPPingSample env targetURL w =
     (case ping_samples env targetURL httpPingSamples 0 None w of
        (best, lastErr, w') \<Rightarrow>
          (if best > 0 then Inr best
           else (case lastErr of Some err \<Rightarrow> Inl err | None \<Rightarrow> Inl errHTTPPingTimedOut), w'))"

text \<open>A first request warms the tunnel up and is not counted.\<close>

definition httpPingThroughSocks :: "'w ping_env \<Rightarrow> string \<Rightarrow> 'w \<Rightarrow> (go_error + int) \<times> 'w" where
  "httpPingThroughSocks env url w =
     (case normalizeHTTPPingURL env url of
        Inl err \<Rightarrow> (Inl err, w)
      | Inr targetURL \<Rightarrow> bestHTTPPingSample env targetURL (snd (singleHTTPPingRequest env targetURL w)))"

definition Ping_end :: "'w ping_env \<Rightarrow> string \<Rightarrow> isolated_event \<Rightarrow> 'w \<Rightarrow> (go_error + int) \<times> 'w" where
  "Ping_end env pingURL ev w =
     (case ev of
        BecameReady \<Rightarrow> httpPingThroughSocks env (if pingURL = [] then defaultHTTPPingURL else pingURL) w
      | ClientDone (Some err) \<Rightarrow> (Inl err, w)
      | ClientDone None \<Rightarrow> (Inl errStoppedBeforeReady, w)
      | TimeUp \<Rightarrow> (Inl errStartTimedOut, w))"

end
