(* ===== verification/Mobile_Contract.thy ===== *)
theory Mobile_Contract
  imports Mobile
begin

text \<open>
  What the mobile API guarantees: one background client at a time, a \<open>Stop\<close> that waits for it, and
  arguments that the session's validation would accept.
\<close>

section \<open>The package as a system\<close>

text \<open>The calls of the application and the steps of the background goroutines, in any order. When
  \<open>quiet\<close>, no client is started between the moment a goroutine reports its result and the moment it
  closes the \<open>done\<close> channel.\<close>

inductive mb_step :: "bool \<Rightarrow> 'w mobile \<Rightarrow> 'w mobile \<Rightarrow> bool" for quiet where
  Start: "\<not> quiet \<or> (\<forall>r \<in> set (mb_runs m). rn_phase r \<noteq> Reported) \<Longrightarrow>
     startWithConfig carrier transport roomID clientID keyHex port user pass cfg m = (e, m') \<Longrightarrow>
     mb_step quiet m m'"
| Transport: "mb_step quiet m (SetTransport t m)"
| Link: "mb_step quiet m (SetLink l m)"
| DNS: "mb_step quiet m (SetDNS d m)"
| VP8: "mb_step quiet m (SetVP8Options fps batch m)"
| Defaults: "mb_step quiet m (ensureDefaultConfigLocked m)"
| Providers: "mb_step quiet m (SetProviders m)"
| OnReady: "i < length (mb_runs m) \<Longrightarrow> rn_phase (mb_runs m ! i) = Running \<Longrightarrow> mb_step quiet m (run_onReady i m)"
| Report: "i < length (mb_runs m) \<Longrightarrow> rn_phase (mb_runs m ! i) = Running \<Longrightarrow> mb_step quiet m (run_report i err m)"
| CloseDone: "i < length (mb_runs m) \<Longrightarrow> rn_phase (mb_runs m ! i) = Reported \<Longrightarrow>
     run_close_done i m = Some m' \<Longrightarrow> mb_step quiet m m'"
| Stop: "stop_begin m = (d, m') \<Longrightarrow> mb_step quiet m m'"

inductive mb_reachable :: "bool \<Rightarrow> 'w mobile \<Rightarrow> bool" for quiet where
  init: "mb_reachable quiet (mobile_init sf)"
| step: "mb_reachable quiet m \<Longrightarrow> mb_step quiet m m' \<Longrightarrow> mb_reachable quiet m'"

section \<open>The invariant\<close>

definition mb_inv :: "'w mobile \<Rightarrow> bool" where
  "mb_inv m \<longleftrightarrow>
     (\<forall>i < length (mb_runs m). rn_phase (mb_runs m ! i) = Running \<longleftrightarrow> mb_cancel m = Some i)
     \<and> mb_done m = (if mb_runs m = [] then None else Some (length (mb_runs m) - 1))
     \<and> mb_ready m = mb_done m
     \<and> (mb_cancel m \<noteq> None \<longrightarrow> mb_cancel m = mb_done m)"

text \<open>What holds besides when starts are quiet: only the last run can be unfinished, and a \<open>done\<close> channel
  is closed exactly when its run is over.\<close>

definition mb_quiet :: "'w mobile \<Rightarrow> bool" where
  "mb_quiet m \<longleftrightarrow>
     (\<forall>i < length (mb_runs m). (rn_done (mb_runs m ! i) \<longleftrightarrow> rn_phase (mb_runs m ! i) = Over)
        \<and> (rn_phase (mb_runs m ! i) = Over \<or> mb_done m = Some i))"

definition same_runs :: "'w mobile \<Rightarrow> 'w mobile \<Rightarrow> bool" where
  "same_runs m m' \<longleftrightarrow> mb_runs m' = mb_runs m \<and> mb_cancel m' = mb_cancel m \<and> mb_done m' = mb_done m
     \<and> mb_ready m' = mb_ready m"

lemma configs_same_runs:
  "same_runs m (ensureDefaultConfigLocked m)" "same_runs m (SetTransport t m)" "same_runs m (SetLink l m)"
  "same_runs m (SetDNS d m)" "same_runs m (SetVP8Options fps batch m)" "same_runs m (SetProviders m)"
  by (simp_all add: same_runs_def SetTransport_def SetLink_def SetDNS_def SetVP8Options_def SetProviders_def
      registerDefaults_def ensureDefaultConfigLocked_def Let_def)

lemma start_refused:
  "startWithConfig carrier transport roomID clientID keyHex port user pass cfg m = (Some err, m') \<Longrightarrow>
     m' = registerDefaults m"
  by (simp add: startWithConfig_def Let_def split: if_splits option.splits)

lemma start_started:
  "startWithConfig carrier transport roomID clientID keyHex port user pass cfg m = (None, m') \<Longrightarrow>
     mb_cancel m = None \<and> (\<exists>args. mb_runs m' = mb_runs m @ [new_run args])
     \<and> mb_cancel m' = Some (length (mb_runs m)) \<and> mb_done m' = Some (length (mb_runs m))
     \<and> mb_ready m' = Some (length (mb_runs m))"
  by (clarsimp simp: startWithConfig_def Let_def registerDefaults_def split: if_splits option.splits; force)

lemma start_accepted:
  "mb_cancel m = None \<Longrightarrow> validateStartArgs (normalizeCarrier carrier) roomID clientID keyHex = None \<Longrightarrow>
     \<exists>m'. startWithConfig carrier transport roomID clientID keyHex port user pass cfg m = (None, m')"
  by (simp add: startWithConfig_def Let_def registerDefaults_def)

lemma registerDefaults_keeps [simp]:
  "mb_runs (registerDefaults m) = mb_runs m" "mb_cancel (registerDefaults m) = mb_cancel m"
  "mb_done (registerDefaults m) = mb_done m" "mb_ready (registerDefaults m) = mb_ready m"
  by (simp_all add: registerDefaults_def)

lemma upd_run_fields [simp]:
  "length (mb_runs (upd_run i f m)) = length (mb_runs m)" "mb_cancel (upd_run i f m) = mb_cancel m"
  "mb_done (upd_run i f m) = mb_done m" "mb_ready (upd_run i f m) = mb_ready m"
  "mb_runs (upd_run i f m) = [] \<longleftrightarrow> mb_runs m = []"
  by (simp_all add: upd_run_def)

lemma upd_run_nth [simp]:
  "k < length (mb_runs m) \<Longrightarrow> mb_runs (upd_run i f m) ! k = (if k = i then f (mb_runs m ! i) else mb_runs m ! k)"
  by (simp add: upd_run_def nth_list_update)

lemma inv_same_runs: "same_runs m m' \<Longrightarrow> mb_inv m \<and> (quiet \<longrightarrow> mb_quiet m) \<Longrightarrow> mb_inv m' \<and> (quiet \<longrightarrow> mb_quiet m')"
  unfolding same_runs_def mb_inv_def mb_quiet_def by (elim conjE) (simp only: simp_thms)

lemma mb_inv_started:
  assumes "mb_inv m" "mb_cancel m = None" "mb_runs m' = mb_runs m @ [new_run args]"
    "mb_cancel m' = Some (length (mb_runs m))" "mb_done m' = Some (length (mb_runs m))"
    "mb_ready m' = Some (length (mb_runs m))"
  shows "mb_inv m'"
  using assms by (auto simp: mb_inv_def nth_append new_run_def less_Suc_eq)

lemma mb_quiet_started:
  assumes "mb_inv m" "mb_quiet m" "\<forall>r \<in> set (mb_runs m). rn_phase r \<noteq> Reported"
    "mb_cancel m = None" "mb_runs m' = mb_runs m @ [new_run args]" "mb_done m' = Some (length (mb_runs m))"
  shows "mb_quiet m'"
proof -
  have "rn_phase (mb_runs m ! i) = Over" if "i < length (mb_runs m)" for i
  proof (cases "rn_phase (mb_runs m ! i)")
    case Running
    with assms(1,4) that show ?thesis by (simp add: mb_inv_def)
  next
    case Reported
    with assms(3) that nth_mem show ?thesis by blast
  qed
  then show ?thesis using assms(2,5,6) by (auto simp: mb_quiet_def nth_append new_run_def less_Suc_eq)
qed

lemma mb_inv_phases:
  assumes "mb_inv m" and len: "length (mb_runs m') = length (mb_runs m)"
    and same: "mb_cancel m' = mb_cancel m" "mb_done m' = mb_done m" "mb_ready m' = mb_ready m"
    and phase: "\<And>k. k < length (mb_runs m) \<Longrightarrow>
      (rn_phase (mb_runs m' ! k) = Running) = (rn_phase (mb_runs m ! k) = Running)"
  shows "mb_inv m'"
proof -
  have nil: "mb_runs m' = [] \<longleftrightarrow> mb_runs m = []" using len by (metis length_0_conv)
  show ?thesis using assms(1) phase unfolding mb_inv_def len same nil by blast
qed

lemma mb_step_inv: "mb_step quiet m m' \<Longrightarrow> mb_inv m \<and> (quiet \<longrightarrow> mb_quiet m) \<Longrightarrow> mb_inv m' \<and> (quiet \<longrightarrow> mb_quiet m')"
proof (induction rule: mb_step.induct)
  case (Start m carrier transport roomID clientID keyHex port user pass cfg e m')
  show ?case
  proof (cases e)
    case (Some err)
    with Start.hyps(2) have "m' = registerDefaults m" by (simp only: start_refused)
    then have "same_runs m m'" by (simp add: same_runs_def)
    then show ?thesis using Start.prems by (rule inv_same_runs)
  next
    case None
    with Start.hyps(2) obtain args where new: "mb_cancel m = None" "mb_runs m' = mb_runs m @ [new_run args]"
      "mb_cancel m' = Some (length (mb_runs m))" "mb_done m' = Some (length (mb_runs m))"
      "mb_ready m' = Some (length (mb_runs m))"
      using start_started by blast
    have "mb_inv m'" by (rule mb_inv_started [OF conjunct1 [OF Start.prems] new])
    moreover have "quiet \<longrightarrow> mb_quiet m'"
    proof
      assume "quiet"
      then have "mb_quiet m" "\<forall>r \<in> set (mb_runs m). rn_phase r \<noteq> Reported"
        using Start.prems Start.hyps(1) by blast+
      then show "mb_quiet m'"
        by (rule mb_quiet_started [OF conjunct1 [OF Start.prems] _ _ new(1,2,4)])
    qed
    ultimately show ?thesis ..
  qed
next
  case (OnReady i m)
  then show ?case by (auto simp: run_onReady_def mb_inv_def mb_quiet_def)
next
  case (Report i m err)
  then show ?case by (auto simp: run_report_def mb_inv_def mb_quiet_def)
next
  case (CloseDone i m m')
  obtain d where d: "mb_done m = Some d" "\<not> rn_done (mb_runs m ! d)"
    "m' = upd_run i (\<lambda>r. r\<lparr>rn_phase := Over, rn_cancelled := True\<rparr>) (upd_run d (\<lambda>r. r\<lparr>rn_done := True\<rparr>) m)"
    using CloseDone.hyps(3) by (simp add: run_close_done_def split: option.splits if_splits)
  have phase: "rn_phase (mb_runs m' ! k) = (if k = i then Over else rn_phase (mb_runs m ! k))"
    and closed: "rn_done (mb_runs m' ! k) \<longleftrightarrow> k = d \<or> rn_done (mb_runs m ! k)"
    if "k < length (mb_runs m)" for k
    using that by (simp_all add: d(3))
  have "(rn_phase (mb_runs m' ! k) = Running) = (rn_phase (mb_runs m ! k) = Running)"
    if "k < length (mb_runs m)" for k
    using phase [OF that] CloseDone.hyps(2) by simp
  then have "mb_inv m'"
    by (intro mb_inv_phases [OF conjunct1 [OF CloseDone.prems]]) (simp_all add: d(3) del: upd_run_nth)
  moreover have "quiet \<longrightarrow> mb_quiet m'"
  proof
    assume "quiet"
    then have q: "mb_quiet m" using CloseDone.prems by blast
    then have "d = i" using CloseDone.hyps(1,2) d(1) by (auto simp: mb_quiet_def)
    with q show "mb_quiet m'" using phase closed by (simp add: mb_quiet_def d(3) upd_run_fields)
  qed
  ultimately show ?case ..
next
  case (Stop m d m')
  then show ?case by (auto simp: stop_begin_def mb_inv_def mb_quiet_def split: option.splits)
qed (rule inv_same_runs [OF configs_same_runs(1)] inv_same_runs [OF configs_same_runs(2)]
    inv_same_runs [OF configs_same_runs(3)] inv_same_runs [OF configs_same_runs(4)]
    inv_same_runs [OF configs_same_runs(5)] inv_same_runs [OF configs_same_runs(6)]; assumption)+

lemma mb_reachable_inv: "mb_reachable quiet m \<Longrightarrow> mb_inv m \<and> (quiet \<longrightarrow> mb_quiet m)"
proof (induction rule: mb_reachable.induct)
  case (init sf)
  show ?case by (simp add: mb_inv_def mb_quiet_def mobile_init_def)
qed (rule mb_step_inv)

section \<open>The configuration\<close>

definition mb_config_ok :: "'w mobile \<Rightarrow> bool" where
  "mb_config_ok m \<longleftrightarrow>
     (mb_defaultsSet m \<longrightarrow> mc_transport (mb_defaults m) \<in> {''datachannel'', ''vp8channel''}
        \<and> 1 \<le> mc_vp8FPS (mb_defaults m) \<and> mc_vp8FPS (mb_defaults m) \<le> 120
        \<and> 1 \<le> mc_vp8BatchSize (mb_defaults m) \<and> mc_vp8BatchSize (mb_defaults m) \<le> 64)"

lemma normalizeTransport_range: "normalizeTransport t \<in> {''datachannel'', ''vp8channel''}"
  by (simp add: normalizeTransport_def dataTransport_def defaultTransport_def)

lemma normalizeTransport_idem [simp]: "normalizeTransport (normalizeTransport t) = normalizeTransport t"
  by (simp add: normalizeTransport_def dataTransport_def defaultTransport_def)

lemma normalizeTransport_known: "t \<in> {''datachannel'', ''vp8channel''} \<Longrightarrow> normalizeTransport t = t"
  by (auto simp: normalizeTransport_def dataTransport_def defaultTransport_def)

lemma clampAtLeastOne_range: "1 \<le> n \<Longrightarrow> 1 \<le> clampAtLeastOne v n \<and> clampAtLeastOne v n \<le> n"
  by (simp add: clampAtLeastOne_def)

lemma ensure_config_ok: "mb_config_ok m \<Longrightarrow> mb_config_ok (ensureDefaultConfigLocked m) \<and> mb_defaultsSet (ensureDefaultConfigLocked m)"
  by (simp add: ensureDefaultConfigLocked_def mb_config_ok_def defaultTransport_def)

lemma config_ok_cong:
  "mb_defaults m' = mb_defaults m \<Longrightarrow> mb_defaultsSet m' = mb_defaultsSet m \<Longrightarrow> mb_config_ok m' = mb_config_ok m"
  by (simp add: mb_config_ok_def)

lemma start_keeps_defaults:
  assumes "startWithConfig carrier transport roomID clientID keyHex port user pass cfg m = (e, m')"
  shows "mb_defaults m' = mb_defaults m \<and> mb_defaultsSet m' = mb_defaultsSet m"
proof -
  have "mb_defaults (snd (startWithConfig carrier transport roomID clientID keyHex port user pass cfg m)) = mb_defaults m
     \<and> mb_defaultsSet (snd (startWithConfig carrier transport roomID clientID keyHex port user pass cfg m)) = mb_defaultsSet m"
    by (simp add: startWithConfig_def Let_def registerDefaults_def split: option.split)
  with assms show ?thesis by simp
qed

lemma mb_step_config_ok: "mb_step quiet m m' \<Longrightarrow> mb_config_ok m \<Longrightarrow> mb_config_ok m'"
proof (induction rule: mb_step.induct)
  case (Start m carrier transport roomID clientID keyHex port user pass cfg e m')
  from start_keeps_defaults [OF Start.hyps(2)] Start.prems show ?case
    using config_ok_cong by blast
next
  case (Transport m t)
  with ensure_config_ok [of m] normalizeTransport_range [of t] show ?case
    by (simp add: SetTransport_def Let_def mb_config_ok_def)
next
  case (Link m l)
  with ensure_config_ok [of m] show ?case by (simp add: SetLink_def Let_def mb_config_ok_def)
next
  case (DNS m d)
  with ensure_config_ok [of m] show ?case by (simp add: SetDNS_def Let_def mb_config_ok_def)
next
  case (VP8 m fps batch)
  with ensure_config_ok [of m] clampAtLeastOne_range [of 120 fps] clampAtLeastOne_range [of 64 batch] show ?case
    by (simp add: SetVP8Options_def Let_def mb_config_ok_def)
next
  case (Defaults m)
  then show ?case using ensure_config_ok by blast
next
  case (Providers m)
  then show ?case by (simp add: SetProviders_def registerDefaults_def mb_config_ok_def)
next
  case (OnReady i m)
  then show ?case by (simp add: run_onReady_def upd_run_def mb_config_ok_def)
next
  case (Report i m err)
  then show ?case by (simp add: run_report_def upd_run_def mb_config_ok_def)
next
  case (CloseDone i m m')
  have "mb_defaults m' = mb_defaults m" "mb_defaultsSet m' = mb_defaultsSet m"
    using CloseDone.hyps(3) by (auto simp: run_close_done_def upd_run_def split: option.splits if_splits)
  with CloseDone.prems show ?case using config_ok_cong by blast
next
  case (Stop m d m')
  have "mb_defaults m' = mb_defaults m" "mb_defaultsSet m' = mb_defaultsSet m"
    using Stop.hyps by (auto simp: stop_begin_def upd_run_def split: option.splits)
  with Stop.prems show ?case using config_ok_cong by blast
qed

lemma mb_reachable_config_ok: "mb_reachable quiet m \<Longrightarrow> mb_config_ok m"
proof (induction rule: mb_reachable.induct)
  case (init sf)
  show ?case by (simp add: mb_config_ok_def mobile_init_def)
qed (rule mb_step_config_ok)

text \<open>Runs are never forgotten, and their phases only go forward.\<close>

lemma phase_order: "Running \<le> p" "p \<le> Over"
  by (simp_all add: less_eq_run_phase_def)

lemma upd_run_phases:
  "(\<And>r. rn_phase r \<le> rn_phase (f r)) \<Longrightarrow> i < length (mb_runs m) \<Longrightarrow>
     rn_phase (mb_runs m ! i) \<le> rn_phase (mb_runs (upd_run j f m) ! i)"
  by (cases "i = j") (simp_all add: upd_run_def)

lemma mb_step_phases:
  assumes "mb_step quiet m m'" and "i < length (mb_runs m)"
  shows "i < length (mb_runs m') \<and> rn_phase (mb_runs m ! i) \<le> rn_phase (mb_runs m' ! i)"
  using assms
proof (induction rule: mb_step.induct)
  case (Start m carrier transport roomID clientID keyHex port user pass cfg e m')
  then show ?case
    using start_started [of carrier transport roomID clientID keyHex port user pass cfg m m']
      start_refused [of carrier transport roomID clientID keyHex port user pass cfg m _ m']
    by (cases e) (auto simp: registerDefaults_def nth_append)
next
  case (OnReady j m)
  then show ?case using upd_run_phases [of "\<lambda>r. r\<lparr>rn_ready := True\<rparr>" i m j]
    by (simp add: run_onReady_def upd_run_def)
next
  case (Report j m err)
  then show ?case by (cases "i = j") (simp_all add: run_report_def upd_run_def phase_order)
next
  case (CloseDone j m m')
  obtain d where m': "m' = upd_run j (\<lambda>r. r\<lparr>rn_phase := Over, rn_cancelled := True\<rparr>)
      (upd_run d (\<lambda>r. r\<lparr>rn_done := True\<rparr>) m)"
    using CloseDone.hyps(3) by (auto simp: run_close_done_def split: option.splits if_splits)
  have one: "rn_phase (mb_runs m ! i) \<le> rn_phase (mb_runs (upd_run d (\<lambda>r. r\<lparr>rn_done := True\<rparr>) m) ! i)"
    by (rule upd_run_phases [OF _ CloseDone.prems]) simp
  also have "\<dots> \<le> rn_phase (mb_runs m' ! i)"
    unfolding m' by (rule upd_run_phases) (use CloseDone.prems in \<open>simp_all add: phase_order upd_run_def\<close>)
  finally show ?case using CloseDone.prems by (simp add: m' upd_run_def)
next
  case (Stop m d m')
  show ?case
  proof (cases "mb_cancel m")
    case None
    with Stop show ?thesis by (simp add: stop_begin_def)
  next
    case (Some j)
    with Stop.hyps have m': "m' = upd_run j (\<lambda>r. r\<lparr>rn_cancelled := True\<rparr>) m" by (simp add: stop_begin_def)
    have "rn_phase (mb_runs m ! i) \<le> rn_phase (mb_runs m' ! i)"
      unfolding m' by (rule upd_run_phases [OF _ Stop.prems]) simp
    with Stop.prems show ?thesis by (simp add: m' upd_run_def)
  qed
qed (simp_all add: configs_same_runs [unfolded same_runs_def])

text \<open>The session configuration a mobile client stands for: mode \<open>cnc\<close> on the loopback address.\<close>

definition mobile_session ::
    "mobileConfig \<Rightarrow> string \<Rightarrow> string \<Rightarrow> string \<Rightarrow> string \<Rightarrow> int \<Rightarrow> string \<Rightarrow> string \<Rightarrow> session_config" where
  "mobile_session cfg carrier roomID clientID keyHex port user pass =
     media.extend (media.make 0 0 0 [] [] 0 [] [] 0 0 (mc_vp8FPS cfg) (mc_vp8BatchSize cfg) 0 0 0 0)
       (session_config.fields ''cnc'' (mc_link cfg) (mc_transport cfg) carrier roomID clientID keyHex
          ''127.0.0.1'' port user pass (mc_dnsServer cfg) [] 0 0)"

lemma mobile_session_fields [simp]:
  "s_Mode (mobile_session cfg c r i k p u w) = ''cnc''" "s_Link (mobile_session cfg c r i k p u w) = mc_link cfg"
  "s_Transport (mobile_session cfg c r i k p u w) = mc_transport cfg" "s_Carrier (mobile_session cfg c r i k p u w) = c"
  "s_RoomID (mobile_session cfg c r i k p u w) = r" "s_ClientID (mobile_session cfg c r i k p u w) = i"
  "s_KeyHex (mobile_session cfg c r i k p u w) = k" "s_SOCKSHost (mobile_session cfg c r i k p u w) = ''127.0.0.1''"
  "s_SOCKSPort (mobile_session cfg c r i k p u w) = p" "s_DNSServer (mobile_session cfg c r i k p u w) = mc_dnsServer cfg"
  "VP8FPS (mobile_session cfg c r i k p u w) = mc_vp8FPS cfg"
  "VP8BatchSize (mobile_session cfg c r i k p u w) = mc_vp8BatchSize cfg"
  by (simp_all add: mobile_session_def session_config.defs media.defs)

lemma mb_args_session:
  "mb_args cfg carrier (mb_buildRoomURL carrier roomID) keyHex clientID port user pass =
     client_args_of (mobile_session cfg carrier roomID clientID keyHex port user pass)"
  by (simp add: mb_args_def client_args_of_def mobile_session_def session_config.defs client_args.defs media.defs
      mb_buildRoomURL_def buildRoomURL_def)

lemma Start_cases:
  assumes "Start carrier roomID clientID keyHex port user pass m = (None, m')"
    and "mb_config_ok m"
  shows "validateStartArgs carrier roomID clientID keyHex = None"
    and "mb_defaults m' = mb_defaults (ensureDefaultConfigLocked m)"
    and "mb_runs m' = mb_runs m @ [new_run (client_args_of
           (mobile_session (mb_defaults m') carrier roomID clientID keyHex port user pass))]"
proof -
  let ?m1 = "ensureDefaultConfigLocked m"
  have start: "startWithConfig carrier (mc_transport (mb_defaults ?m1)) roomID clientID keyHex port user pass
      (mb_defaults ?m1) ?m1 = (None, m')"
    using assms(1) by (simp add: Start_def Let_def)
  show defaults: "mb_defaults m' = mb_defaults ?m1"
    using start_keeps_defaults [OF start] by simp
  have carrier: "normalizeCarrier carrier = carrier" by (simp add: normalizeCarrier_def)
  have "mc_transport (mb_defaults ?m1) \<in> {''datachannel'', ''vp8channel''}"
    using ensure_config_ok [OF assms(2)] by (simp add: mb_config_ok_def)
  then have "normalizeTransport (mc_transport (mb_defaults ?m1)) = mc_transport (mb_defaults ?m1)"
    "mc_transport (mb_defaults ?m1) \<noteq> []"
    by (auto intro: normalizeTransport_known)
  then have "snd (startWithConfig carrier (mc_transport (mb_defaults ?m1)) roomID clientID keyHex port user pass
      (mb_defaults ?m1) ?m1) = m'" and "validateStartArgs carrier roomID clientID keyHex = None"
    and "mb_runs m' = mb_runs ?m1 @ [new_run (client_args_of
           (mobile_session (mb_defaults ?m1) carrier roomID clientID keyHex port user pass))]"
    using start by (auto simp: startWithConfig_def Let_def carrier mb_args_session split: if_splits option.splits)
  then show "validateStartArgs carrier roomID clientID keyHex = None"
    and "mb_runs m' = mb_runs m @ [new_run (client_args_of
           (mobile_session (mb_defaults m') carrier roomID clientID keyHex port user pass))]"
    using configs_same_runs(1) [of m] unfolding defaults same_runs_def by simp_all
qed

section \<open>Pinging\<close>

text \<open>The results of the samples, one after the other, with the pauses between them.\<close>

fun sample_results :: "'w ping_env \<Rightarrow> string \<Rightarrow> nat \<Rightarrow> 'w \<Rightarrow> (go_error + int) list" where
  "sample_results env url 0 w = []"
| "sample_results env url (Suc left) w =
     (case singleHTTPPingRequest env url w of
        (r, w') \<Rightarrow> r # sample_results env url left (if 0 < left then pe_Sleep env httpPingSampleDelay w' else w'))"

definition latencies :: "(go_error + int) list \<Rightarrow> int list" where
  "latencies rs = [t. Inr t \<leftarrow> rs, 0 < t]"

fun last_error :: "(go_error + int) list \<Rightarrow> go_error option" where
  "last_error [] = None"
| "last_error (r # rs) =
     (case last_error rs of
        Some e \<Rightarrow> Some e
      | None \<Rightarrow> (case r of Inl e \<Rightarrow> Some e | Inr _ \<Rightarrow> None))"

lemma latencies_Cons:
  "latencies (Inl e # rs) = latencies rs" "latencies (Inr t # rs) = (if 0 < t then t # latencies rs else latencies rs)"
  by (simp_all add: latencies_def)

lemma latencies_positive: "t \<in> set (latencies rs) \<Longrightarrow> 0 < t"
  by (auto simp: latencies_def split: sum.splits if_splits)

text \<open>Zero stands for no latency yet.\<close>

definition least :: "int \<Rightarrow> int list \<Rightarrow> int" where
  "least best ts = fold (\<lambda>t b. bestPositiveLatency b t) ts best"

lemma least_min:
  "\<forall>t \<in> set ts. 0 < t \<Longrightarrow> 0 \<le> best \<Longrightarrow>
     least best ts = (if ts = [] then best else if best = 0 then Min (set ts) else min best (Min (set ts)))"
proof (induction ts arbitrary: best)
  case (Cons t ts)
  have "least best (t # ts) = least (bestPositiveLatency best t) ts" by (simp add: least_def)
  also have "bestPositiveLatency best t = (if best = 0 then t else min best t)"
    using Cons.prems by (auto simp: bestPositiveLatency_def)
  finally show ?case
    using Cons.IH [of "if best = 0 then t else min best t"] Cons.prems
    by (cases "ts = []") (auto simp: least_def min.assoc)
qed (simp add: least_def)

lemma least_latency: "least best (latencies (Inr t # rs)) = least (bestPositiveLatency best t) (latencies rs)"
  by (simp add: least_def latencies_Cons bestPositiveLatency_def)

lemma ping_samples_results:
  "\<exists>w'. ping_samples env url n best lastErr w =
     (least best (latencies (sample_results env url n w)),
      case last_error (sample_results env url n w) of None \<Rightarrow> lastErr | Some e \<Rightarrow> Some e, w')"
proof (induction env url n best lastErr w rule: ping_samples.induct)
  case (1 env url best lastErr w)
  show ?case by (simp add: least_def latencies_def)
next
  case (2 env url left best lastErr w)
  obtain r w1 where r: "singleHTTPPingRequest env url w = (r, w1)" by fastforce
  show ?case
  proof (cases r)
    case (Inl e)
    from 2(1) [OF r [symmetric, unfolded Inl] refl] show ?thesis
      by (auto simp: r Inl latencies_Cons split: option.split)
  next
    case (Inr t)
    from 2(2) [OF r [symmetric, unfolded Inr] refl] show ?thesis
      by (auto simp: r Inr least_latency split: option.split)
  qed
qed

text \<open>The best sample is the least positive latency measured; without one, the last error counts.\<close>

lemma best_sample_is_least:
  "fst (bestHTTPPingSample env url w) =
     (let rs = sample_results env url 3 w in
      if latencies rs \<noteq> [] then Inr (Min (set (latencies rs)))
      else (case last_error rs of Some err \<Rightarrow> Inl err | None \<Rightarrow> Inl errHTTPPingTimedOut))"
proof -
  let ?rs = "sample_results env url 3 w"
  obtain w' where s: "ping_samples env url 3 0 None w = (least 0 (latencies ?rs), last_error ?rs, w')"
    using ping_samples_results [of env url 3 0 None w] by (auto split: option.splits)
  have pos: "\<forall>t \<in> set (latencies ?rs). 0 < t" using latencies_positive by blast
  have "least 0 (latencies ?rs) = (if latencies ?rs = [] then 0 else Min (set (latencies ?rs)))"
    using least_min [OF pos, of 0] by simp
  moreover have "0 < Min (set (latencies ?rs))" if "latencies ?rs \<noteq> []"
    using pos that by simp
  ultimately show ?thesis
    by (simp add: bestHTTPPingSample_def httpPingSamples_def s Let_def)
qed

section \<open>Properties\<close>

text \<open>C30: at every moment at most one background client runs, the one \<open>Stop\<close> cancels and whose channels
  \<open>Stop\<close> and \<open>WaitReady\<close> wait on; while it runs a start is refused and starts nothing. If nobody starts
  a client while another one is between reporting its result and closing its channel, then closing
  never panics and the wait of \<open>Stop\<close> is over exactly when the client is.\<close>

theorem mobile_one_client:
  assumes "mb_reachable quiet m"
  shows "(\<forall>i < length (mb_runs m). rn_phase (mb_runs m ! i) = Running \<longleftrightarrow> mb_cancel m = Some i)
     \<and> (IsRunning m \<longrightarrow> fst (stop_begin m) = mb_cancel m \<and> mb_ready m = mb_cancel m
          \<and> startWithConfig carrier transport roomID clientID keyHex port user pass cfg m
              = (Some errAlreadyRunning, registerDefaults m))
     \<and> (quiet \<longrightarrow> (\<forall>i < length (mb_runs m).
          (rn_phase (mb_runs m ! i) = Reported \<longrightarrow> run_close_done i m \<noteq> None)
          \<and> (stop_returns (Some i) m \<longleftrightarrow> rn_phase (mb_runs m ! i) = Over)))"
proof (intro conjI impI)
  have inv: "mb_inv m" and q: "quiet \<longrightarrow> mb_quiet m" using mb_reachable_inv [OF assms] by simp_all
  show "\<forall>i < length (mb_runs m). rn_phase (mb_runs m ! i) = Running \<longleftrightarrow> mb_cancel m = Some i"
    using inv by (simp add: mb_inv_def)
  {
    assume run: "IsRunning m"
    then show "fst (stop_begin m) = mb_cancel m" "mb_ready m = mb_cancel m"
      using inv by (auto simp: IsRunning_def stop_begin_def mb_inv_def split: option.split)
    show "startWithConfig carrier transport roomID clientID keyHex port user pass cfg m
        = (Some errAlreadyRunning, registerDefaults m)"
      using run by (simp add: startWithConfig_def IsRunning_def Let_def)
  }
  assume quiet
  with q have "mb_quiet m" by simp
  then show "\<forall>i < length (mb_runs m). (rn_phase (mb_runs m ! i) = Reported \<longrightarrow> run_close_done i m \<noteq> None)
      \<and> (stop_returns (Some i) m \<longleftrightarrow> rn_phase (mb_runs m ! i) = Over)"
    by (auto simp: mb_quiet_def run_close_done_def stop_returns_def split: option.split)
qed

text \<open>C31: a client that \<open>Start\<close> starts gets exactly the arguments the command line would give it in mode
  \<open>cnc\<close> for the same settings; and with the built-in registries \<open>Validate\<close> would accept these unless
  the carrier is unknown, the link or DNS server was set to something else, or the port is zero.\<close>

theorem mobile_start_validated:
  assumes "mb_reachable quiet m"
    and "Start carrier roomID clientID keyHex port user pass m = (None, m')"
    and "cfg = mobile_session (mb_defaults m') carrier roomID clientID keyHex port user pass"
  shows "mb_runs m' = mb_runs m @ [new_run (client_args_of cfg)]
     \<and> (Validate (RegisterDefaults jazz telemost wbstream vc sc vp empty_registries) cfg = None \<longleftrightarrow>
          carrier \<in> {''telemost'', ''jazz'', ''wbstream''} \<and> mc_link (mb_defaults m') = ''direct''
          \<and> mc_dnsServer (mb_defaults m') \<noteq> [] \<and> port \<noteq> 0)"
proof -
  have ok: "mb_config_ok m" by (rule mb_reachable_config_ok [OF assms(1)])
  note start = Start_cases [OF assms(2) ok]
  have args: "carrier \<noteq> []" "roomID \<noteq> [] \<or> carrier = ''jazz''" "clientID \<noteq> []" "keyHex \<noteq> []"
    using start(1) by (auto simp: validateStartArgs_def split: if_splits)
  have settings: "mc_transport (mb_defaults m') \<in> {''datachannel'', ''vp8channel''}"
    "1 \<le> mc_vp8FPS (mb_defaults m')" "1 \<le> mc_vp8BatchSize (mb_defaults m')"
    using ensure_config_ok [OF ok] by (auto simp: start(2) mb_config_ok_def)
  then have "transport_settings_ok cfg" by (auto simp: transport_settings_ok_def assms(3))
  moreover have "config_complete cfg \<longleftrightarrow>
      mc_link (mb_defaults m') \<noteq> [] \<and> mc_dnsServer (mb_defaults m') \<noteq> [] \<and> port \<noteq> 0"
    using args settings by (auto simp: config_complete_def assms(3))
  ultimately have "Validate (RegisterDefaults jazz telemost wbstream vc sc vp empty_registries) cfg = None \<longleftrightarrow>
      carrier \<in> {''telemost'', ''jazz'', ''wbstream''} \<and> mc_link (mb_defaults m') = ''direct''
      \<and> mc_dnsServer (mb_defaults m') \<noteq> [] \<and> port \<noteq> 0"
    unfolding Validate_None default_link default_transport default_carrier
    using settings by (auto simp: empty_registries_def builtin_lookup_empty builtin_factory_def assms(3))
  then show ?thesis using start(3) by (simp add: assms(3))
qed


section \<open>Witnesses\<close>

lemma example_start:
  "\<exists>m :: nat mobile. Start ''jazz'' [] ''alice'' ''00ff'' 1080 [] [] (mobile_init False) = (None, m)
     \<and> mb_defaults m = \<lparr>mc_link = ''direct'', mc_transport = ''vp8channel'', mc_dnsServer = ''1.1.1.1:53'',
         mc_vp8FPS = 60, mc_vp8BatchSize = 8\<rparr>
     \<and> mb_cancel m = Some 0 \<and> length (mb_runs m) = 1 \<and> rn_phase (mb_runs m ! 0) = Running
     \<and> mb_reachable True m"
proof -
  let ?m1 = "ensureDefaultConfigLocked (mobile_init False :: nat mobile)"
  have fields: "mb_cancel ?m1 = None" "mb_runs ?m1 = []"
    by (simp_all add: ensureDefaultConfigLocked_def mobile_init_def)
  have "\<exists>m. startWithConfig ''jazz'' (mc_transport (mb_defaults ?m1)) [] ''alice'' ''00ff'' 1080 [] []
      (mb_defaults ?m1) ?m1 = (None, m)"
    by (rule start_accepted) (simp_all add: fields validateStartArgs_def normalizeCarrier_def)
  then obtain m where s: "startWithConfig ''jazz'' (mc_transport (mb_defaults ?m1)) [] ''alice'' ''00ff'' 1080 [] []
      (mb_defaults ?m1) ?m1 = (None, m)" ..
  have "mb_reachable True ?m1" by (rule mb_reachable.step [OF mb_reachable.init mb_step.Defaults])
  moreover have "\<not> True \<or> (\<forall>r \<in> set (mb_runs ?m1). rn_phase r \<noteq> Reported)"
    by (simp add: ensureDefaultConfigLocked_def mobile_init_def)
  ultimately have reach: "mb_reachable True m" using s by (metis mb_reachable.step mb_step.Start)
  have "mb_defaults m = mb_defaults ?m1 \<and> mb_cancel m = Some 0 \<and> length (mb_runs m) = 1
      \<and> rn_phase (mb_runs m ! 0) = Running"
    using start_keeps_defaults [OF s] start_started [OF s] fields by (auto simp: new_run_def)
  with s reach show ?thesis
    by (intro exI [of _ m])
      (simp add: Start_def Let_def ensureDefaultConfigLocked_def mobile_init_def defaultLink_def
        defaultTransport_def defaultDNSServer_def)
qed


theorem mobile_one_client_witness:
  "\<exists>m :: nat mobile. mb_reachable True m \<and> mb_cancel m = Some 0 \<and> fst (stop_begin m) = Some 0
     \<and> \<not> stop_returns (Some 0) m"
proof -
  obtain m :: "nat mobile" where m: "mb_cancel m = Some 0" "length (mb_runs m) = 1"
      "rn_phase (mb_runs m ! 0) = Running" "mb_reachable True m"
    using example_start by blast
  from mobile_one_client [OF m(4)] m show ?thesis
    by (intro exI [of _ m]) (simp add: IsRunning_def)
qed

theorem mobile_start_validated_witness:
  "\<exists>m :: nat mobile. Start ''jazz'' [] ''alice'' ''00ff'' 1080 [] [] (mobile_init False) = (None, m)
     \<and> Validate (RegisterDefaults failing_factory failing_factory failing_factory
          (\<lambda>_. Inl ErrTransportNotFound) (\<lambda>_. Inl ErrTransportNotFound) (\<lambda>_. Inl ErrTransportNotFound)
          empty_registries) (mobile_session (mb_defaults m) ''jazz'' [] ''alice'' ''00ff'' 1080 [] []) = None"
proof -
  obtain m :: "nat mobile" where m: "Start ''jazz'' [] ''alice'' ''00ff'' 1080 [] [] (mobile_init False) = (None, m)"
      "mc_link (mb_defaults m) = ''direct''" "mc_dnsServer (mb_defaults m) = ''1.1.1.1:53''"
    using example_start by auto
  have "mb_reachable True (mobile_init False :: nat mobile)" by (rule mb_reachable.init)
  from mobile_start_validated [OF this m(1) refl, of failing_factory failing_factory failing_factory] m
  show ?thesis by auto
qed

section \<open>A start while another client ends\<close>

text \<open>The fault that quiet starts avoid: \<open>close(done)\<close> reads the package variable without the lock. A
  client started after the first one has reported its result gets its channel closed by the first
  one's goroutine: \<open>Stop\<close> then returns while it runs, whoever waits for the first one waits for
  ever, and its own goroutine panics on the closed channel.\<close>

lemma reachable_not_quiet: "mb_reachable True m \<Longrightarrow> mb_reachable False m"
proof (induction rule: mb_reachable.induct)
  case (init sf)
  show ?case by (rule mb_reachable.init)
next
  case (step m m')
  from step.hyps(2) have "mb_step False m m'" by cases (auto intro: mb_step.intros)
  with step.IH show ?case by (rule mb_reachable.step)
qed

lemma close_done_of_next:
  assumes "mb_done m = Some 1" "length (mb_runs m) = 2" "\<not> rn_done (mb_runs m ! 0)" "\<not> rn_done (mb_runs m ! 1)"
  shows "\<exists>m'. run_close_done 0 m = Some m' \<and> stop_returns (Some 1) m' \<and> \<not> stop_returns (Some 0) m'
     \<and> rn_phase (mb_runs m' ! 1) = rn_phase (mb_runs m ! 1) \<and> run_close_done 1 (run_report 1 err m') = None"
  using assms by (simp add: run_close_done_def stop_returns_def run_report_def)

lemma mobile_restart_race:
  "\<exists>m m' :: nat mobile. mb_reachable False m \<and> run_close_done 0 m = Some m'
     \<and> rn_phase (mb_runs m' ! 1) = Running \<and> stop_returns (Some 1) m' \<and> \<not> stop_returns (Some 0) m'
     \<and> run_close_done 1 (run_report 1 None m') = None"
proof -
  obtain m0 :: "nat mobile" where m0: "length (mb_runs m0) = 1" "rn_phase (mb_runs m0 ! 0) = Running"
      "mb_reachable True m0"
    using example_start by blast
  have notdone: "\<not> rn_done (mb_runs m0 ! 0)"
    using mb_reachable_inv [OF m0(3)] m0(1,2) by (auto simp: mb_quiet_def)
  let ?m1 = "run_report 0 None m0"
  have m1: "mb_reachable False ?m1"
    by (rule mb_reachable.step [OF reachable_not_quiet [OF m0(3)]], rule mb_step.Report) (use m0 in simp_all)
  have "\<exists>m. startWithConfig ''jazz'' [] [] ''alice'' ''00ff'' 1080 [] [] (mb_defaults ?m1) ?m1 = (None, m)"
    by (rule start_accepted) (simp_all add: run_report_def validateStartArgs_def normalizeCarrier_def)
  then obtain m where s: "startWithConfig ''jazz'' [] [] ''alice'' ''00ff'' 1080 [] [] (mb_defaults ?m1) ?m1 = (None, m)" ..
  have "mb_reachable False m"
    by (rule mb_reachable.step [OF m1], rule mb_step.Start [OF _ s]) simp
  moreover have "mb_done m = Some 1" "length (mb_runs m) = 2" "\<not> rn_done (mb_runs m ! 0)"
    "\<not> rn_done (mb_runs m ! 1)" "rn_phase (mb_runs m ! 1) = Running"
    using start_started [OF s] m0(1) notdone by (auto simp: run_report_def upd_run_def new_run_def nth_append)
  ultimately show ?thesis
    using close_done_of_next [of m None] by metis
qed

text \<open>\<open>StartWithTransport\<close> with an empty name runs a client without a transport.\<close>

lemma StartWithTransport_empty:
  assumes "mb_cancel m = None" and "validateStartArgs carrier roomID clientID keyHex = None"
  shows "\<exists>m'. StartWithTransport carrier [] roomID clientID keyHex port user pass m = (None, m')
     \<and> ca_transportName (rn_args (last (mb_runs m'))) = []"
  using assms
  by (simp add: StartWithTransport_def startWithConfig_def Let_def registerDefaults_def
      ensureDefaultConfigLocked_def normalizeCarrier_def mb_args_def media.defs client_args.defs new_run_def)

end
