(* ===== verification/Cgo.thy ===== *)
theory Cgo
  imports Mobile
begin

text \<open>
  \<open>cmd/olcrtc-cgo/main.go\<close>: the C interface. A C string is \<open>None\<close> when the pointer is null, a C long
  long is an integer of 64 bits, and \<open>w\<close> is the width of Go's \<open>int\<close> on the platform.
\<close>

definition errorResult :: int where "errorResult = - 1"

definition goString :: "string option \<Rightarrow> string" where
  "goString value = (case value of None \<Rightarrow> [] | Some s \<Rightarrow> s)"

definition goInt :: "nat \<Rightarrow> int \<Rightarrow> int" where
  "goInt w value =
     (let maxInt = 2 ^ (w - 1) - 1; minInt = - maxInt - 1
      in if value > maxInt then maxInt else if value < minInt then minInt else value)"

definition cgo_result :: "go_error + int \<Rightarrow> int" where
  "cgo_result r = (case r of Inl err \<Rightarrow> errorResult | Inr result \<Rightarrow> result)"

text \<open>The exported calls: how the client is started, and what is returned at the end.\<close>

definition cgo_Check_start ::
    "nat \<Rightarrow> string option \<Rightarrow> string option \<Rightarrow> string option \<Rightarrow> string option \<Rightarrow> string option \<Rightarrow> int \<Rightarrow> int \<Rightarrow> int \<Rightarrow>
     int \<Rightarrow> 'w mobile \<Rightarrow> (go_error + client_args \<times> int) \<times> 'w mobile" where
  "cgo_Check_start w carrier transport roomID clientID keyHex socksPort timeoutMillis vp8FPS vp8BatchSize =
     Check_start (goString carrier) (goString transport) (goString roomID) (goString clientID) (goString keyHex)
       (goInt w socksPort) (goInt w timeoutMillis) (goInt w vp8FPS) (goInt w vp8BatchSize)"

definition cgo_Check_end :: "int \<Rightarrow> isolated_event \<Rightarrow> int" where
  "cgo_Check_end elapsed ev = cgo_result (Check_end elapsed ev)"

definition cgo_Ping_start ::
    "nat \<Rightarrow> string option \<Rightarrow> string option \<Rightarrow> string option \<Rightarrow> string option \<Rightarrow> string option \<Rightarrow> int \<Rightarrow> int \<Rightarrow> int \<Rightarrow>
     int \<Rightarrow> 'w mobile \<Rightarrow> (go_error + client_args \<times> int) \<times> 'w mobile" where
  "cgo_Ping_start w carrier transport roomID clientID keyHex socksPort timeoutMillis vp8FPS vp8BatchSize =
     Ping_start (goString carrier) (goString transport) (goString roomID) (goString clientID) (goString keyHex)
       (goInt w socksPort) (goInt w timeoutMillis) (goInt w vp8FPS) (goInt w vp8BatchSize)"

definition cgo_Ping_end :: "'w ping_env \<Rightarrow> string option \<Rightarrow> isolated_event \<Rightarrow> 'w \<Rightarrow> int \<times> 'w" where
  "cgo_Ping_end env pingURL ev w = map_prod cgo_result id (Ping_end env (goString pingURL) ev w)"

text \<open>\<open>goInt\<close> saturates at the bounds of the type and changes nothing within them.\<close>

lemma goInt_range: "0 < w \<Longrightarrow> - (2 ^ (w - 1)) \<le> goInt w v \<and> goInt w v < 2 ^ (w - 1)"
  by (simp add: goInt_def Let_def)

lemma goInt_id: "- (2 ^ (w - 1)) \<le> v \<Longrightarrow> v < 2 ^ (w - 1) \<Longrightarrow> goInt w v = v"
  by (simp add: goInt_def Let_def)

text \<open>A ping that succeeded is positive, so the error result is never taken for a latency.\<close>

lemma ping_positive: "fst (bestHTTPPingSample env url w) = Inr t \<Longrightarrow> 0 < t"
  by (auto simp: bestHTTPPingSample_def split: prod.splits if_splits option.splits)

lemma cgo_Ping_error:
  "fst (cgo_Ping_end env pingURL ev w) = errorResult \<longleftrightarrow> (\<exists>err. fst (Ping_end env (goString pingURL) ev w) = Inl err)"
proof (cases "fst (Ping_end env (goString pingURL) ev w)")
  case (Inl err)
  then show ?thesis by (simp add: cgo_Ping_end_def cgo_result_def)
next
  case (Inr t)
  then have "0 < t"
    by (auto simp: Ping_end_def httpPingThroughSocks_def split: isolated_event.splits option.splits sum.splits
        intro: ping_positive)
  with Inr show ?thesis by (simp add: cgo_Ping_end_def cgo_result_def errorResult_def)
qed

end
