(* ===== verification/Names.thy ===== *)
theory Names
  imports Jazz_Api
begin

text \<open>
  \<open>internal/names\<close>: the dictionaries of display names. The embedded files and the files on disk are
  parameters: texts, with \<open>readFile\<close> for what opening and reading a path gives. Random numbers are
  taken by an operation on a world \<open>'w\<close>. \<open>TrimSpace\<close> is the one of \<open>Go_Std\<close>, on ASCII white space.
\<close>

section \<open>Dictionaries\<close>

record names =
  firstNames :: "string list"
  lastNames :: "string list"

definition nonempty_lines :: "string list \<Rightarrow> string list" where
  "nonempty_lines ls = filter (\<lambda>l. l \<noteq> []) (map TrimSpace ls)"

definition parseEmbedded :: "string \<Rightarrow> string list" where
  "parseEmbedded raw = nonempty_lines (Split (CHR 0x0A) raw)"

definition names_init :: "string \<Rightarrow> string \<Rightarrow> names" where
  "names_init embeddedNames embeddedSurnames =
     \<lparr>firstNames = parseEmbedded embeddedNames, lastNames = parseEmbedded embeddedSurnames\<rparr>"

text \<open>
  \<open>bufio.Scanner\<close>: the lines of a text. A line of 65536 bytes or more does not fit the buffer: the
  lines before it have been scanned and the scanner stops with an error.
\<close>

definition MaxScanTokenSize :: nat where "MaxScanTokenSize = 64 * 1024"
definition ErrTooLong :: go_error where "ErrTooLong = Base ''bufio.Scanner: token too long''"

fun scan_lines :: "string list \<Rightarrow> string list \<times> go_error option" where
  "scan_lines [] = ([], None)"
| "scan_lines (l # ls) =
     (if MaxScanTokenSize \<le> length l then ([], Some ErrTooLong)
      else (case scan_lines ls of (ms, e) \<Rightarrow> (l # ms, e)))"

text \<open>The \<open>%q\<close> verb on a path of printable characters without quotes and backslashes.\<close>

definition quoted :: "string \<Rightarrow> string" where
  "quoted s = [CHR 0x22] @ s @ [CHR 0x22]"

definition loadNames :: "(string \<Rightarrow> go_error + string) \<Rightarrow> string \<Rightarrow> go_error + string list" where
  "loadNames readFile path =
     (case readFile path of
        Inl err \<Rightarrow> Inl (Ctx (''open names file '' @ quoted path) err)
      | Inr text' \<Rightarrow>
          (case scan_lines (Split (CHR 0x0A) text') of
             (ls, Some err) \<Rightarrow> Inl (Ctx (''scan names file '' @ quoted path) err)
           | (ls, None) \<Rightarrow> Inr (nonempty_lines ls)))"

definition override :: "go_error + string list \<Rightarrow> string list \<Rightarrow> string list" where
  "override r old = (case r of Inr ns \<Rightarrow> if ns \<noteq> [] then ns else old | Inl _ \<Rightarrow> old)"

definition LoadNameFiles ::
    "(string \<Rightarrow> go_error + string) \<Rightarrow> string \<Rightarrow> string \<Rightarrow> names \<Rightarrow> go_error option \<times> names" where
  "LoadNameFiles readFile firstPath lastPath d =
     (None, \<lparr>firstNames = override (loadNames readFile firstPath) (firstNames d),
             lastNames = override (loadNames readFile lastPath) (lastNames d)\<rparr>)"

section \<open>Generating\<close>

text \<open>\<open>randInt\<close> is \<open>rand.Int\<close>: an error, or a number below its argument.\<close>

definition randomIndex :: "(nat \<Rightarrow> 'w \<Rightarrow> (go_error + nat) \<times> 'w) \<Rightarrow> nat \<Rightarrow> 'w \<Rightarrow> nat \<times> 'w" where
  "randomIndex randInt limit w =
     (if limit \<le> 1 then (0, w)
      else (case randInt limit w of (Inl err, w') \<Rightarrow> (0, w') | (Inr n, w') \<Rightarrow> (n, w')))"

definition Generate :: "(nat \<Rightarrow> 'w \<Rightarrow> (go_error + nat) \<times> 'w) \<Rightarrow> names \<Rightarrow> 'w \<Rightarrow> string \<times> 'w" where
  "Generate randInt d w =
     (if firstNames d = [] \<or> lastNames d = [] then (''anonymous user'', w)
      else (case randomIndex randInt (length (firstNames d)) w of (i, w1) \<Rightarrow>
           (case randomIndex randInt (length (lastNames d)) w1 of (j, w2) \<Rightarrow>
              (firstNames d ! i @ '' '' @ lastNames d ! j, w2))))"

section \<open>Lemmas\<close>

lemma scan_lines_all:
  "\<forall>l \<in> set ls. length l < MaxScanTokenSize \<Longrightarrow> scan_lines ls = (ls, None)"
  by (induction ls) auto

text \<open>A file with the text of an embedded one and no overlong line gives the same names.\<close>

lemma loadNames_as_embedded:
  assumes "readFile path = Inr raw" and "\<forall>l \<in> set (Split (CHR 0x0A) raw). length l < MaxScanTokenSize"
  shows "loadNames readFile path = Inr (parseEmbedded raw)"
  using assms by (simp add: loadNames_def parseEmbedded_def scan_lines_all)

lemma nonempty_lines_trimmed:
  "n \<in> set (nonempty_lines ls) \<Longrightarrow> n \<noteq> [] \<and> \<not> is_space (hd n) \<and> \<not> is_space (last n)"
  using TrimSpace_ends by (auto simp: nonempty_lines_def)

text \<open>Loading never empties a dictionary.\<close>

lemma LoadNameFiles_keeps:
  assumes "LoadNameFiles readFile firstPath lastPath d = (e, d')" and "firstNames d \<noteq> []" and "lastNames d \<noteq> []"
  shows "e = None \<and> firstNames d' \<noteq> [] \<and> lastNames d' \<noteq> []"
  using assms by (auto simp: LoadNameFiles_def override_def split: sum.splits if_splits)

lemma randomIndex_range:
  assumes "\<And>w n w'. randInt limit w = (Inr n, w') \<Longrightarrow> n < limit" and "0 < limit"
  shows "fst (randomIndex randInt limit w) < limit"
  using assms by (auto simp: randomIndex_def split: prod.split sum.split)

text \<open>A generated name is a first and a last name of the dictionaries, or the fixed one.\<close>

lemma Generate_from_dictionaries:
  assumes "\<And>limit w n w'. randInt limit w = (Inr n, w') \<Longrightarrow> n < limit"
  shows "fst (Generate randInt d w) = ''anonymous user''
     \<or> (\<exists>f \<in> set (firstNames d). \<exists>l \<in> set (lastNames d). fst (Generate randInt d w) = f @ '' '' @ l)"
proof (cases "firstNames d = [] \<or> lastNames d = []")
  case True
  then show ?thesis by (auto simp: Generate_def)
next
  case False
  obtain i w1 where i: "randomIndex randInt (length (firstNames d)) w = (i, w1)" by fastforce
  obtain j w2 where j: "randomIndex randInt (length (lastNames d)) w1 = (j, w2)" by fastforce
  have "i < length (firstNames d)"
    using randomIndex_range [of randInt "length (firstNames d)" w] assms False i by simp
  moreover have "j < length (lastNames d)"
    using randomIndex_range [of randInt "length (lastNames d)" w1] assms False j by simp
  ultimately show ?thesis
    using False i j by (auto simp: Generate_def intro!: disjI2 bexI [OF _ nth_mem])
qed

end
