(* ===== verification/Flag.thy ===== *)
theory Flag
  imports Io Json
begin

text \<open>
  The parts of Go's standard library the command line rests on: \<open>strconv.ParseInt\<close> with base 0 and 64
  bits, \<open>strconv.ParseBool\<close>, and \<open>flag.FlagSet.Parse\<close> over a table of flags.
\<close>

section \<open>Package strconv\<close>

datatype num_error = ErrSyntax | ErrRange

definition digit_val :: "char \<Rightarrow> nat option" where
  "digit_val c =
     (let n = of_char (char_lower c) :: nat in
      if 48 \<le> n \<and> n \<le> 57 then Some (n - 48)
      else if 97 \<le> n \<and> n \<le> 122 then Some (n - 97 + 10)
      else None)"

text \<open>The digits after the prefix: the value, and whether there were underscores.\<close>

fun parse_digits :: "nat \<Rightarrow> string \<Rightarrow> nat \<Rightarrow> bool \<Rightarrow> num_error + nat \<times> bool" where
  "parse_digits base [] n us = Inr (n, us)"
| "parse_digits base (c # s) n us =
     (if c = CHR ''_'' then parse_digits base s n True
      else (case digit_val c of
              None \<Rightarrow> Inl ErrSyntax
            | Some d \<Rightarrow>
                if d \<ge> base then Inl ErrSyntax
                else if n * base + d \<ge> 2 ^ 64 then Inl ErrRange
                else parse_digits base s (n * base + d) us))"

definition base_prefix :: "string \<Rightarrow> nat \<times> string" where
  "base_prefix s =
     (if s = [] \<or> hd s \<noteq> CHR ''0'' then (10, s)
      else if 3 \<le> length s \<and> char_lower (s ! 1) = CHR ''b'' then (2, drop 2 s)
      else if 3 \<le> length s \<and> char_lower (s ! 1) = CHR ''o'' then (8, drop 2 s)
      else if 3 \<le> length s \<and> char_lower (s ! 1) = CHR ''x'' then (16, drop 2 s)
      else (8, drop 1 s))"

text \<open>Underscores separate digits; the state is what came before: start, digit or prefix, underscore,
  anything else.\<close>

datatype seen = Start_of | Digit_of | Underscore_of | Other_of

fun underscores :: "bool \<Rightarrow> seen \<Rightarrow> string \<Rightarrow> bool" where
  "underscores hex st [] \<longleftrightarrow> st \<noteq> Underscore_of"
| "underscores hex st (c # s) \<longleftrightarrow>
     (if is_digit c \<or> hex \<and> char_lower c \<in> set ''abcdef'' then underscores hex Digit_of s
      else if c = CHR ''_'' then st = Digit_of \<and> underscores hex Underscore_of s
      else st \<noteq> Underscore_of \<and> underscores hex Other_of s)"

definition underscoreOK :: "string \<Rightarrow> bool" where
  "underscoreOK s =
     (if 2 \<le> length s \<and> hd s = CHR ''0'' \<and> char_lower (s ! 1) \<in> set ''box''
      then underscores (char_lower (s ! 1) = CHR ''x'') Digit_of (drop 2 s)
      else underscores False Start_of s)"

definition ParseUint :: "string \<Rightarrow> num_error + nat" where
  "ParseUint s =
     (if s = [] then Inl ErrSyntax
      else (case base_prefix s of (base, ds) \<Rightarrow>
           (case parse_digits base ds 0 False of
              Inl err \<Rightarrow> Inl err
            | Inr (n, us) \<Rightarrow> if us \<and> \<not> underscoreOK s then Inl ErrSyntax else Inr n)))"

definition ParseInt64 :: "string \<Rightarrow> num_error + int" where
  "ParseInt64 s =
     (if s = [] then Inl ErrSyntax
      else (let neg = (hd s = CHR ''-''); ds = (if hd s \<in> set ''+-'' then tl s else s) in
            case ParseUint ds of
              Inl err \<Rightarrow> Inl err
            | Inr un \<Rightarrow>
                if \<not> neg \<and> un \<ge> 2 ^ 63 then Inl ErrRange
                else if neg \<and> un > 2 ^ 63 then Inl ErrRange
                else Inr (if neg then - int un else int un)))"

definition ParseBool :: "string \<Rightarrow> num_error + bool" where
  "ParseBool s =
     (if s \<in> {''1'', ''t'', ''T'', ''TRUE'', ''true'', ''True''} then Inr True
      else if s \<in> {''0'', ''f'', ''F'', ''FALSE'', ''false'', ''False''} then Inr False
      else Inl ErrSyntax)"

section \<open>Package flag\<close>

definition num_err :: "num_error \<Rightarrow> go_error" where
  "num_err e = (case e of ErrSyntax \<Rightarrow> Base ''parse error'' | ErrRange \<Rightarrow> Base ''value out of range'')"

definition ErrHelp :: go_error where "ErrHelp = Base ''flag: help requested''"

text \<open>A flag: whether it is boolean, and what setting it does to the configuration.\<close>

type_synonym 'c flag = "bool \<times> (string \<Rightarrow> 'c \<Rightarrow> go_error + 'c)"

definition StringVar :: "((string \<Rightarrow> string) \<Rightarrow> 'c \<Rightarrow> 'c) \<Rightarrow> 'c flag" where
  "StringVar upd = (False, \<lambda>s c. Inr (upd (\<lambda>_. s) c))"

definition IntVar :: "((int \<Rightarrow> int) \<Rightarrow> 'c \<Rightarrow> 'c) \<Rightarrow> 'c flag" where
  "IntVar upd =
     (False, \<lambda>s c. case ParseInt64 s of Inl e \<Rightarrow> Inl (num_err e) | Inr i \<Rightarrow> Inr (upd (\<lambda>_. i) c))"

definition BoolVar :: "((bool \<Rightarrow> bool) \<Rightarrow> 'c \<Rightarrow> 'c) \<Rightarrow> 'c flag" where
  "BoolVar upd =
     (True, \<lambda>s c. case ParseBool s of Inl e \<Rightarrow> Inl (num_err e) | Inr b \<Rightarrow> Inr (upd (\<lambda>_. b) c))"

datatype flag_syntax = NonFlag | Terminator | BadSyntax | IsFlag string "string option"

text \<open>A name and the value after its first \<open>=\<close>; the name's first character is part of it in any case.\<close>

definition split_value :: "string \<Rightarrow> string \<times> string option" where
  "split_value name =
     (let n = hd name # takeWhile (\<lambda>c. c \<noteq> CHR ''='') (tl name)
      in (n, if length n = length name then None else Some (drop (Suc (length n)) name)))"

definition flag_syntax_of :: "string \<Rightarrow> flag_syntax" where
  "flag_syntax_of s =
     (if length s < 2 \<or> hd s \<noteq> CHR ''-'' then NonFlag
      else if s = ''--'' then Terminator
      else (let name = (if s ! 1 = CHR ''-'' then drop 2 s else drop 1 s) in
            if name = [] \<or> hd name = CHR ''-'' \<or> hd name = CHR ''='' then BadSyntax
            else (case split_value name of (n, v) \<Rightarrow> IsFlag n v)))"

definition set_flag :: "string \<Rightarrow> 'c flag \<Rightarrow> string \<Rightarrow> 'c \<Rightarrow> go_error + 'c" where
  "set_flag name f value c =
     (case snd f value c of
        Inl err \<Rightarrow>
          Inl (Ctx (if fst f then ''invalid boolean value \"'' @ value @ ''\" for -'' @ name
                    else ''invalid value \"'' @ value @ ''\" for flag -'' @ name) err)
      | Inr c' \<Rightarrow> Inr c')"

text \<open>\<open>Parse\<close>: the configuration after the flags, or the first error. Arguments after the flags are left.\<close>

fun flag_Parse :: "(string \<times> 'c flag) list \<Rightarrow> string list \<Rightarrow> 'c \<Rightarrow> go_error + 'c" where
  "flag_Parse flags [] c = Inr c"
| "flag_Parse flags (s # args) c =
     (case flag_syntax_of s of
        NonFlag \<Rightarrow> Inr c
      | Terminator \<Rightarrow> Inr c
      | BadSyntax \<Rightarrow> Inl (Base (''bad flag syntax: '' @ s))
      | IsFlag name value \<Rightarrow>
          (case map_of flags name of
             None \<Rightarrow>
               if name = ''help'' \<or> name = ''h'' then Inl ErrHelp
               else Inl (Base (''flag provided but not defined: -'' @ name))
           | Some f \<Rightarrow>
               if fst f
               then (case set_flag name f (case value of Some v \<Rightarrow> v | None \<Rightarrow> ''true'') c of
                       Inl err \<Rightarrow> Inl err
                     | Inr c' \<Rightarrow> flag_Parse flags args c')
               else (case value of
                       Some v \<Rightarrow>
                         (case set_flag name f v c of Inl err \<Rightarrow> Inl err | Inr c' \<Rightarrow> flag_Parse flags args c')
                     | None \<Rightarrow>
                         (case args of
                            [] \<Rightarrow> Inl (Base (''flag needs an argument: -'' @ name))
                          | v # rest \<Rightarrow>
                              (case set_flag name f v c of
                                 Inl err \<Rightarrow> Inl err
                               | Inr c' \<Rightarrow> flag_Parse flags rest c')))))"

section \<open>Lemmas\<close>

lemma digit_val_digit: "is_digit c \<Longrightarrow> digit_val c = Some (of_char c - 48)"
  by (auto simp: digit_val_def is_digit_def char_lower_def Let_def)

lemma digit_not_underscore: "is_digit c \<Longrightarrow> c \<noteq> CHR ''_''"
  by (auto simp: is_digit_def)

lemma parse_digits_value:
  "\<forall>c \<in> set s. is_digit c \<Longrightarrow> foldl (\<lambda>a c. 10 * a + (of_char c - 48)) n s < 2 ^ 64 \<Longrightarrow>
     parse_digits 10 s n us = Inr (foldl (\<lambda>a c. 10 * a + (of_char c - 48)) n s, us)"
proof (induction s arbitrary: n)
  case (Cons c s)
  have grow: "m \<le> foldl (\<lambda>a c. 10 * a + (of_char c - 48)) m s" for m :: nat
    by (induction s arbitrary: m) (simp, fastforce intro: order_trans [rotated])
  have d: "digit_val c = Some (of_char c - 48)" "c \<noteq> CHR ''_''" "(of_char c :: nat) - 48 < 10"
    using Cons.prems(1) digit_val_digit digit_not_underscore by (auto simp: is_digit_def)
  have "n * 10 + (of_char c - 48) < 2 ^ 64"
    using grow [of "10 * n + (of_char c - 48)"] Cons.prems(2) by (simp add: mult.commute)
  with Cons.IH [of "n * 10 + (of_char c - 48)"] Cons.prems d show ?case
    by (simp add: mult.commute)
qed simp

lemma parse_dec_digits: "n < 2 ^ 64 \<Longrightarrow> ParseUint (dec_digits n) = Inr n"
proof (cases "n = 0")
  case True
  have "dec_digits 0 = ''0''" by (subst dec_digits.simps) (simp add: char_of_def bit_0)
  with True show ?thesis by (simp add: ParseUint_def base_prefix_def)
next
  case False
  assume "n < 2 ^ 64"
  moreover have "hd (dec_digits n) \<noteq> CHR ''0''" using False hd_dec_digits by simp
  moreover have "\<forall>c \<in> set (dec_digits n). is_digit c" using dec_digits_digit by blast
  ultimately show ?thesis
    using parse_digits_value [of "dec_digits n" 0 False] dec_value_digits [of n]
    by (simp add: ParseUint_def base_prefix_def dec_value_def)
qed

lemma ParseInt64_Itoa:
  assumes "- (2 ^ 63) \<le> i" and "i < 2 ^ 63"
  shows "ParseInt64 (Itoa i) = Inr i"
proof (cases "i < 0")
  case True
  then have "nat (- i) \<le> 2 ^ 63" using assms(1) by simp
  with True parse_dec_digits [of "nat (- i)"] show ?thesis
    by (simp add: ParseInt64_def Itoa_def Let_def)
next
  case False
  then have n: "nat i < 2 ^ 63" using assms(2) by (simp add: nat_less_iff)
  have "is_digit (hd (dec_digits (nat i)))" using dec_digits_digit dec_digits_nonempty hd_in_set by blast
  then have "hd (dec_digits (nat i)) \<notin> set ''+-''" by (auto simp: is_digit_def)
  with False n parse_dec_digits [of "nat i"] show ?thesis
    by (auto simp: ParseInt64_def Itoa_def Let_def)
qed

text \<open>A flag given with its value as the next argument.\<close>

lemma flag_Parse_pair:
  assumes "map_of flags name = Some f" and "\<not> fst f" and "name \<noteq> []" and "hd name \<noteq> CHR ''-''"
    and "CHR ''='' \<notin> set name"
  shows "flag_Parse flags ((CHR ''-'' # name) # v # args) c =
     (case set_flag name f v c of Inl err \<Rightarrow> Inl err | Inr c' \<Rightarrow> flag_Parse flags args c')"
proof -
  have all: "takeWhile (\<lambda>c. c \<noteq> CHR ''='') (tl name) = tl name"
    using assms(5) by (cases name) (auto simp: takeWhile_eq_all_conv)
  have "split_value name = (name, None)"
    unfolding split_value_def Let_def all using assms(3) by (cases name) simp_all
  moreover have "hd name \<noteq> CHR ''=''" using assms(3,5) by (cases name) auto
  ultimately have "flag_syntax_of (CHR ''-'' # name) = IsFlag name None"
    using assms(3,4) by (cases name) (auto simp: flag_syntax_of_def)
  then show ?thesis using assms(1,2) by simp
qed

lemma flag_Parse_bool:
  assumes "map_of flags name = Some f" and "fst f" and "name \<noteq> []" and "hd name \<noteq> CHR ''-''"
    and "CHR ''='' \<notin> set name"
  shows "flag_Parse flags ((CHR ''-'' # name @ CHR ''='' # v) # args) c =
     (case set_flag name f v c of Inl err \<Rightarrow> Inl err | Inr c' \<Rightarrow> flag_Parse flags args c')"
proof -
  have "split_value (name @ CHR ''='' # v) = (name, Some v)"
    using assms(3,5) by (cases name) (auto simp: split_value_def Let_def takeWhile_append)
  moreover have "hd name \<noteq> CHR ''=''" using assms(3,5) by (cases name) auto
  ultimately have "flag_syntax_of (CHR ''-'' # name @ CHR ''='' # v) = IsFlag name (Some v)"
    using assms(3,4) by (cases name) (auto simp: flag_syntax_of_def)
  then show ?thesis using assms(1,2) by simp
qed

end
