(* ===== verification/Main_Cli.thy ===== *)
theory Main_Cli
  imports Session Names Flag
begin

text \<open>
  \<open>cmd/olcrtc/main.go\<close>: the command line, its translation into the session configuration, and the
  decision what to run. The process environment (the path of the executable, the files of names) is
  a parameter; the state is what the command changes before it runs a session.
\<close>

section \<open>Configuration\<close>

text \<open>The fields of \<open>config\<close>.\<close>

record cli_config =
  c_mode :: string
  c_link :: string
  c_transport :: string
  c_carrier :: string
  c_roomID :: string
  c_clientID :: string
  c_socksPort :: int
  c_socksHost :: string
  c_socksUser :: string
  c_socksPass :: string
  c_keyHex :: string
  c_debug :: bool
  c_dataDir :: string
  c_dnsServer :: string
  c_socksProxyAddr :: string
  c_socksProxyPort :: int
  c_videoWidth :: int
  c_videoHeight :: int
  c_videoFPS :: int
  c_videoBitrate :: string
  c_videoHW :: string
  c_videoQRSize :: int
  c_videoQRRecovery :: string
  c_videoCodec :: string
  c_videoTileModule :: int
  c_videoTileRS :: int
  c_vp8FPS :: int
  c_vp8BatchSize :: int
  c_seiFPS :: int
  c_seiBatchSize :: int
  c_seiFragmentSize :: int
  c_seiAckTimeoutMS :: int
  c_amount :: int
  c_ffmpegPath :: string

definition ErrDataDirRequired :: go_error where
  "ErrDataDirRequired = Base ''data directory required (use -data data)''"

text \<open>The configuration before any flag is set, and the flags.\<close>

definition cli_defaults :: cli_config where
  "cli_defaults =
     \<lparr>c_mode = [], c_link = [], c_transport = [], c_carrier = [], c_roomID = [], c_clientID = [], c_socksPort = 0,
      c_socksHost = [], c_socksUser = [], c_socksPass = [], c_keyHex = [], c_debug = False, c_dataDir = [],
      c_dnsServer = [], c_socksProxyAddr = [], c_socksProxyPort = 0, c_videoWidth = 0, c_videoHeight = 0,
      c_videoFPS = 0, c_videoBitrate = [], c_videoHW = [], c_videoQRSize = 0, c_videoQRRecovery = ''low'',
      c_videoCodec = ''qrcode'', c_videoTileModule = 0, c_videoTileRS = 0, c_vp8FPS = 0, c_vp8BatchSize = 0,
      c_seiFPS = 0, c_seiBatchSize = 0, c_seiFragmentSize = 0, c_seiAckTimeoutMS = 0, c_amount = 0,
      c_ffmpegPath = ''ffmpeg''\<rparr>"

definition cli_flags :: "(string \<times> cli_config flag) list" where
  "cli_flags =
     [(''mode'', StringVar c_mode_update), (''link'', StringVar c_link_update),
      (''transport'', StringVar c_transport_update), (''carrier'', StringVar c_carrier_update),
      (''id'', StringVar c_roomID_update), (''client-id'', StringVar c_clientID_update),
      (''socks-port'', IntVar c_socksPort_update), (''socks-host'', StringVar c_socksHost_update),
      (''socks-user'', StringVar c_socksUser_update), (''socks-pass'', StringVar c_socksPass_update),
      (''key'', StringVar c_keyHex_update), (''debug'', BoolVar c_debug_update),
      (''data'', StringVar c_dataDir_update), (''dns'', StringVar c_dnsServer_update),
      (''socks-proxy'', StringVar c_socksProxyAddr_update),
      (''socks-proxy-port'', IntVar c_socksProxyPort_update), (''video-w'', IntVar c_videoWidth_update),
      (''video-h'', IntVar c_videoHeight_update), (''video-fps'', IntVar c_videoFPS_update),
      (''video-bitrate'', StringVar c_videoBitrate_update), (''video-hw'', StringVar c_videoHW_update),
      (''video-qr-size'', IntVar c_videoQRSize_update),
      (''video-qr-recovery'', StringVar c_videoQRRecovery_update),
      (''video-codec'', StringVar c_videoCodec_update), (''video-tile-module'', IntVar c_videoTileModule_update),
      (''video-tile-rs'', IntVar c_videoTileRS_update), (''vp8-fps'', IntVar c_vp8FPS_update),
      (''vp8-batch'', IntVar c_vp8BatchSize_update), (''fps'', IntVar c_seiFPS_update),
      (''batch'', IntVar c_seiBatchSize_update), (''frag'', IntVar c_seiFragmentSize_update),
      (''ack-ms'', IntVar c_seiAckTimeoutMS_update), (''amount'', IntVar c_amount_update),
      (''ffmpeg'', StringVar c_ffmpegPath_update)]"

definition parseFlagsFrom :: "string list \<Rightarrow> go_error + cli_config" where
  "parseFlagsFrom args =
     (case flag_Parse cli_flags args cli_defaults of
        Inl err \<Rightarrow> Inl (Ctx ''parse flags'' err)
      | Inr cfg \<Rightarrow> Inr cfg)"

definition toSessionConfig :: "cli_config \<Rightarrow> session_config" where
  "toSessionConfig c =
     media.extend
       \<lparr>VideoWidth = c_videoWidth c, VideoHeight = c_videoHeight c, VideoFPS = c_videoFPS c,
        VideoBitrate = c_videoBitrate c, VideoHW = c_videoHW c, VideoQRSize = c_videoQRSize c,
        VideoQRRecovery = c_videoQRRecovery c, VideoCodec = c_videoCodec c,
        VideoTileModule = c_videoTileModule c, VideoTileRS = c_videoTileRS c, VP8FPS = c_vp8FPS c,
        VP8BatchSize = c_vp8BatchSize c, SEIFPS = c_seiFPS c, SEIBatchSize = c_seiBatchSize c,
        SEIFragmentSize = c_seiFragmentSize c, SEIAckTimeoutMS = c_seiAckTimeoutMS c\<rparr>
       (session_config.fields (c_mode c) (c_link c) (c_transport c) (c_carrier c) (c_roomID c) (c_clientID c)
          (c_keyHex c) (c_socksHost c) (c_socksPort c) (c_socksUser c) (c_socksPass c) (c_dnsServer c)
          (c_socksProxyAddr c) (c_socksProxyPort c) (c_amount c))"

section \<open>Package path/filepath\<close>

text \<open>On Unix. \<open>Clean\<close> goes through the elements of a path with a stack of those to keep.\<close>

fun clean_elems :: "bool \<Rightarrow> string list \<Rightarrow> string list \<Rightarrow> string list" where
  "clean_elems rooted st [] = rev st"
| "clean_elems rooted st (e # es) =
     (if e = [] \<or> e = ''.'' then clean_elems rooted st es
      else if e = ''..''
        then (if st \<noteq> [] \<and> hd st \<noteq> ''..'' then clean_elems rooted (tl st) es
              else if rooted then clean_elems rooted st es
              else clean_elems rooted (e # st) es)
      else clean_elems rooted (e # st) es)"

fun join_path :: "string list \<Rightarrow> string" where
  "join_path [] = []"
| "join_path [e] = e"
| "join_path (e # es) = e @ CHR ''/'' # join_path es"

definition IsAbs :: "string \<Rightarrow> bool" where
  "IsAbs path = HasPrefix path ''/''"

definition Clean :: "string \<Rightarrow> string" where
  "Clean path =
     (let out = (if IsAbs path then ''/'' else []) @ join_path (clean_elems (IsAbs path) [] (Split (CHR ''/'') path))
      in if out = [] then ''.'' else out)"

definition Dir :: "string \<Rightarrow> string" where
  "Dir path = Clean (rev (dropWhile (\<lambda>c. c \<noteq> CHR ''/'') (rev path)))"

definition Join_paths :: "string list \<Rightarrow> string" where
  "Join_paths elems =
     (case dropWhile (\<lambda>e. e = []) elems of
        [] \<Rightarrow> []
      | es \<Rightarrow> Clean (join_path es))"

section \<open>Running\<close>

record cli_env =
  os_Executable :: "go_error + string"
  env_readFile :: "string \<Rightarrow> go_error + string"

text \<open>The package variables the command sets: \<open>videochannel.FFmpegPath\<close>, the verbose flag, whether the
  libraries' logs are suppressed, and the names.\<close>

record cli_state =
  cs_FFmpegPath :: string
  cs_verbose :: bool
  cs_libsQuiet :: bool
  cs_names :: names

definition configureLogging :: "bool \<Rightarrow> cli_state \<Rightarrow> cli_state" where
  "configureLogging debug s = (if debug then s\<lparr>cs_verbose := True\<rparr> else s\<lparr>cs_libsQuiet := True\<rparr>)"

definition resolveDataDir :: "cli_env \<Rightarrow> string \<Rightarrow> go_error + string" where
  "resolveDataDir env dataDir =
     (if IsAbs dataDir then Inr dataDir
      else (case os_Executable env of
              Inl err \<Rightarrow> Inl (Ctx ''resolve executable path'' err)
            | Inr exePath \<Rightarrow> Inr (Join_paths [Dir exePath, dataDir])))"

definition cli_loadNames :: "cli_env \<Rightarrow> string \<Rightarrow> cli_state \<Rightarrow> go_error option \<times> cli_state" where
  "cli_loadNames env dataDir s =
     (case LoadNameFiles (env_readFile env) (Join_paths [dataDir, ''names'']) (Join_paths [dataDir, ''surnames''])
             (cs_names s) of
        (Some err, d) \<Rightarrow> (Some (Ctx ''load embedded names override'' err), s\<lparr>cs_names := d\<rparr>)
      | (None, d) \<Rightarrow> (None, s\<lparr>cs_names := d\<rparr>))"

text \<open>What the command comes to: an error, a session run, or the generation of rooms.\<close>

datatype cli_run = Fails go_error | RunsSession session_config | RunsGen session_config

definition execGen :: "('o, 's, 'u, 't, 'h) registries \<Rightarrow> cli_config \<Rightarrow> cli_run" where
  "execGen r cfg =
     (case ValidateGen r (toSessionConfig cfg) of
        Some err \<Rightarrow> Fails (Ctx ''validate gen config'' err)
      | None \<Rightarrow> RunsGen (toSessionConfig cfg))"

definition runWithConfig ::
    "('o, 's, 'u, 't, 'h) registries \<Rightarrow> cli_env \<Rightarrow> cli_config \<Rightarrow> cli_state \<Rightarrow> cli_run \<times> cli_state" where
  "runWithConfig r env cfg s =
     (let s1 = configureLogging (c_debug cfg) s;
          s2 = (if c_ffmpegPath cfg \<noteq> ''ffmpeg'' \<and> c_ffmpegPath cfg \<noteq> []
                then s1\<lparr>cs_FFmpegPath := c_ffmpegPath cfg\<rparr> else s1)
      in if c_mode cfg = ''gen'' then (execGen r cfg, s2)
         else (case Validate r (toSessionConfig cfg) of
                 Some err \<Rightarrow> (Fails (Ctx ''validate config'' err), s2)
               | None \<Rightarrow>
                   if c_dataDir cfg = [] then (Fails ErrDataDirRequired, s2)
                   else (case resolveDataDir env (c_dataDir cfg) of
                           Inl err \<Rightarrow> (Fails err, s2)
                         | Inr dataDir \<Rightarrow>
                             (case cli_loadNames env dataDir s2 of
                                (Some err, s3) \<Rightarrow> (Fails err, s3)
                              | (None, s3) \<Rightarrow> (RunsSession (toSessionConfig cfg), s3)))))"

definition runWithArgs ::
    "('o, 's, 'u, 't, 'h) registries \<Rightarrow> cli_env \<Rightarrow> string list \<Rightarrow> cli_state \<Rightarrow> cli_run \<times> cli_state" where
  "runWithArgs r env args s =
     (case parseFlagsFrom args of
        Inl err \<Rightarrow> (Fails err, s)
      | Inr cfg \<Rightarrow> runWithConfig r env cfg s)"

text \<open>How the \<open>select\<close> after the start ends: the run returned, or a signal came; then the run returned
  within five seconds or not.\<close>

datatype run_event = RunReturned "go_error option" | SignalReturned "go_error option" | SignalTimeout

definition waitForShutdown :: "go_error option option \<Rightarrow> go_error option" where
  "waitForShutdown r = (case r of Some err \<Rightarrow> err | None \<Rightarrow> None)"

definition run_result :: "run_event \<Rightarrow> go_error option" where
  "run_result ev =
     (case ev of
        RunReturned err \<Rightarrow> err
      | SignalReturned err \<Rightarrow> waitForShutdown (Some err)
      | SignalTimeout \<Rightarrow> waitForShutdown None)"

text \<open>The exit status of \<open>main\<close>; the flag package itself leaves with 0 on a request for help and with 2
  on any other error.\<close>

definition exit_status :: "go_error option \<Rightarrow> nat" where
  "exit_status err = (if err \<noteq> None then 1 else 0)"

definition parse_exit_status :: "go_error \<Rightarrow> nat" where
  "parse_exit_status err = (if errors_Is err ''flag: help requested'' then 0 else 2)"

section \<open>Command lines of configurations\<close>

text \<open>The settings of a configuration with their flags, all but the boolean one, and its integers.\<close>

definition cli_settings :: "cli_config \<Rightarrow> (string \<times> string) list" where
  "cli_settings c =
     [(''mode'', c_mode c), (''link'', c_link c), (''transport'', c_transport c), (''carrier'', c_carrier c),
      (''id'', c_roomID c), (''client-id'', c_clientID c), (''socks-port'', Itoa (c_socksPort c)),
      (''socks-host'', c_socksHost c), (''socks-user'', c_socksUser c), (''socks-pass'', c_socksPass c),
      (''key'', c_keyHex c), (''data'', c_dataDir c), (''dns'', c_dnsServer c),
      (''socks-proxy'', c_socksProxyAddr c), (''socks-proxy-port'', Itoa (c_socksProxyPort c)),
      (''video-w'', Itoa (c_videoWidth c)), (''video-h'', Itoa (c_videoHeight c)),
      (''video-fps'', Itoa (c_videoFPS c)), (''video-bitrate'', c_videoBitrate c), (''video-hw'', c_videoHW c),
      (''video-qr-size'', Itoa (c_videoQRSize c)), (''video-qr-recovery'', c_videoQRRecovery c),
      (''video-codec'', c_videoCodec c), (''video-tile-module'', Itoa (c_videoTileModule c)),
      (''video-tile-rs'', Itoa (c_videoTileRS c)), (''vp8-fps'', Itoa (c_vp8FPS c)),
      (''vp8-batch'', Itoa (c_vp8BatchSize c)), (''fps'', Itoa (c_seiFPS c)),
      (''batch'', Itoa (c_seiBatchSize c)), (''frag'', Itoa (c_seiFragmentSize c)),
      (''ack-ms'', Itoa (c_seiAckTimeoutMS c)), (''amount'', Itoa (c_amount c)), (''ffmpeg'', c_ffmpegPath c)]"

definition cli_ints :: "cli_config \<Rightarrow> int list" where
  "cli_ints c =
     [c_socksPort c, c_socksProxyPort c, c_videoWidth c, c_videoHeight c, c_videoFPS c, c_videoQRSize c,
      c_videoTileModule c, c_videoTileRS c, c_vp8FPS c, c_vp8BatchSize c, c_seiFPS c, c_seiBatchSize c,
      c_seiFragmentSize c, c_seiAckTimeoutMS c, c_amount c]"


definition cli_args :: "cli_config \<Rightarrow> string list" where
  "cli_args c =
     (''-debug='' @ (if c_debug c then ''true'' else ''false''))
     # concat (map (\<lambda>(n, v). [CHR ''-'' # n, v]) (cli_settings c))"

fun set_all :: "(string \<times> string) list \<Rightarrow> cli_config \<Rightarrow> go_error + cli_config" where
  "set_all [] c = Inr c"
| "set_all ((n, v) # sets) c =
     (case map_of cli_flags n of
        None \<Rightarrow> Inl ErrHelp
      | Some f \<Rightarrow> (case set_flag n f v c of Inl err \<Rightarrow> Inl err | Inr c' \<Rightarrow> set_all sets c'))"

definition plain_flag :: "string \<Rightarrow> bool" where
  "plain_flag n \<longleftrightarrow> n \<noteq> [] \<and> hd n \<noteq> CHR ''-'' \<and> CHR ''='' \<notin> set n
     \<and> (case map_of cli_flags n of None \<Rightarrow> False | Some f \<Rightarrow> \<not> fst f)"

lemma flag_Parse_settings:
  "\<forall>(n, v) \<in> set sets. plain_flag n \<Longrightarrow>
     flag_Parse cli_flags (concat (map (\<lambda>(n, v). [CHR ''-'' # n, v]) sets)) c = set_all sets c"
proof (induction sets arbitrary: c)
  case (Cons nv sets)
  obtain n v where nv: "nv = (n, v)" by fastforce
  with Cons.prems have "plain_flag n" by simp
  then obtain f where f: "map_of cli_flags n = Some f" "\<not> fst f" "n \<noteq> []" "hd n \<noteq> CHR ''-''" "CHR ''='' \<notin> set n"
    by (auto simp: plain_flag_def split: option.splits)
  from Cons.prems Cons.IH have IH: "flag_Parse cli_flags (concat (map (\<lambda>(n, v). [CHR ''-'' # n, v]) sets)) c' = set_all sets c'" for c'
    by simp
  show ?case by (simp add: nv flag_Parse_pair [OF f] f(1) IH del: flag_Parse.simps split: sum.split)
qed simp

end
