(* ===== verification/Cli_Contract.thy ===== *)
theory Cli_Contract
  imports Main_Cli
begin

text \<open>
  What the command line guarantees: every configuration can be given on it, and what runs is decided by
  the validation of the configuration it stands for.
\<close>

lemma settings_plain: "\<forall>(n, v) \<in> set (cli_settings c). plain_flag n"
  by (simp add: cli_settings_def plain_flag_def cli_flags_def StringVar_def IntVar_def BoolVar_def)

lemma set_StringVar: "set_flag n (StringVar upd) s c = Inr (upd (\<lambda>_. s) c)"
  by (simp add: set_flag_def StringVar_def)

lemma set_IntVar:
  "- (2 ^ 63) \<le> i \<Longrightarrow> i < 2 ^ 63 \<Longrightarrow> set_flag n (IntVar upd) (Itoa i) c = Inr (upd (\<lambda>_. i) c)"
  by (simp add: set_flag_def IntVar_def ParseInt64_Itoa)

lemma set_all_settings:
  assumes "\<forall>i \<in> set (cli_ints c). - (2 ^ 63) \<le> i \<and> i < 2 ^ 63"
  shows "set_all (cli_settings c) (cli_defaults\<lparr>c_debug := c_debug c\<rparr>) = Inr c"
proof -
  have ints: "set_flag n (IntVar upd) (Itoa i) c' = Inr (upd (\<lambda>_. i) c')" if "i \<in> set (cli_ints c)"
    for n i c' and upd :: "(int \<Rightarrow> int) \<Rightarrow> cli_config \<Rightarrow> cli_config"
    by (rule set_IntVar) (use assms that in auto)
  show ?thesis
    by (simp add: cli_settings_def cli_flags_def set_StringVar ints cli_ints_def cli_defaults_def)
qed

lemma set_debug: "set_flag n (BoolVar upd) (if b then ''true'' else ''false'') c = Inr (upd (\<lambda>_. b) c)"
  by (simp add: set_flag_def BoolVar_def ParseBool_def)

lemma parse_cli_args:
  assumes "\<forall>i \<in> set (cli_ints c). - (2 ^ 63) \<le> i \<and> i < 2 ^ 63"
  shows "parseFlagsFrom (cli_args c) = Inr c"
proof -
  have debug: "map_of cli_flags ''debug'' = Some (BoolVar c_debug_update)" by (simp add: cli_flags_def)
  have "flag_Parse cli_flags (cli_args c) cli_defaults =
      flag_Parse cli_flags (concat (map (\<lambda>(n, v). [CHR ''-'' # n, v]) (cli_settings c)))
        (cli_defaults\<lparr>c_debug := c_debug c\<rparr>)"
    using flag_Parse_bool [OF debug, of "if c_debug c then ''true'' else ''false''"
        "concat (map (\<lambda>(n, v). [CHR ''-'' # n, v]) (cli_settings c))" cli_defaults]
    unfolding set_debug by (simp add: cli_args_def BoolVar_def del: flag_Parse.simps)
  then show ?thesis
    by (simp add: parseFlagsFrom_def flag_Parse_settings [OF settings_plain] set_all_settings [OF assms])
qed

lemma cli_loadNames_runs:
  "(case cli_loadNames env d s of (Some err, s3) \<Rightarrow> (Fails err, s3) | (None, s3) \<Rightarrow> (RunsSession x, s3))
     = (RunsSession x, snd (cli_loadNames env d s))"
  by (simp add: cli_loadNames_def LoadNameFiles_def)

lemma resolveDataDir_Inr: "(\<exists>d. resolveDataDir env dir = Inr d) \<longleftrightarrow> IsAbs dir \<or> (\<exists>p. os_Executable env = Inr p)"
  by (auto simp: resolveDataDir_def split: sum.split)

lemma runWithConfig_session:
  "fst (runWithConfig r env c s) = RunsSession cfg \<longleftrightarrow>
     c_mode c \<noteq> ''gen'' \<and> cfg = toSessionConfig c \<and> Validate r cfg = None \<and> c_dataDir c \<noteq> []
     \<and> (IsAbs (c_dataDir c) \<or> (\<exists>p. os_Executable env = Inr p))"
  unfolding resolveDataDir_Inr [symmetric] runWithConfig_def Let_def cli_loadNames_runs
  by (auto simp: execGen_def split: option.split sum.split)

lemma runWithConfig_gen:
  "fst (runWithConfig r env c s) = RunsGen cfg \<longleftrightarrow>
     c_mode c = ''gen'' \<and> cfg = toSessionConfig c \<and> ValidateGen r cfg = None"
  unfolding runWithConfig_def Let_def cli_loadNames_runs
  by (auto simp: execGen_def split: option.split sum.split)

section \<open>Properties\<close>

text \<open>C29: every configuration whose integers fit 64 bits can be given on the command line and is parsed
  back exactly; the command then runs a session exactly when the mode is not \<open>gen\<close>, the session
  configuration is valid, and the data directory is given and can be resolved, and generates rooms
  exactly when the mode is \<open>gen\<close> and that configuration is valid for it; what it runs is that
  configuration.\<close>

theorem cli_runs_exactly:
  assumes "\<forall>i \<in> set (cli_ints c). - (2 ^ 63) \<le> i \<and> i < 2 ^ 63"
  shows "parseFlagsFrom (cli_args c) = Inr c
     \<and> (fst (runWithArgs r env (cli_args c) s) = RunsSession cfg \<longleftrightarrow>
          c_mode c \<noteq> ''gen'' \<and> cfg = toSessionConfig c \<and> Validate r cfg = None \<and> c_dataDir c \<noteq> []
          \<and> (IsAbs (c_dataDir c) \<or> (\<exists>p. os_Executable env = Inr p)))
     \<and> (fst (runWithArgs r env (cli_args c) s) = RunsGen cfg \<longleftrightarrow>
          c_mode c = ''gen'' \<and> cfg = toSessionConfig c \<and> ValidateGen r cfg = None)"
  using parse_cli_args [OF assms] runWithConfig_session [of r env c s cfg] runWithConfig_gen [of r env c s cfg]
  by (simp add: runWithArgs_def)

theorem cli_runs_exactly_witness:
  "parseFlagsFrom (cli_args (cli_defaults\<lparr>c_mode := ''cnc'', c_vp8FPS := 25, c_roomID := ''-x=1''\<rparr>))
     = Inr (cli_defaults\<lparr>c_mode := ''cnc'', c_vp8FPS := 25, c_roomID := ''-x=1''\<rparr>)"
proof -
  have "\<forall>i \<in> set (cli_ints (cli_defaults\<lparr>c_mode := ''cnc'', c_vp8FPS := 25, c_roomID := ''-x=1''\<rparr>)).
      - (2 ^ 63) \<le> i \<and> i < 2 ^ 63"
    by (simp add: cli_ints_def cli_defaults_def)
  from cli_runs_exactly [OF this] show ?thesis by (rule conjunct1)
qed

end
