(* ===== verification/Host.thy ===== *)
theory Host
  imports Io
begin

text \<open>
  What connects the program to its host: \<open>internal/logger\<close>, whose state is the verbose flag, and
  \<open>internal/protect\<close>, whose state is the protector callback. Package \<open>log\<close> prints a line by an
  operation on a world \<open>'w\<close>, a parameter, as the network is.
\<close>

section \<open>Logger\<close>

definition SetVerbose :: "bool \<Rightarrow> bool \<Rightarrow> bool" where
  "SetVerbose enabled verbose = enabled"

definition IsVerbose :: "bool \<Rightarrow> bool" where
  "IsVerbose verbose = verbose"

definition Infof :: "(string \<Rightarrow> 'w \<Rightarrow> 'w) \<Rightarrow> string \<Rightarrow> 'w \<Rightarrow> 'w" where
  "Infof print msg w = print msg w"

definition Verbosef :: "(string \<Rightarrow> 'w \<Rightarrow> 'w) \<Rightarrow> bool \<Rightarrow> string \<Rightarrow> 'w \<Rightarrow> 'w" where
  "Verbosef print verbose msg w = (if verbose then print msg w else w)"

definition Debugf :: "(string \<Rightarrow> 'w \<Rightarrow> 'w) \<Rightarrow> bool \<Rightarrow> string \<Rightarrow> 'w \<Rightarrow> 'w" where
  "Debugf print verbose msg w = (if verbose then print msg w else w)"

section \<open>Protected sockets\<close>

text \<open>\<open>net.OpError\<close> with \<open>net.ErrClosed\<close>.\<close>

definition protect_error :: "string \<Rightarrow> go_error" where
  "protect_error network = Ctx (''protect '' @ network) (Base ''use of closed network connection'')"

text \<open>\<open>ctl\<close> is what \<open>RawConn.Control\<close> does: fail, or run the callback on the file descriptor.\<close>

definition controlFunc :: "(int \<Rightarrow> bool) option \<Rightarrow> string \<Rightarrow> go_error + int \<Rightarrow> go_error option" where
  "controlFunc protector network ctl =
     (case protector of
        None \<Rightarrow> None
      | Some p \<Rightarrow>
          (case ctl of
             Inl controlErr \<Rightarrow> Some (Ctx ''control failed'' controlErr)
           | Inr fd \<Rightarrow> if p fd then None else Some (protect_error network)))"

text \<open>A dialer opens a socket, runs the control function on it, then connects.\<close>

record ('w, 'c) net =
  net_Socket :: "string \<Rightarrow> 'w \<Rightarrow> (go_error + int) \<times> 'w"
  net_Connect :: "string \<Rightarrow> string \<Rightarrow> int \<Rightarrow> 'w \<Rightarrow> (go_error + 'c) \<times> 'w"

definition NewDialer_Dial ::
    "('w, 'c) net \<Rightarrow> (int \<Rightarrow> bool) option \<Rightarrow> string \<Rightarrow> string \<Rightarrow> 'w \<Rightarrow> (go_error + 'c) \<times> 'w" where
  "NewDialer_Dial n protector network addr =
     io_bind (net_Socket n network) (\<lambda>fd.
       case controlFunc protector network (Inr fd) of
         Some err \<Rightarrow> io_fail err
       | None \<Rightarrow> net_Connect n network addr fd)"

definition DialContext ::
    "('w, 'c) net \<Rightarrow> (int \<Rightarrow> bool) option \<Rightarrow> string \<Rightarrow> string \<Rightarrow> 'w \<Rightarrow> (go_error + 'c) \<times> 'w" where
  "DialContext n protector network addr = io_ctx ''dial failed'' (NewDialer_Dial n protector network addr)"

definition ProxyDialer_Dial ::
    "('w, 'c) net \<Rightarrow> (int \<Rightarrow> bool) option \<Rightarrow> string \<Rightarrow> string \<Rightarrow> 'w \<Rightarrow> (go_error + 'c) \<times> 'w" where
  "ProxyDialer_Dial n protector network addr = io_ctx ''dial failed'' (NewDialer_Dial n protector network addr)"

text \<open>A connection that is established was made on a socket the protector accepted.\<close>

lemma dial_protected:
  assumes "DialContext n (Some p) network addr w = (Inr c, w')"
  shows "\<exists>fd w1. net_Socket n network w = (Inr fd, w1) \<and> p fd \<and> net_Connect n network addr fd w1 = (Inr c, w')"
  using assms
  by (auto simp: DialContext_def NewDialer_Dial_def io_bind_Inr controlFunc_def split: if_splits)

end
