(* ===== verification/Build.thy ===== *)
theory Build
  imports Main_Cli
begin

text \<open>
  \<open>magefile.go\<close>: the build targets. What they call (\<open>mage\<close>'s \<open>sh\<close> and \<open>mg\<close>, package \<open>os\<close>) is the
  record \<open>builder\<close> of operations on a world \<open>'w\<close>, a parameter. A target returns an error or
  nothing; \<open>mg.Deps\<close> ends the target that called it by a panic when the dependency fails, which is
  the error branch here, and whether a dependency runs again when it has run before is up to it.
\<close>

section \<open>Commands\<close>

record command =
  cmd_env :: "string \<rightharpoonup> string"
  cmd_name :: string
  cmd_args :: "string list"

type_synonym 'w target = "'w \<Rightarrow> (go_error + unit) \<times> 'w"

record 'w builder =
  sh_RunWithV :: "command \<Rightarrow> 'w \<Rightarrow> go_error option \<times> 'w"
  mg_Deps :: "string \<Rightarrow> 'w target \<Rightarrow> 'w target"
  mg_GoCmd :: string
  os_Getenv :: "string \<Rightarrow> string"
  os_MkdirAll :: "string \<Rightarrow> nat \<Rightarrow> 'w \<Rightarrow> go_error option \<times> 'w"
  os_RemoveAll :: "string \<Rightarrow> 'w \<Rightarrow> go_error option \<times> 'w"
  os_LookPath :: "string \<Rightarrow> go_error + string"
  fmt_Printf :: "string \<Rightarrow> 'w \<Rightarrow> 'w"
  runtime_GOOS :: string
  runtime_GOARCH :: string

definition sh_RunV :: "'w builder \<Rightarrow> string \<Rightarrow> string list \<Rightarrow> 'w target" where
  "sh_RunV b name args = io_check (sh_RunWithV b \<lparr>cmd_env = Map.empty, cmd_name = name, cmd_args = args\<rparr>)"

definition buildDir :: string where "buildDir = ''build''"

definition ldflags :: string where "ldflags = ''-s -w''"

section \<open>Helpers\<close>

definition envOr :: "'w builder \<Rightarrow> string \<Rightarrow> string \<Rightarrow> string" where
  "envOr b key fallback =
     (let v = TrimSpace (os_Getenv b key) in if v \<noteq> [] then v else fallback)"

definition mage_goos :: "'w builder \<Rightarrow> string" where
  "mage_goos b = envOr b ''GOOS'' (runtime_GOOS b)"

definition mage_goarch :: "'w builder \<Rightarrow> string" where
  "mage_goarch b = envOr b ''GOARCH'' (runtime_GOARCH b)"

text \<open>The mode is octal 755.\<close>

definition ensureBuildDir :: "'w builder \<Rightarrow> 'w target" where
  "ensureBuildDir b = io_check (os_MkdirAll b buildDir 493)"

definition ensureTool :: "'w builder \<Rightarrow> string \<Rightarrow> go_error option" where
  "ensureTool b name = (case os_LookPath b name of Inl err \<Rightarrow> Some err | Inr _ \<Rightarrow> None)"

definition build_outName :: "string \<Rightarrow> string \<Rightarrow> string \<Rightarrow> string" where
  "build_outName name os arch =
     name @ ''-'' @ os @ ''-'' @ arch @ (if os = ''windows'' then ''.exe'' else [])"

definition build_command :: "'w builder \<Rightarrow> string \<Rightarrow> string \<Rightarrow> string \<Rightarrow> string \<Rightarrow> command" where
  "build_command b name pkg os arch =
     \<lparr>cmd_env = [''GOOS'' \<mapsto> os, ''GOARCH'' \<mapsto> arch, ''CGO_ENABLED'' \<mapsto> ''0''],
      cmd_name = mg_GoCmd b,
      cmd_args = [''build'', ''-trimpath'', ''-ldflags'',
                  ldflags @ (if os = ''android'' then '' -checklinkname=0'' else []),
                  ''-o'', Join_paths [buildDir, build_outName name os arch], pkg]\<rparr>"

definition buildBinary :: "'w builder \<Rightarrow> string \<Rightarrow> string \<Rightarrow> string \<Rightarrow> string \<Rightarrow> 'w target" where
  "buildBinary b name pkg os arch =
     io_bind (ensureBuildDir b) (\<lambda>_ w.
       let w' = fmt_Printf b
                  (''building '' @ name @ '' ('' @ os @ ''/'' @ arch @ '') -> ''
                   @ Join_paths [buildDir, build_outName name os arch] @ [CHR 0x0A]) w
       in io_check (sh_RunWithV b (build_command b name pkg os arch)) w')"

section \<open>Targets\<close>

definition build_Deps :: "'w builder \<Rightarrow> 'w target" where
  "build_Deps b =
     io_bind (sh_RunV b (mg_GoCmd b) [''mod'', ''download'']) (\<lambda>_.
       sh_RunV b (mg_GoCmd b) [''mod'', ''tidy''])"

definition BuildCLI :: "'w builder \<Rightarrow> 'w target" where
  "BuildCLI b =
     io_bind (mg_Deps b ''Deps'' (build_Deps b)) (\<lambda>_.
       buildBinary b ''olcrtc'' ''./cmd/olcrtc'' (mage_goos b) (mage_goarch b))"

definition Build :: "'w builder \<Rightarrow> 'w target" where
  "Build b = io_bind (mg_Deps b ''BuildCLI'' (BuildCLI b)) (\<lambda>_. io_return ())"

definition cross_targets :: "(string \<times> string) list" where
  "cross_targets =
     [(''linux'', ''amd64''), (''linux'', ''arm64''), (''windows'', ''amd64''),
      (''darwin'', ''amd64''), (''darwin'', ''arm64''), (''freebsd'', ''amd64''),
      (''freebsd'', ''arm64''), (''openbsd'', ''amd64''), (''openbsd'', ''arm64'')]"

fun cross_loop :: "'w builder \<Rightarrow> (string \<times> string) list \<Rightarrow> 'w target" where
  "cross_loop b [] = io_return ()"
| "cross_loop b ((os, arch) # ts) =
     io_bind (buildBinary b ''olcrtc'' ''./cmd/olcrtc'' os arch) (\<lambda>_. cross_loop b ts)"

definition Cross :: "'w builder \<Rightarrow> 'w target" where
  "Cross b = io_bind (mg_Deps b ''Deps'' (build_Deps b)) (\<lambda>_. cross_loop b cross_targets)"

definition docker_args :: "'w builder \<Rightarrow> string list" where
  "docker_args b = [''build'', ''-t'', envOr b ''DOCKER_TAG'' ''olcrtc:latest'', ''.'']"

definition Podman :: "'w builder \<Rightarrow> 'w target" where
  "Podman b = sh_RunV b ''podman'' (docker_args b)"

definition Docker :: "'w builder \<Rightarrow> 'w target" where
  "Docker b = sh_RunV b ''docker'' (docker_args b)"

definition Lint :: "'w builder \<Rightarrow> 'w target" where
  "Lint b =
     (case ensureTool b ''golangci-lint'' of
        Some _ \<Rightarrow> io_fail (Base (''golangci-lint not found, install it:'' @ [CHR 0x0A]
          @ ''  go install github.com/golangci/golangci-lint/v2/cmd/golangci-lint@latest''))
      | None \<Rightarrow> sh_RunV b ''golangci-lint'' [''run'', ''./...''])"

definition Test :: "'w builder \<Rightarrow> 'w target" where
  "Test b = sh_RunV b (mg_GoCmd b) [''test'', ''-race'', ''-count=1'', ''./...'']"

definition E2E_args :: "'w builder \<Rightarrow> string list" where
  "E2E_args b =
     [''test'', ''-race'', ''-count=1'', ''-v'', ''-timeout'', ''120s'']
     @ (let carriers = os_Getenv b ''E2E_CARRIERS'' in
        if carriers \<noteq> [] then [''-olcrtc.real-e2e=true'', ''-olcrtc.real-carriers='' @ carriers] else [])
     @ (let transports = os_Getenv b ''E2E_TRANSPORTS'' in
        if transports \<noteq> [] then [''-olcrtc.real-transports='' @ transports] else [])
     @ (let timeout = os_Getenv b ''E2E_TIMEOUT'' in
        if timeout \<noteq> [] then [''-olcrtc.real-timeout='' @ timeout] else [])
     @ [''./internal/e2e/...'']"

definition E2E :: "'w builder \<Rightarrow> 'w target" where
  "E2E b = sh_RunV b (mg_GoCmd b) (E2E_args b)"

definition build_Clean :: "'w builder \<Rightarrow> 'w target" where
  "build_Clean b = io_check (os_RemoveAll b buildDir)"

definition build_Mobile :: "'w builder \<Rightarrow> 'w target" where
  "build_Mobile b =
     (case ensureTool b ''gomobile'' of
        Some _ \<Rightarrow> io_fail (Base (''gomobile not found: run '' @ [CHR 0x27]
          @ ''go install golang.org/x/mobile/cmd/gomobile@latest && gomobile init'' @ [CHR 0x27]))
      | None \<Rightarrow>
          io_bind (ensureBuildDir b) (\<lambda>_.
            sh_RunV b ''gomobile''
              [''bind'', ''-target=android'', ''-androidapi'', ''21'',
               ''-ldflags'', ''-s -w -checklinkname=0'',
               ''-o'', Join_paths [buildDir, ''olcrtc.aar''], ''./mobile'']))"

section \<open>What a cross build does\<close>

text \<open>The platforms get binaries of different names, so no build overwrites another's.\<close>

lemma cross_outputs:
  "map (\<lambda>(os, arch). Join_paths [buildDir, build_outName ''olcrtc'' os arch]) cross_targets =
     [''build/olcrtc-linux-amd64'', ''build/olcrtc-linux-arm64'', ''build/olcrtc-windows-amd64.exe'',
      ''build/olcrtc-darwin-amd64'', ''build/olcrtc-darwin-arm64'', ''build/olcrtc-freebsd-amd64'',
      ''build/olcrtc-freebsd-arm64'', ''build/olcrtc-openbsd-amd64'', ''build/olcrtc-openbsd-arm64'']"
  by code_simp

lemma cross_outputs_distinct:
  "distinct (map (\<lambda>(os, arch). Join_paths [buildDir, build_outName ''olcrtc'' os arch]) cross_targets)"
  unfolding cross_outputs by simp

lemma cross_loop_append:
  "cross_loop b (ts @ ts') = io_bind (cross_loop b ts) (\<lambda>_. cross_loop b ts')"
  by (induction b ts rule: cross_loop.induct) (simp_all add: io_bind_assoc)

text \<open>The first failing build ends the run, and nothing after it is built.\<close>

lemma cross_loop_stops:
  assumes "cross_loop b ts w = (Inr (), w')" and "buildBinary b ''olcrtc'' ''./cmd/olcrtc'' os arch w' = (Inl err, w'')"
  shows "cross_loop b (ts @ (os, arch) # ts') w = (Inl err, w'')"
  using assms by (simp add: cross_loop_append io_bind_def)

text \<open>Carriers, transports and the timeout do not disturb each other, and the package comes last.\<close>

lemma E2E_args_package: "last (E2E_args b) = ''./internal/e2e/...''"
  by (simp add: E2E_args_def)

lemma envOr_nonempty: "fallback \<noteq> [] \<Longrightarrow> envOr b key fallback \<noteq> []"
  by (simp add: envOr_def Let_def)

end
