(* ===== verification/Spec2Isabelle.thy ===== *)
theory Spec2Isabelle
  imports Session Reliable_Progress Track Relay_Contract Lifecycle
    Mux_Jazz Wbstream_Peer Telemost_Contract Mobile_Contract Cgo Cli_Contract Host Build
begin

text \<open>
  A verification library for librertc-core, a tunnel that carries TCP connections through the data
  channels and video tracks of conference services.

  \<^bold>\<open>The program.\<close> A client accepts SOCKS5 connections on a local port, a server at the other end dials
  their targets. Both join the same conference room. From the tunnel down, the layers are: smux streams
  on an encrypted byte stream (\<open>internal/muxconn\<close>, \<open>internal/crypto\<close>); a link (\<open>internal/link\<close>), which
  is a transport: \<open>datachannel\<close>, \<open>seichannel\<close> (acknowledged frames in H.264 SEI messages),
  \<open>videochannel\<close> (the same frames drawn as QR codes or tiles, coded by ffmpeg) or \<open>vp8channel\<close> (KCP
  packets behind a VP8 key frame); a carrier session (\<open>internal/carrier\<close>); and a provider with its peer
  (\<open>internal/provider\<close>: SaluteJazz, Telemost, WB Stream). \<open>internal/app/session\<close> validates a
  configuration and starts server, client or room generator; the command line, the mobile API and the C
  interface are in front of it. Layers call downwards through interfaces found in registries; upwards
  they call back: incoming data, reconnects, the end of the conference.

  \<^bold>\<open>The theories.\<close> Shared ground:
  \<^item> \<open>Prelude\<close> holds bytes, slices, big-endian fields, errors with their contexts, bounded channels;
    \<open>Go_Std\<close> checksums, hashes, varints, \<open>strconv\<close>, \<open>strings\<close> and \<open>hex\<close>; \<open>Json\<close> and \<open>Json_Prefix\<close>
    \<open>encoding/json\<close> (writer and parser, and that no proper part of an object parses); \<open>Flag\<close> the
    \<open>flag\<close> package and \<open>ParseInt\<close>; \<open>Io\<close> fallible operations on a state; \<open>Http\<close> the calls of the
    services.
  \<^item> \<open>Interfaces\<close> holds the contracts between components as locales: \<open>byte_codec\<close> (interpreted by the
    cipher and the SEI message), \<open>lossy_queue\<close> (the inbound queue of the KCP packet connection),
    \<open>closable\<close> (the four closing contracts: seichannel, videochannel, vp8channel, the wbstream peer),
    \<open>registry\<close> (carriers, transports, links) and \<open>message_channel\<close> (KCP framing); \<open>Ffmpeg\<close> has
    \<open>io_writer\<close>, interpreted by the pipe to a process.

  Layers, from the bottom:
  \<^item> \<open>Layers\<close> has the interfaces as records of operations, configurations, registries and the adapters
    of \<open>carrier/builtin\<close> and of each \<open>provider.go\<close>; \<open>Stack\<close> the datachannel transport and the direct
    link over them.
  \<^item> \<open>Webrtc\<close> is the state Jazz and Telemost peers share and the WebRTC environment. \<open>Jazz_Packet\<close>,
    \<open>Jazz_Api\<close>, \<open>Jazz_Peer\<close> model \<open>provider/jazz\<close>; \<open>Telemost_Api\<close>, \<open>Telemost_Signal\<close> (messages),
    \<open>Telemost_Peer\<close> (sessions, connecting), \<open>Telemost_Ops\<close> (signalling, send path, closing,
    reconnecting) and \<open>Telemost_Contract\<close> model \<open>provider/telemost\<close>; \<open>Wbstream_Api\<close> and
    \<open>Wbstream_Peer\<close> model \<open>provider/wbstream\<close>.
  \<^item> \<open>Frame\<close> is the frame format and the fragmentation that seichannel and videochannel share; \<open>Reliable\<close>
    the engine with its acknowledgements both have; \<open>Reliable_System\<close>, \<open>Reliable_Contract\<close> and
    \<open>Reliable_Progress\<close> two endpoints of it over a network that loses, repeats and reorders. \<open>H264\<close> and
    \<open>Seichannel\<close> model \<open>transport/seichannel\<close>; \<open>Ffmpeg\<close>, \<open>Videochannel\<close> and \<open>Video_Contract\<close>
    \<open>transport/videochannel\<close>; \<open>Kcp\<close>, \<open>Vp8channel\<close> and \<open>Vp8_Contract\<close> \<open>transport/vp8channel\<close>; \<open>Track\<close>
    the goroutines that read remote tracks.
  \<^item> \<open>Crypto\<close> is the cipher and the key handling of both ends, \<open>Muxconn\<close> the encrypted byte stream
    (\<open>Mux_Jazz\<close>: over the Jazz data channel),
    \<open>Socks\<close> the SOCKS5 exchanges, \<open>Server\<close> and \<open>Client\<close> the two ends, \<open>Tunnel\<close>, \<open>Relay\<close> and
    \<open>Relay_Contract\<close> what they do together, from the connect request to the relayed bytes, and \<open>Lifecycle\<close>
    how a server ends.
  \<^item> \<open>Session\<close> is the validation of a configuration and what it starts; \<open>Names\<close>, \<open>Main_Cli\<close> and
    \<open>Cli_Contract\<close> the command line; \<open>Mobile\<close> and \<open>Mobile_Contract\<close> the mobile API, \<open>Cgo\<close> the C
    interface, \<open>Host\<close> logging and socket protection; \<open>Build\<close> the targets of \<open>magefile.go\<close>.

  \<^bold>\<open>How code is modelled.\<close> A struct is a record, a method one definition over it, with its guards in the
  order of the source. Widths are kept (\<open>u32\<close>, \<open>u16\<close>, \<open>byte\<close>) wherever the code computes with them. An
  error is a value with the text and the chain the source gives it. A goroutine is a step, cut where the
  source takes or releases a lock, waits on a channel or calls out; a \<open>select\<close> with several ready cases
  and a channel operation that may block have a list of outcomes, empty when the goroutine waits. Pointers to
  sessions, processes and runs are their index among all ever made, so a stale pointer is distinguishable
  from the current one. The outside (WebRTC, LiveKit, smux, KCP's retransmission, ffmpeg processes, QR and tile
  codecs, AEAD, HTTP, clocks, randomness, files) is a parameter: a record of functions or an argument, of
  which only the hypotheses named in a theorem are used.

  \<^bold>\<open>What the lemmas show.\<close>
  \<^item> Delivery: a \<open>Send\<close> that returned nil was delivered; only sent messages are delivered; a complete
    message is delivered once; \<open>Send\<close> ends within a bound (\<open>Reliable_Contract\<close>, \<open>Reliable_Progress\<close>).
  \<^item> Wire formats: round trips of frames, SEI messages, IVF streams, KCP framing, Jazz packets,
    SOCKS requests, JSON; refinements that a frame read off its carrier is handled as the frame itself.
  \<^item> Life cycles: one smux session per server, which shuts down within ten steps of its context, one background
    client of the mobile API, no process outlives its use, closing contracts, reconnect limits, a relay whose ends all close.
  \<^item> Accounting: what a Telemost or wbstream peer accepted is sent, lost, in hand or queued, once and
    in order; what a relayed connection delivers is what its other end wrote.
  \<^item> Configuration: \<open>Validate\<close> against a direct description of complete configurations, the link it
    builds, the command line as a round trip, the mobile API against the command line.

  \<^bold>\<open>Bounds and fuel.\<close> The JSON parser runs on fuel \<open>2 * length + 2\<close>, enough because two nested calls
  consume at least one byte, and proved irrelevant beyond (\<open>Json_Prefix.json_value_fuel\<close>); nesting is
  limited to 10000 as in Go. Loops that consume their input (fragmentation, emulation prevention, TLV and
  varint parsing, frame extraction) are total functions with their measures. Loops that may not end are
  \<open>partial_function (option)\<close>: writing all bytes to a process, waiting for a link to take data, popping
  samples; where the code promises to return, that is a theorem. All other loops are step relations, their
  bounds stated in steps.

  \<^bold>\<open>Not modelled.\<close> Log texts and the moments of time-outs (a time-out is an event); the settings of
  HTTP clients and dialers; TCP keep-alive; the resolver beyond the address it is pointed to; contents of
  the media libraries; data races on fields the source reads without a lock, unless a step relation
  separates the accesses; tests.
\<close>

end
